(* ===== verification/Tumgrd_Prelude.thy ===== *)
theory Tumgrd_Prelude
  imports Main "HOL-Library.Word" "HOL-Library.Monad_Syntax"
begin

text \<open>
  Shared vocabulary of the development.

  \<^item> C strings are lists of bytes (\<^typ>\<open>string\<close>) without their terminating NUL; a
    possibly-NULL pointer to one is a \<^typ>\<open>string option\<close>.
  \<^item> An operation that always returns is a function \<open>'s \<Rightarrow> 'a \<times> 's\<close>. An operation that
    can block or loop for ever is a function \<open>'s \<Rightarrow> ('a \<times> 's) option\<close>, where \<^const>\<open>None\<close>
    means that the call never returns; such operations are sequenced by the
    do-notation of the option monad.
  \<^item> \<open>rsat m Q\<close> (partial correctness) and \<open>tsat m Q\<close> (total correctness) are the two
    judgements on the result of such a call, with one rule per program construct
    collected in \<open>vcg\<close> and \<open>tvcg\<close>.
\<close>

named_theorems vcg \<open>partial-correctness rules, one per program construct\<close>
named_theorems tvcg \<open>total-correctness rules, one per program construct\<close>
named_theorems frame \<open>which part of the state an operation leaves alone\<close>
named_theorems cstr \<open>facts on C string buffers\<close>

type_synonym 'a nullable = "'a option"

definition the_default :: "'a \<Rightarrow> 'a option \<Rightarrow> 'a" where
  "the_default d x = (case x of None \<Rightarrow> d | Some a \<Rightarrow> a)"

section \<open>Fixed-width integers\<close>

definition to_int32 :: "int \<Rightarrow> int" where
  "to_int32 x = signed_take_bit 31 x"

definition int_of_u32 :: "32 word \<Rightarrow> int" where
  "int_of_u32 w = sint w"

definition INT32_MAX :: int where
  "INT32_MAX = 2147483647"

definition INT64_MAX :: int where
  "INT64_MAX = 9223372036854775807"

section \<open>Character classes of the C locale\<close>

definition isspace :: "char \<Rightarrow> bool" where
  "isspace c \<longleftrightarrow> c = CHR '' '' \<or> (9 \<le> (of_char c :: nat) \<and> (of_char c :: nat) \<le> 13)"

definition isdigit :: "char \<Rightarrow> bool" where
  "isdigit c \<longleftrightarrow> 48 \<le> (of_char c :: nat) \<and> (of_char c :: nat) \<le> 57"

definition isupper :: "char \<Rightarrow> bool" where
  "isupper c \<longleftrightarrow> 65 \<le> (of_char c :: nat) \<and> (of_char c :: nat) \<le> 90"

definition islower :: "char \<Rightarrow> bool" where
  "islower c \<longleftrightarrow> 97 \<le> (of_char c :: nat) \<and> (of_char c :: nat) \<le> 122"

definition isalpha :: "char \<Rightarrow> bool" where
  "isalpha c \<longleftrightarrow> isupper c \<or> islower c"

definition isalnum :: "char \<Rightarrow> bool" where
  "isalnum c \<longleftrightarrow> isalpha c \<or> isdigit c"

definition tolower :: "char \<Rightarrow> char" where
  "tolower c = (if isupper c then char_of ((of_char c :: nat) + 32) else c)"

section \<open>String functions of the C library\<close>

definition strcasecmp_eq :: "string \<Rightarrow> string \<Rightarrow> bool" where
  "strcasecmp_eq a b \<longleftrightarrow> map tolower a = map tolower b"

text \<open>\<open>snprintf(dst, n, "%s", src)\<close> for \<open>n > 0\<close>: what the buffer holds afterwards.\<close>

definition snprintf_s :: "nat \<Rightarrow> string \<Rightarrow> string" where
  "snprintf_s n src = take (n - 1) src"

text \<open>The C string that starts at the beginning of a byte buffer.\<close>

definition cstr_of :: "string \<Rightarrow> string" where
  "cstr_of bs = takeWhile (\<lambda>c. c \<noteq> CHR 0x00) bs"

definition is_prefix :: "string \<Rightarrow> string \<Rightarrow> bool" where
  "is_prefix p s \<longleftrightarrow> take (length p) s = p"

text \<open>\<open>strstr(hay, needle)\<close>: the suffix of \<open>hay\<close> at the first occurrence.\<close>

fun strstr :: "string \<Rightarrow> string \<Rightarrow> string nullable" where
  "strstr [] needle = (if needle = [] then Some [] else None)"
| "strstr (c # cs) needle =
     (if is_prefix needle (c # cs) then Some (c # cs) else strstr cs needle)"

fun digit_value :: "char \<Rightarrow> nat" where
  "digit_value c =
     (if isdigit c then of_char c - 48
      else if islower c then of_char c - 87
      else if isupper c then of_char c - 55 else 255)"

fun scan_digits :: "nat \<Rightarrow> nat \<Rightarrow> string \<Rightarrow> nat \<times> string" where
  "scan_digits base acc [] = (acc, [])"
| "scan_digits base acc (c # cs) =
     (if digit_value c < base then scan_digits base (acc * base + digit_value c) cs
      else (acc, c # cs))"

text \<open>
  The subject sequence of \<open>strtol\<close> and its relatives: leading white space, a sign, for
  base 0 the prefix \<open>0x\<close> or \<open>0\<close>, then digits. \<^const>\<open>None\<close> when no conversion can be
  done (the caller's \<open>endptr\<close> is the input); otherwise the sign, the magnitude and what
  \<open>endptr\<close> points at.
\<close>

definition scan_magnitude :: "nat \<Rightarrow> string \<Rightarrow> (nat \<times> string) option" where
  "scan_magnitude base s =
     (let hex = (base = 0 \<and> length s \<ge> 3 \<and> s ! 0 = CHR ''0'' \<and> tolower (s ! 1) = CHR ''x''
                 \<and> digit_value (s ! 2) < 16);
          b = (if base \<noteq> 0 then base else if hex then 16
               else if s \<noteq> [] \<and> hd s = CHR ''0'' then 8 else 10);
          ds = (if hex then drop 2 s else s)
      in if ds \<noteq> [] \<and> digit_value (hd ds) < b then Some (scan_digits b 0 ds) else None)"

definition scan_int :: "nat \<Rightarrow> string \<Rightarrow> (bool \<times> nat \<times> string) option" where
  "scan_int base input =
     (let s = dropWhile isspace input;
          neg = (s \<noteq> [] \<and> hd s = CHR ''-'');
          s' = (if s \<noteq> [] \<and> (hd s = CHR ''-'' \<or> hd s = CHR ''+'') then tl s else s)
      in map_option (\<lambda>(v, rest). (neg, v, rest)) (scan_magnitude base s'))"

text \<open>
  Value, \<open>endptr\<close> (\<^const>\<open>None\<close> for \<open>endptr == input\<close>) and whether \<open>errno\<close> became
  \<open>ERANGE\<close>. The width of \<open>unsigned long\<close> and \<open>long\<close> differs between the supported
  targets, so it is an argument.
\<close>

definition strtoul :: "nat \<Rightarrow> nat \<Rightarrow> string \<Rightarrow> int \<times> string nullable \<times> bool" where
  "strtoul bits base input =
     (case scan_int base input of
        None \<Rightarrow> (0, None, False)
      | Some (neg, v, rest) \<Rightarrow>
          if 2 ^ bits \<le> v then (2 ^ bits - 1, Some rest, True)
          else (if neg then (- int v) mod 2 ^ bits else int v, Some rest, False))"

definition strtol :: "nat \<Rightarrow> nat \<Rightarrow> string \<Rightarrow> int \<times> string nullable \<times> bool" where
  "strtol bits base input =
     (case scan_int base input of
        None \<Rightarrow> (0, None, False)
      | Some (neg, v, rest) \<Rightarrow>
          if neg then (if 2 ^ (bits - 1) < v then (- (2 ^ (bits - 1)), Some rest, True)
                       else (- int v, Some rest, False))
          else (if 2 ^ (bits - 1) \<le> v then (2 ^ (bits - 1) - 1, Some rest, True)
                else (int v, Some rest, False)))"

text \<open>\<open>"%d"\<close>: decimal digits with a sign.\<close>

fun show_nat :: "nat \<Rightarrow> string" where
  "show_nat n = (if n < 10 then [char_of (48 + n)] else show_nat (n div 10) @ [char_of (48 + n mod 10)])"

declare show_nat.simps [simp del]

definition show_int :: "int \<Rightarrow> string" where
  "show_int i = (if i < 0 then CHR ''-'' # show_nat (nat (- i)) else show_nat (nat i))"

section \<open>Calls that may not return\<close>

definition rsat :: "('a \<times> 's) option \<Rightarrow> ('a \<Rightarrow> 's \<Rightarrow> bool) \<Rightarrow> bool" where
  "rsat m Q \<longleftrightarrow> (\<forall>a s. m = Some (a, s) \<longrightarrow> Q a s)"

definition tsat :: "('a \<times> 's) option \<Rightarrow> ('a \<Rightarrow> 's \<Rightarrow> bool) \<Rightarrow> bool" where
  "tsat m Q \<longleftrightarrow> (\<exists>a s. m = Some (a, s) \<and> Q a s)"

definition returns :: "('a \<times> 's) option \<Rightarrow> bool" where
  "returns m \<longleftrightarrow> m \<noteq> None"

lemma rsat_return [vcg]: "Q a s \<Longrightarrow> rsat (Some (a, s)) Q"
  by (simp add: rsat_def)

lemma rsat_bind [vcg]: "rsat m (\<lambda>a s. rsat (f (a, s)) Q) \<Longrightarrow> rsat (m \<bind> f) Q"
  by (cases m) (auto simp: rsat_def)

lemma rsat_if [vcg]:
  "(b \<Longrightarrow> rsat m Q) \<Longrightarrow> (\<not> b \<Longrightarrow> rsat n Q) \<Longrightarrow> rsat (if b then m else n) Q"
  by simp

lemma rsat_prod [vcg]:
  "(\<And>x y. p = (x, y) \<Longrightarrow> rsat (f x y) Q) \<Longrightarrow> rsat (case p of (x, y) \<Rightarrow> f x y) Q"
  by (simp split: prod.splits)

lemma rsat_prod_app [vcg]:
  "(\<And>a b. p = (a, b) \<Longrightarrow> rsat (f a b y) Q) \<Longrightarrow> rsat ((case p of (a, b) \<Rightarrow> f a b) y) Q"
  by (simp split: prod.splits)

lemma rsat_let [vcg]: "(\<And>x. x = e \<Longrightarrow> rsat (f x) Q) \<Longrightarrow> rsat (let x = e in f x) Q"
  by simp

lemma rsat_option [vcg]:
  "(x = None \<Longrightarrow> rsat m Q) \<Longrightarrow> (\<And>a. x = Some a \<Longrightarrow> rsat (f a) Q)
   \<Longrightarrow> rsat (case x of None \<Rightarrow> m | Some a \<Rightarrow> f a) Q"
  by (cases x) auto

lemma rsat_sum [vcg]:
  "(\<And>a. x = Inl a \<Longrightarrow> rsat (f a) Q) \<Longrightarrow> (\<And>b. x = Inr b \<Longrightarrow> rsat (g b) Q)
   \<Longrightarrow> rsat (case x of Inl a \<Rightarrow> f a | Inr b \<Rightarrow> g b) Q"
  by (cases x) auto

lemma rsat_None [simp]: "rsat None Q"
  by (simp add: rsat_def)

lemma rsat_conseq: "rsat m P \<Longrightarrow> (\<And>a s. P a s \<Longrightarrow> Q a s) \<Longrightarrow> rsat m Q"
  by (auto simp: rsat_def)

lemma rsat_conj: "rsat m P \<Longrightarrow> rsat m Q \<Longrightarrow> rsat m (\<lambda>a s. P a s \<and> Q a s)"
  by (auto simp: rsat_def)

lemma rsatD: "rsat m Q \<Longrightarrow> m = Some (a, s) \<Longrightarrow> Q a s"
  by (simp add: rsat_def)

lemma rsatI: "(\<And>a s. m = Some (a, s) \<Longrightarrow> Q a s) \<Longrightarrow> rsat m Q"
  by (simp add: rsat_def)

lemma tsat_return [tvcg]: "Q a s \<Longrightarrow> tsat (Some (a, s)) Q"
  by (simp add: tsat_def)

lemma tsat_bind [tvcg]: "tsat m (\<lambda>a s. tsat (f (a, s)) Q) \<Longrightarrow> tsat (m \<bind> f) Q"
  by (auto simp: tsat_def)

lemma tsat_if [tvcg]:
  "(b \<Longrightarrow> tsat m Q) \<Longrightarrow> (\<not> b \<Longrightarrow> tsat n Q) \<Longrightarrow> tsat (if b then m else n) Q"
  by simp

lemma tsat_prod [tvcg]:
  "(\<And>x y. p = (x, y) \<Longrightarrow> tsat (f x y) Q) \<Longrightarrow> tsat (case p of (x, y) \<Rightarrow> f x y) Q"
  by (simp split: prod.splits)

lemma tsat_prod_app [tvcg]:
  "(\<And>a b. p = (a, b) \<Longrightarrow> tsat (f a b y) Q) \<Longrightarrow> tsat ((case p of (a, b) \<Rightarrow> f a b) y) Q"
  by (simp split: prod.splits)

lemma tsat_let [tvcg]: "(\<And>x. x = e \<Longrightarrow> tsat (f x) Q) \<Longrightarrow> tsat (let x = e in f x) Q"
  by simp

lemma tsat_option [tvcg]:
  "(x = None \<Longrightarrow> tsat m Q) \<Longrightarrow> (\<And>a. x = Some a \<Longrightarrow> tsat (f a) Q)
   \<Longrightarrow> tsat (case x of None \<Rightarrow> m | Some a \<Rightarrow> f a) Q"
  by (cases x) auto

lemma tsat_sum [tvcg]:
  "(\<And>a. x = Inl a \<Longrightarrow> tsat (f a) Q) \<Longrightarrow> (\<And>b. x = Inr b \<Longrightarrow> tsat (g b) Q)
   \<Longrightarrow> tsat (case x of Inl a \<Rightarrow> f a | Inr b \<Rightarrow> g b) Q"
  by (cases x) auto

lemma tsat_conseq: "tsat m P \<Longrightarrow> (\<And>a s. P a s \<Longrightarrow> Q a s) \<Longrightarrow> tsat m Q"
  by (auto simp: tsat_def)

lemma tsat_iff: "tsat m Q \<longleftrightarrow> returns m \<and> rsat m Q"
  by (cases m) (auto simp: tsat_def rsat_def returns_def)

lemma returns_tsat: "returns m \<longleftrightarrow> tsat m (\<lambda>_ _. True)"
  by (simp add: tsat_iff rsat_def)

section \<open>Facts on the C library models\<close>

lemma snprintf_s_length [cstr]: "0 < n \<Longrightarrow> length (snprintf_s n s) < n"
  by (simp add: snprintf_s_def)

lemma snprintf_s_id [cstr]: "length s < n \<Longrightarrow> snprintf_s n s = s"
  by (simp add: snprintf_s_def)

lemma snprintf_s_idem [cstr, simp]: "snprintf_s n (snprintf_s n s) = snprintf_s n s"
  by (simp add: snprintf_s_def)

lemma snprintf_s_Nil [simp]: "snprintf_s n [] = []"
  by (simp add: snprintf_s_def)

lemma set_snprintf_s [cstr]: "set (snprintf_s n s) \<subseteq> set s"
  by (simp add: snprintf_s_def set_take_subset)

lemma snprintf_s_eq_Nil [cstr]: "1 < n \<Longrightarrow> snprintf_s n s = [] \<longleftrightarrow> s = []"
  by (auto simp: snprintf_s_def)

lemma to_int32_id: "- 2147483648 \<le> x \<Longrightarrow> x < 2147483648 \<Longrightarrow> to_int32 x = x"
  by (simp add: to_int32_def signed_take_bit_int_eq_self)

lemma to_int32_range: "- 2147483648 \<le> to_int32 x \<and> to_int32 x < 2147483648"
  using signed_take_bit_int_greater_eq_minus_exp [of 31 x] signed_take_bit_int_less_exp [of 31 x]
  by (simp add: to_int32_def)

lemma int_of_u32_range: "- 2147483648 \<le> int_of_u32 w \<and> int_of_u32 w < 2147483648"
  using sint_ge [of w] sint_lt [of w] by (simp add: int_of_u32_def)

lemma strcasecmp_eq_refl [simp]: "strcasecmp_eq a a"
  by (simp add: strcasecmp_eq_def)

lemma strstr_Some_suffix: "strstr s n = Some t \<Longrightarrow> \<exists>p. s = p @ t \<and> is_prefix n t"
proof (induction s)
  case Nil
  then show ?case by (auto simp: is_prefix_def split: if_splits)
next
  case (Cons c cs)
  show ?case
  proof (cases "is_prefix n (c # cs)")
    case True
    with Cons.prems show ?thesis by auto
  next
    case False
    with Cons.prems have "strstr cs n = Some t" by simp
    then obtain p where "cs = p @ t" "is_prefix n t" using Cons.IH by blast
    then show ?thesis by (intro exI [of _ "c # p"]) simp
  qed
qed

section \<open>Printing and scanning decimal numbers\<close>

lemma digit_char [simp]:
  "d < 10 \<Longrightarrow> isdigit (char_of (48 + d))" "d < 10 \<Longrightarrow> digit_value (char_of (48 + d)) = d"
  by (auto simp: isdigit_def)

lemma digit_not_special:
  assumes "isdigit c"
  shows "\<not> isspace c" "c \<noteq> CHR ''-''" "c \<noteq> CHR ''+''" "tolower c = c"
  using assms by (auto simp: isdigit_def isspace_def tolower_def isupper_def)

lemma digit_value_digit: "isdigit c \<Longrightarrow> digit_value c < 10"
  by (auto simp: isdigit_def)

declare digit_value.simps [simp del]

lemma show_nat_digits: "list_all isdigit (show_nat n)"
proof (induction n rule: show_nat.induct)
  case (1 n)
  then show ?case by (cases "n < 10") (simp_all add: show_nat.simps [of n])
qed

lemma show_nat_nonempty [simp]: "show_nat n \<noteq> []"
  by (subst show_nat.simps) simp

lemma scan_digits_append:
  "list_all (\<lambda>c. digit_value c < b) ds \<Longrightarrow>
   scan_digits b acc (ds @ rest) = scan_digits b (fst (scan_digits b acc ds)) rest"
  by (induction ds arbitrary: acc) auto

lemma show_nat_scan_value:
  "fst (scan_digits 10 acc (show_nat n)) = acc * 10 ^ length (show_nat n) + n"
proof (induction n arbitrary: acc rule: show_nat.induct)
  case (1 n)
  show ?case
  proof (cases "n < 10")
    case True
    then show ?thesis by (simp add: show_nat.simps [of n])
  next
    case False
    have "list_all (\<lambda>c. digit_value c < 10) (show_nat (n div 10))"
      using show_nat_digits [of "n div 10"] by (auto simp: list_all_iff digit_value_digit)
    with False "1.IH" [OF False, of acc] show ?thesis
      by (simp add: show_nat.simps [of n] scan_digits_append algebra_simps)
  qed
qed

lemma scan_digits_rest:
  "list_all (\<lambda>c. digit_value c < b) ds \<Longrightarrow> snd (scan_digits b acc ds) = []"
  by (induction ds arbitrary: acc) auto

lemma scan_digits_show_nat: "scan_digits 10 0 (show_nat n) = (n, [])"
proof -
  have "list_all (\<lambda>c. digit_value c < 10) (show_nat n)"
    using show_nat_digits [of n] by (auto simp: list_all_iff digit_value_digit)
  then show ?thesis
    using show_nat_scan_value [of 0 n] scan_digits_rest [of 10 "show_nat n" 0]
    by (simp add: prod_eq_iff)
qed

lemma show_nat_hd_nonzero: "0 < n \<Longrightarrow> hd (show_nat n) \<noteq> CHR ''0''"
proof (induction n rule: show_nat.induct)
  case (1 n)
  show ?case
  proof (cases "n < 10")
    case True
    with "1.prems" have "of_char (char_of (48 + n) :: char) \<noteq> (of_char CHR ''0'' :: nat)" by simp
    then have "char_of (48 + n) \<noteq> CHR ''0''" by metis
    with True show ?thesis by (simp add: show_nat.simps [of n])
  next
    case False
    with "1.IH" [OF False] show ?thesis by (simp add: show_nat.simps [of n])
  qed
qed

lemma show_nat_hd_digit: "isdigit (hd (show_nat n))"
  using show_nat_digits [of n] by (cases "show_nat n") auto

lemma scan_int_show_nat: "0 < n \<Longrightarrow> scan_int 0 (show_nat n) = Some (False, n, [])"
proof -
  assume n: "0 < n"
  note hd = show_nat_hd_digit [of n]
  have ws: "dropWhile isspace (show_nat n) = show_nat n"
    using digit_not_special(1) [OF hd] by (cases "show_nat n") auto
  have "show_nat n ! 0 \<noteq> CHR ''0''"
    using show_nat_hd_nonzero [OF n] by (cases "show_nat n") auto
  then have "scan_magnitude 0 (show_nat n) = Some (n, [])"
    using show_nat_hd_nonzero [OF n] digit_value_digit [OF hd]
    by (simp add: scan_magnitude_def scan_digits_show_nat)
  with ws digit_not_special [OF hd] show ?thesis
    by (simp add: scan_int_def Let_def)
qed

lemma show_nat_0: "show_nat 0 = ''0''"
  by code_simp

lemma scan_int_show_0: "scan_int 0 (show_nat 0) = Some (False, 0, [])"
  by (simp add: show_nat_0 scan_int_def scan_magnitude_def isspace_def digit_value.simps isdigit_def)

lemma scan_int_print: "scan_int 0 (show_nat n) = Some (False, n, [])"
  by (cases "n = 0") (simp_all add: scan_int_show_nat scan_int_show_0)

text \<open>The definitions to unfold when a scan runs on a literal.\<close>

lemmas c_scan = scan_int_def scan_magnitude_def digit_value.simps isdigit_def isspace_def
  islower_def isupper_def tolower_def

end
