(* ===== verification/Tumgrd_State.thy ===== *)
theory Tumgrd_State
  imports Tumgrd_Prelude
begin

text \<open>
  The data the daemon works on and the outside world it runs in.

  \<^item> \<open>tumgrd_node\<close> and \<open>tumgrd_config\<close> are the structs of \<open>src/src/db.h\<close>; a char array
    \<open>char f[n]\<close> is a string of fewer than \<open>n\<close> bytes (\<open>node_wf\<close>).
  \<^item> \<open>row\<close> is one row of the SQLite table \<open>nodes\<close>: a nullable column is an option.
  \<^item> \<open>db_state\<close>, \<open>runner_state\<close> and \<open>sys\<close> are the mutable state: the database handle and
    table, the process-wide state of \<open>runner.c\<close> (watchdog flag, alarm, descriptors, child)
    and the rest of the world, of arbitrary type \<^typ>\<open>'w\<close>.
  \<^item> \<open>'w os\<close> collects every call into code outside the repository (kernel, libc services,
    SQLite, libubus, libuci) as a function on \<^typ>\<open>'w\<close>: what these calls answer is a
    parameter of the development.
\<close>

section \<open>Structs of db.h\<close>

record tumgrd_node =
  n_uid :: string
  n_description :: string
  n_client_comment :: string
  n_created_at :: int
  n_server_host :: string
  n_server_port :: int
  n_psk :: string
  n_client_port :: int
  n_has_memlimit :: bool
  n_memlimit :: int
  n_ip_check_url :: string
  n_ip_version :: string
  n_current_ip :: string
  n_last_updated :: int
  n_status :: string
  n_xor_key :: string
  n_lifetime :: int
  n_last_applied_at :: int
  n_rotation_state :: int
  n_xor_key_pending :: string

text \<open>\<open>memset(&node, 0, sizeof(node))\<close>\<close>

definition zero_node :: tumgrd_node where
  "zero_node = \<lparr>n_uid = [], n_description = [], n_client_comment = [], n_created_at = 0,
     n_server_host = [], n_server_port = 0, n_psk = [], n_client_port = 0,
     n_has_memlimit = False, n_memlimit = 0, n_ip_check_url = [], n_ip_version = [],
     n_current_ip = [], n_last_updated = 0, n_status = [], n_xor_key = [], n_lifetime = 0,
     n_last_applied_at = 0, n_rotation_state = 0, n_xor_key_pending = []\<rparr>"

record tumgrd_config =
  cfg_db_path :: string
  cfg_socket_path :: "string nullable"
  cfg_log_level :: string
  cfg_interval_sec :: "32 word"
  cfg_enable_xor :: bool
  cfg_use_client_ip :: bool
  cfg_fwmark :: int
  cfg_default_lifetime :: int

definition TUMGRD_ROTATION_NONE :: int where "TUMGRD_ROTATION_NONE = 0"

definition TUMGRD_ROTATION_PENDING_REMOTE :: int where "TUMGRD_ROTATION_PENDING_REMOTE = 1"

definition TUMGRD_ROTATION_PENDING_LOCAL_RECOVERY :: int where
  "TUMGRD_ROTATION_PENDING_LOCAL_RECOVERY = 2"

definition TUMGRD_LIFETIME_MIN :: int where "TUMGRD_LIFETIME_MIN = 60"

definition TUMGRD_LIFETIME_MAX :: int where "TUMGRD_LIFETIME_MAX = INT32_MAX"

definition TUMGRD_MIN_SANE_TIME :: int where "TUMGRD_MIN_SANE_TIME = 1600000000"

text \<open>Constants of \<open>tumgrd.h\<close>.\<close>

definition TUMGRD_DB_PATH :: string where "TUMGRD_DB_PATH = ''/lib/tumgrd/tumgrd.db''"

definition TUMGRD_DEFAULT_IP_CHECK_URL :: string where
  "TUMGRD_DEFAULT_IP_CHECK_URL = ''http://ip.3322.net/''"

definition TUMGRD_DEFAULT_IP_CHECK_HOST :: string where
  "TUMGRD_DEFAULT_IP_CHECK_HOST = ''ip.3322.net''"

definition TUMGRD_DEFAULT_IP_CHECK_PATH :: string where "TUMGRD_DEFAULT_IP_CHECK_PATH = ''/''"

definition TUMGRD_DEFAULT_IP_CHECK_PORT :: int where "TUMGRD_DEFAULT_IP_CHECK_PORT = 80"

definition TUMGRD_IPDETECT_FWMARK :: int where "TUMGRD_IPDETECT_FWMARK = 2"

definition TUMGRD_IPDETECT_TIMEOUT_S :: int where "TUMGRD_IPDETECT_TIMEOUT_S = 5"

definition TUMGRD_SUBPROC_TIMEOUT_S :: nat where "TUMGRD_SUBPROC_TIMEOUT_S = 90"

definition TUMGRD_SUBPROC_TIMEOUT_RETRY_S :: nat where "TUMGRD_SUBPROC_TIMEOUT_RETRY_S = 5"

definition TUMGRD_STATUS_ACTIVE :: string where "TUMGRD_STATUS_ACTIVE = ''active''"

definition TUMGRD_STATUS_ERROR :: string where "TUMGRD_STATUS_ERROR = ''error''"

definition TUMGRD_STATUS_SYNCING :: string where "TUMGRD_STATUS_SYNCING = ''syncing''"

text \<open>Every string fits the char array that holds it.\<close>

definition node_wf :: "tumgrd_node \<Rightarrow> bool" where
  "node_wf n \<longleftrightarrow>
     length (n_uid n) < 128 \<and> length (n_description n) < 256 \<and> length (n_client_comment n) < 256 \<and>
     length (n_server_host n) < 256 \<and> length (n_psk n) < 256 \<and> length (n_ip_check_url n) < 256 \<and>
     length (n_ip_version n) < 16 \<and> length (n_current_ip n) < 64 \<and> length (n_status n) < 32 \<and>
     length (n_xor_key n) < 129 \<and> length (n_xor_key_pending n) < 129"

section \<open>The table nodes\<close>

record row =
  c_uid :: string
  c_description :: "string option"
  c_client_comment :: "string option"
  c_created_at :: "int option"
  c_server_host :: string
  c_server_port :: int
  c_psk :: string
  c_client_port :: int
  c_memlimit :: "int option"
  c_ip_check_url :: "string option"
  c_ip_version :: string
  c_current_ip :: "string option"
  c_last_updated :: "int option"
  c_status :: "string option"
  c_xor_key :: "string option"
  c_lifetime :: "int option"
  c_last_applied_at :: "int option"
  c_rotation_state :: "int option"
  c_xor_key_pending :: "string option"

text \<open>\<open>struct tumgrd_db\<close> together with what SQLite holds behind the handle.\<close>

record db_state =
  db_conn :: bool
  db_path :: string
  db_sync_full :: bool
  db_columns :: "string list"
  tbl :: "row list"

section \<open>Answers of the outside world\<close>

datatype errno = EINTR | EEXIST | ENOENT | EINVAL | ENAMETOOLONG | ENOMEM | ECHILD | EAGAIN
  | EPIPE | EINPROGRESS | EOTHER int

text \<open>A system call returns a value, fails, or blocks until a signal interrupts it.\<close>

datatype 'a sysret = Ret 'a | Err errno | Block

text \<open>What \<open>waitpid\<close> stores in \<open>status\<close>.\<close>

datatype wait_status = Exited int | Signaled int

datatype child_state = NoChild | Alive int | Reaped int "wait_status option"

text \<open>\<open>struct uci_option\<close> behind \<open>network.wan.device\<close>.\<close>

datatype uci_answer = UciNoContext | UciNotFound | UciNoOption | UciString string
  | UciList "string list" | UciOtherType

record spawn_event =
  sp_argv :: "string list"
  sp_envp :: "string list"
  sp_db :: "row list"
  sp_stdin :: string

record runner_state =
  watchdog_usable :: bool
  watchdog_timed_out :: bool
  alarm_in :: "nat option"
  sigalrm_blocked :: bool
  sigalrm_pending :: bool
  open_fds :: "int list"
  child :: child_state
  kills :: "(int \<times> child_state) list"
  spawns :: "spawn_event list"
  ipdetect_fwmark :: int

record 'w sys =
  db :: db_state
  rt :: runner_state
  world :: 'w

record 'w os =
  os_time :: "'w \<Rightarrow> int \<times> 'w"
  os_alloc :: "'w \<Rightarrow> bool \<times> 'w"
  os_mkdir :: "string \<Rightarrow> 'w \<Rightarrow> errno option \<times> 'w"
  os_open_urandom :: "'w \<Rightarrow> int \<times> 'w"
  os_read_urandom :: "nat \<Rightarrow> 'w \<Rightarrow> (errno + string) \<times> 'w"
  os_uci_wan :: "'w \<Rightarrow> uci_answer \<times> 'w"
  os_sqlite :: "'w \<Rightarrow> int option \<times> 'w"
  os_scan :: "row list \<Rightarrow> 'w \<Rightarrow> row list \<times> 'w"
  os_journal_mode :: "'w \<Rightarrow> string nullable \<times> 'w"
  os_alarm_ticks :: "nat \<Rightarrow> 'w \<Rightarrow> nat \<times> 'w"
  os_sigaction :: "'w \<Rightarrow> int \<times> 'w"
  os_environ :: "string list"
  os_pipe :: "'w \<Rightarrow> (int \<times> int) option \<times> 'w"
  os_dupfd :: "int \<Rightarrow> 'w \<Rightarrow> int \<times> 'w"
  os_fdflags :: "int \<Rightarrow> 'w \<Rightarrow> int \<times> 'w"
  os_spawn_attr :: "'w \<Rightarrow> int \<times> 'w"
  os_spawnp :: "string list \<Rightarrow> string list \<Rightarrow> 'w \<Rightarrow> (int + int) option \<times> 'w"
  os_write :: "int \<Rightarrow> string \<Rightarrow> 'w \<Rightarrow> nat sysret \<times> 'w"
  os_read :: "int \<Rightarrow> nat \<Rightarrow> 'w \<Rightarrow> string sysret \<times> 'w"
  os_waitpid :: "int \<Rightarrow> 'w \<Rightarrow> wait_status sysret \<times> 'w"
  os_kill :: "int \<Rightarrow> 'w \<Rightarrow> int \<times> 'w"
  os_inet_pton4 :: "string \<Rightarrow> bool"
  os_inet_pton6 :: "string \<Rightarrow> bool"
  os_getaddrinfo :: "bool \<Rightarrow> string \<Rightarrow> string \<Rightarrow> 'w \<Rightarrow> string list option \<times> 'w"
  os_socket :: "string \<Rightarrow> 'w \<Rightarrow> int \<times> 'w"
  os_setsockopt :: "string \<Rightarrow> int \<Rightarrow> 'w \<Rightarrow> int \<times> 'w"
  os_connect :: "string \<Rightarrow> 'w \<Rightarrow> errno option \<times> 'w"
  os_select :: "'w \<Rightarrow> int \<times> 'w"
  os_so_error :: "'w \<Rightarrow> int \<times> 'w"
  os_getsockname :: "'w \<Rightarrow> (bool \<times> string \<times> bool) option \<times> 'w"
  os_send :: "string \<Rightarrow> 'w \<Rightarrow> nat sysret \<times> 'w"
  os_recv :: "nat \<Rightarrow> 'w \<Rightarrow> string sysret \<times> 'w"

text \<open>A call into the outside world changes \<open>world\<close> only.\<close>

definition ext :: "('w \<Rightarrow> 'a \<times> 'w) \<Rightarrow> 'w sys \<Rightarrow> 'a \<times> 'w sys" where
  "ext f s = (let (a, w) = f (world s) in (a, s\<lparr>world := w\<rparr>))"

text \<open>The descriptor table of the process: \<open>open_fds\<close> lists what is open.\<close>

definition fd_opened :: "int \<Rightarrow> 'w sys \<Rightarrow> 'w sys" where
  "fd_opened fd s = s\<lparr>rt := (rt s)\<lparr>open_fds := fd # open_fds (rt s)\<rparr>\<rparr>"

definition close_fd :: "int \<Rightarrow> 'w sys \<Rightarrow> 'w sys" where
  "close_fd fd s = s\<lparr>rt := (rt s)\<lparr>open_fds := remove1 fd (open_fds (rt s))\<rparr>\<rparr>"

lemma close_fd_opened [simp]: "close_fd fd (fd_opened fd s) = s"
  by (simp add: close_fd_def fd_opened_def)

lemma fd_ops_simps [simp]:
  "db (fd_opened fd s) = db s" "world (fd_opened fd s) = world s"
  "db (close_fd fd s) = db s" "world (close_fd fd s) = world s"
  by (simp_all add: close_fd_def fd_opened_def)

lemma ext_frame [frame]: "ext f s = (a, s') \<Longrightarrow> db s' = db s \<and> rt s' = rt s"
  by (auto simp: ext_def split: prod.splits)

lemma ext_result: "ext f s = (a, s') \<longleftrightarrow> (\<exists>w. f (world s) = (a, w) \<and> s' = s\<lparr>world := w\<rparr>)"
  by (auto simp: ext_def split: prod.splits)

lemma zero_node_wf: "node_wf zero_node"
  by (simp add: node_wf_def zero_node_def)

lemmas rotation_states =
  TUMGRD_ROTATION_NONE_def TUMGRD_ROTATION_PENDING_REMOTE_def
  TUMGRD_ROTATION_PENDING_LOCAL_RECOVERY_def

lemmas lifetime_bounds = TUMGRD_LIFETIME_MIN_def TUMGRD_LIFETIME_MAX_def INT32_MAX_def

lemmas status_strings = TUMGRD_STATUS_ACTIVE_def TUMGRD_STATUS_ERROR_def TUMGRD_STATUS_SYNCING_def

section \<open>A concrete world\<close>

text \<open>
  A world in which every call succeeds, used to exhibit concrete runs: its state counts
  the reads, which alternate between the output of the external tools and end of file.
\<close>

definition demo_os :: "nat os" where
  "demo_os = \<lparr>
     os_time = (\<lambda>w. (1700000000, w)), os_alloc = (\<lambda>w. (True, w)),
     os_mkdir = (\<lambda>_ w. (None, w)), os_open_urandom = (\<lambda>w. (7, w)),
     os_read_urandom = (\<lambda>n w. (Inr (replicate n CHR 0xAB), w)),
     os_uci_wan = (\<lambda>w. (UciString ''wan'', w)), os_sqlite = (\<lambda>w. (None, w)),
     os_scan = (\<lambda>t w. (t, w)), os_journal_mode = (\<lambda>w. (Some ''wal'', w)),
     os_alarm_ticks = (\<lambda>n w. (n, w)),
     os_sigaction = (\<lambda>w. (0, w)), os_environ = [''PATH=/usr/bin''],
     os_pipe = (\<lambda>w. (Some (10, 11), w)), os_dupfd = (\<lambda>_ w. (12, w)),
     os_fdflags = (\<lambda>_ w. (0, w)), os_spawn_attr = (\<lambda>w. (0, w)),
     os_spawnp = (\<lambda>_ _ w. (Some (Inr 100), w)), os_write = (\<lambda>_ bs w. (Ret (length bs), w)),
     os_read = (\<lambda>_ n w. (Ret (if even w then take n ''server updated: server deleted:'' else []), Suc w)),
     os_waitpid = (\<lambda>_ w. (Ret (Exited 0), w)), os_kill = (\<lambda>_ w. (0, w)),
     os_inet_pton4 = (\<lambda>t. t = ''203.0.113.7''), os_inet_pton6 = (\<lambda>t. t = ''2001:db8::7''),
     os_getaddrinfo = (\<lambda>_ _ _ w. (Some [''addr''], w)), os_socket = (\<lambda>_ w. (20, w)),
     os_setsockopt = (\<lambda>_ _ w. (0, w)), os_connect = (\<lambda>_ w. (None, w)),
     os_select = (\<lambda>w. (1, w)), os_so_error = (\<lambda>w. (0, w)),
     os_getsockname = (\<lambda>w. (Some (True, ''2001:db8::7'', False), w)),
     os_send = (\<lambda>bs w. (Ret (length bs), w)),
     os_recv = (\<lambda>_ w. (Ret (if even w
        then ''HTTP/1.1 200 OK'' @ [CHR 0x0D, CHR 0x0A, CHR 0x0D, CHR 0x0A] @ ''203.0.113.7''
        else []), Suc w))\<rparr>"

definition demo_sys :: "row list \<Rightarrow> nat sys" where
  "demo_sys rows = \<lparr>
     db = \<lparr>db_conn = True, db_path = TUMGRD_DB_PATH, db_sync_full = False, db_columns = [],
           tbl = rows\<rparr>,
     rt = \<lparr>watchdog_usable = True, watchdog_timed_out = False, alarm_in = None,
           sigalrm_blocked = False, sigalrm_pending = False, open_fds = [], child = NoChild,
           kills = [], spawns = [], ipdetect_fwmark = 2\<rparr>,
     world = 0\<rparr>"

definition demo_node :: tumgrd_node where
  "demo_node = zero_node\<lparr>n_uid := ''alice'', n_server_host := ''vpn.example'', n_server_port := 4433,
     n_psk := ''secret'', n_client_port := 5000, n_ip_version := ''v4'', n_created_at := 1690000000,
     n_xor_key := ''00ff'', n_lifetime := 3600\<rparr>"

text \<open>A node at rest and the same node in the middle of a rotation.\<close>

definition demo_row :: row where
  "demo_row = \<lparr>c_uid = ''alice'', c_description = None, c_client_comment = Some ''home'',
     c_created_at = Some 1690000000, c_server_host = ''vpn.example'', c_server_port = 4433,
     c_psk = ''secret'', c_client_port = 5000, c_memlimit = None, c_ip_check_url = None,
     c_ip_version = ''v4'', c_current_ip = Some ''203.0.113.7'', c_last_updated = Some 1690000000,
     c_status = Some ''active'', c_xor_key = Some ''00ff'', c_lifetime = Some 3600,
     c_last_applied_at = Some 1690000000, c_rotation_state = Some 0, c_xor_key_pending = None\<rparr>"

definition demo_rotating :: row where
  "demo_rotating = demo_row\<lparr>c_rotation_state := Some 1, c_xor_key_pending := Some ''00ff''\<rparr>"

end
