(* ===== verification/Tumgrd_Helper.thy ===== *)
theory Tumgrd_Helper
  imports Tumgrd_State
begin

text \<open>
  \<open>src/src/helper.c\<close>: number parsing, string comparison, trimming and bounded copying,
  directory creation, the WAN interface test and the random key generator.
\<close>

section \<open>Definitions\<close>

definition neg_EINVAL :: int where "neg_EINVAL = - 22"

definition neg_ENOENT :: int where "neg_ENOENT = - 2"

definition neg_ENOMEM :: int where "neg_ENOMEM = - 12"

definition parse_u32 :: "nat \<Rightarrow> string \<Rightarrow> 32 word \<Rightarrow> int \<times> 32 word" where
  "parse_u32 ulong_bits input out =
     (case strtoul ulong_bits 0 input of
        (val, endptr, erange) \<Rightarrow>
          if endptr = None \<or> endptr \<noteq> Some [] \<or> erange \<or> val > 2 ^ 32 - 1
          then (neg_EINVAL, out) else (0, word_of_int val))"

definition parse_interval :: "nat \<Rightarrow> string \<Rightarrow> 32 word \<Rightarrow> int \<times> 32 word" where
  "parse_interval ulong_bits input out =
     (let (err, out) = parse_u32 ulong_bits input out
      in if err \<noteq> 0 \<or> out < 10 \<or> out > 3600 then (neg_EINVAL, out) else (0, out))"

definition parse_lifetime :: "string \<Rightarrow> int \<Rightarrow> int \<times> int" where
  "parse_lifetime input out =
     (case strtol 64 0 input of
        (val, endptr, erange) \<Rightarrow>
          if endptr = None \<or> endptr \<noteq> Some [] \<or> erange then (neg_EINVAL, out)
          else if val \<noteq> 0 \<and> val < TUMGRD_LIFETIME_MIN then (neg_EINVAL, out)
          else if val > TUMGRD_LIFETIME_MAX then (neg_EINVAL, out)
          else (0, val))"

fun streqcase :: "string nullable \<Rightarrow> string nullable \<Rightarrow> bool" where
  "streqcase None None = True"
| "streqcase (Some a) (Some b) = strcasecmp_eq a b"
| "streqcase _ _ = False"

fun streq :: "string nullable \<Rightarrow> string nullable \<Rightarrow> bool" where
  "streq None None = True"
| "streq (Some a) (Some b) = (a = b)"
| "streq _ _ = False"

fun skip_spaces :: "string \<Rightarrow> string" where
  "skip_spaces [] = []"
| "skip_spaces (c # cs) = (if isspace c then skip_spaces cs else c # cs)"

fun trim_end :: "string \<Rightarrow> nat \<Rightarrow> nat" where
  "trim_end s 0 = 0"
| "trim_end s (Suc e) = (if isspace (s ! e) then trim_end s e else Suc e)"

definition trim_inplace :: "string \<Rightarrow> string" where
  "trim_inplace s =
     (if s = [] then s
      else let s = skip_spaces s in take (trim_end s (length s)) s)"

definition copy_string :: "string \<Rightarrow> nat \<Rightarrow> string nullable \<Rightarrow> string" where
  "copy_string dst dst_len src =
     (if dst_len = 0 then dst
      else case src of None \<Rightarrow> [] | Some src \<Rightarrow> snprintf_s dst_len src)"

definition nonempty_or_default ::
  "string nullable \<Rightarrow> string nullable \<Rightarrow> string nullable" where
  "nonempty_or_default input def_str =
     (if input = None \<or> input = Some [] then def_str else input)"

definition nonempty_or_null :: "string nullable \<Rightarrow> string nullable" where
  "nonempty_or_null input = nonempty_or_default input None"

definition PATH_MAX :: nat where "PATH_MAX = 4096"

function mkdir_p_loop :: "'w os \<Rightarrow> string \<Rightarrow> nat \<Rightarrow> 'w sys \<Rightarrow> int \<times> 'w sys" where
  "mkdir_p_loop os tmp p s =
     (if p < length tmp then
        if tmp ! p = CHR ''/'' then
          (let (e, s) = ext (os_mkdir os (take p tmp)) s
           in if e \<noteq> None \<and> e \<noteq> Some EEXIST then (- 1, s) else mkdir_p_loop os tmp (Suc p) s)
        else mkdir_p_loop os tmp (Suc p) s
      else (0, s))"
  by pat_completeness auto
termination
  by (relation "measure (\<lambda>(os, tmp, p, s). length tmp - p)") auto

definition mkdir_p :: "'w os \<Rightarrow> string nullable \<Rightarrow> 'w sys \<Rightarrow> int \<times> 'w sys" where
  "mkdir_p os dir s =
     (case dir of None \<Rightarrow> (- 1, s) | Some dir \<Rightarrow>
        if dir = [] then (- 1, s)
        else if length dir \<ge> PATH_MAX then (- 1, s)
        else
          let tmp = copy_string [] PATH_MAX (Some dir);
              tmp = (if last tmp = CHR ''/'' then butlast tmp else tmp);
              (err, s) = mkdir_p_loop os tmp 1 s
          in if err < 0 then (- 1, s)
             else let (e, s) = ext (os_mkdir os tmp) s
                  in if e \<noteq> None \<and> e \<noteq> Some EEXIST then (- 1, s) else (0, s))"

text \<open>\<open>strrchr(dir, '/')\<close> as an index.\<close>

fun strrchr_slash :: "string \<Rightarrow> nat option" where
  "strrchr_slash [] = None"
| "strrchr_slash (c # cs) =
     (case strrchr_slash cs of Some i \<Rightarrow> Some (Suc i)
      | None \<Rightarrow> if c = CHR ''/'' then Some 0 else None)"

definition ensure_parent_dir :: "'w os \<Rightarrow> string nullable \<Rightarrow> 'w sys \<Rightarrow> int \<times> 'w sys" where
  "ensure_parent_dir os path s =
     (case path of None \<Rightarrow> (- 1, s) | Some path \<Rightarrow>
        if path = [] then (- 1, s)
        else if length path \<ge> PATH_MAX then (- 1, s)
        else
          let dir = copy_string [] PATH_MAX (Some path)
          in case strrchr_slash dir of
               None \<Rightarrow> (0, s)
             | Some slash \<Rightarrow>
                 if slash = 0 then (0, s) else mkdir_p os (Some (take slash dir)) s)"

definition check_wan_interface ::
  "bool \<Rightarrow> 'w os \<Rightarrow> string nullable \<Rightarrow> bool \<Rightarrow> 'w sys \<Rightarrow> (int \<times> bool) \<times> 'w sys" where
  "check_wan_interface uci_enabled os ifname is_wan s =
     (if \<not> uci_enabled then ((- 1, is_wan), s)
      else
        let (answer, s) = ext (os_uci_wan os) s
        in case answer of
             UciNoContext \<Rightarrow> ((neg_ENOMEM, False), s)
           | UciNotFound \<Rightarrow> ((neg_ENOENT, False), s)
           | UciNoOption \<Rightarrow> ((0, False), s)
           | UciString v \<Rightarrow> ((0, ifname \<noteq> None \<and> streq (Some v) ifname), s)
           | UciList vs \<Rightarrow> ((0, list_ex (\<lambda>e. ifname \<noteq> None \<and> streq (Some e) ifname) vs), s)
           | UciOtherType \<Rightarrow> ((0, False), s))"

definition is_safe_id :: "string nullable \<Rightarrow> bool" where
  "is_safe_id s =
     (case s of None \<Rightarrow> False | Some s \<Rightarrow>
        s \<noteq> [] \<and>
        list_all (\<lambda>c. \<not> ((of_char c :: nat) < 0x20 \<or> (of_char c :: nat) = 0x7f \<or> c = CHR '' '')) s)"

partial_function (option) read_urandom ::
  "'w os \<Rightarrow> nat \<Rightarrow> string \<Rightarrow> 'w sys \<Rightarrow> (string nullable \<times> 'w sys) option" where
  "read_urandom os key_bytes buf s =
     (if length buf < key_bytes then
        (let (r, s) = ext (os_read_urandom os (key_bytes - length buf)) s
         in case r of
              Inl e \<Rightarrow> if e = EINTR then read_urandom os key_bytes buf s else Some (None, s)
            | Inr bs \<Rightarrow>
                if bs = [] then Some (None, s) else read_urandom os key_bytes (buf @ bs) s)
      else Some (Some buf, s))"

definition hex_digit :: "nat \<Rightarrow> char" where
  "hex_digit d = char_of (if d < 10 then 48 + d else 87 + d)"

definition hex2 :: "char \<Rightarrow> string" where
  "hex2 b = [hex_digit (of_char b div 16), hex_digit (of_char b mod 16)]"

definition generate_random_hex_key ::
  "'w os \<Rightarrow> string \<Rightarrow> nat \<Rightarrow> nat \<Rightarrow> 'w sys \<Rightarrow> ((int \<times> string) \<times> 'w sys) option" where
  "generate_random_hex_key os out out_size key_bytes s =
     (if out_size < key_bytes * 2 + 1 then Some ((- 1, out), s)
      else if key_bytes < 16 \<or> key_bytes > 64 then Some ((- 1, out), s)
      else
        let (fd, s) = ext (os_open_urandom os) s
        in if fd < 0 then Some ((- 1, out), s)
           else do {
             let s = fd_opened fd s;
             (r, s) \<leftarrow> read_urandom os key_bytes [] s;
             let s = close_fd fd s;
             case r of
               None \<Rightarrow> Some ((- 1, out), s)
             | Some buf \<Rightarrow> Some ((0, concat (map hex2 (take key_bytes buf))), s)
           })"

text \<open>The reference decoder of a hexadecimal key.\<close>

fun hex_decode :: "string \<Rightarrow> string" where
  "hex_decode (h # l # cs) = char_of (digit_value h * 16 + digit_value l) # hex_decode cs"
| "hex_decode _ = []"

text \<open>
  What the key generator relies on: \<open>read\<close> returns at most what was asked for, and it is
  not interrupted for ever (each \<open>EINTR\<close> lowers some rank of the world).
\<close>

definition urandom_bounded :: "'w os \<Rightarrow> bool" where
  "urandom_bounded os \<longleftrightarrow>
     (\<forall>n w bs w'. os_read_urandom os n w = (Inr bs, w') \<longrightarrow> length bs \<le> n)"

definition urandom_eintr_finite :: "('w \<Rightarrow> nat) \<Rightarrow> 'w os \<Rightarrow> bool" where
  "urandom_eintr_finite rank os \<longleftrightarrow>
     (\<forall>n w w'. os_read_urandom os n w = (Inl EINTR, w') \<longrightarrow> rank w' < rank w)"

declare mkdir_p_loop.simps [simp del]

section \<open>Number parsing\<close>

text \<open>
  \<open>parse_interval\<close> accepts only intervals between 10 and 3600 seconds, whatever the
  width of \<open>unsigned long\<close> on the target.
\<close>

theorem parse_interval_range:
  assumes "parse_interval ulong_bits input out = (0, v)"
  shows "10 \<le> unat v \<and> unat v \<le> 3600"
  using assms
  by (auto simp: parse_interval_def neg_EINVAL_def word_le_nat_alt word_less_nat_alt
      split: if_splits prod.splits)

text \<open>
  C30: Every interval from 10 to 3600 written in decimal is read back as that number, on
  32-bit and wider targets.
\<close>

theorem parse_interval_roundtrip:
  assumes "10 \<le> n" "n \<le> 3600" "32 \<le> ulong_bits"
  shows "parse_interval ulong_bits (show_nat n) out = (0, of_nat n)"
proof -
  have "(2::nat) ^ 32 \<le> 2 ^ ulong_bits" using assms(3) by (rule power_increasing) simp
  then have small: "\<not> 2 ^ ulong_bits \<le> n" using assms(2) by simp
  then have "parse_u32 ulong_bits (show_nat n) out = (0, of_nat n)"
    using assms(2) by (simp add: parse_u32_def strtoul_def scan_int_print)
  moreover have "unat (of_nat n :: 32 word) = n"
    using assms(2) by (simp add: unat_of_nat take_bit_nat_eq_self)
  ultimately show ?thesis
    using assms by (simp add: parse_interval_def word_less_nat_alt)
qed

text \<open>
  A lifetime that \<open>parse_lifetime\<close> accepts is 0 (disabled) or lies between 60 seconds
  and \<open>INT32_MAX\<close>, and a rejected one leaves the caller's variable alone.
\<close>

theorem parse_lifetime_range:
  assumes "parse_lifetime input out = (err, v)"
  shows "(err = 0 \<and> (v = 0 \<or> 60 \<le> v \<and> v \<le> INT32_MAX)) \<or> (err < 0 \<and> v = out)"
  using assms
  by (auto simp: parse_lifetime_def neg_EINVAL_def lifetime_bounds split: if_splits prod.splits)

lemma parse_lifetime_print:
  assumes "n = 0 \<or> 60 \<le> n" "n \<le> 2147483647"
  shows "parse_lifetime (show_nat n) out = (0, int n)"
  using assms
  by (auto simp: parse_lifetime_def strtol_def scan_int_print lifetime_bounds)

section \<open>Strings\<close>

lemma streq_iff [simp]: "streq a b \<longleftrightarrow> a = b"
  by (cases a; cases b) simp_all

lemma streqcase_refl [simp]: "streqcase a a"
  by (cases a) simp_all

lemma skip_spaces_dropWhile: "skip_spaces s = dropWhile isspace s"
  by (induction s) simp_all

lemma trim_end_take:
  "e \<le> length s \<Longrightarrow> take (trim_end s e) s = rev (dropWhile isspace (rev (take e s)))"
  by (induction e) (simp_all add: take_Suc_conv_app_nth)

text \<open>
  C31: The two pointer loops of \<open>trim_inplace\<close> compute the string without its leading and
  trailing white space.
\<close>

theorem trim_inplace_spec:
  "trim_inplace s = rev (dropWhile isspace (rev (dropWhile isspace s)))"
  by (simp add: trim_inplace_def skip_spaces_dropWhile trim_end_take Let_def)

lemma trim_inplace_Nil [simp]: "trim_inplace [] = []"
  by (simp add: trim_inplace_def)

lemma trim_reference_set: "set (rev (dropWhile P (rev (dropWhile P s)))) \<subseteq> set s"
  by (auto dest!: set_dropWhileD)

lemma trim_inplace_set: "set (trim_inplace s) \<subseteq> set s"
  using trim_reference_set [of isspace s]
  by (simp add: trim_inplace_def skip_spaces_dropWhile trim_end_take Let_def)

lemma copy_string_length [cstr]: "0 < n \<Longrightarrow> length (copy_string dst n src) < n"
  by (auto simp: copy_string_def cstr split: option.splits)

lemma copy_string_Some [simp]: "0 < n \<Longrightarrow> copy_string dst n (Some s) = snprintf_s n s"
  by (simp add: copy_string_def)

lemma nonempty_or_null_Some:
  "nonempty_or_null (Some s) = (if s = [] then None else Some s)"
  by (simp add: nonempty_or_null_def nonempty_or_default_def)

lemma is_safe_id_take: "is_safe_id (Some s) \<Longrightarrow> 1 < n \<Longrightarrow> is_safe_id (Some (snprintf_s n s))"
  using set_snprintf_s [of n s]
  by (auto simp: is_safe_id_def snprintf_s_eq_Nil list_all_iff)

lemma safe_char:
  assumes "\<not> (of_char c :: nat) < 0x20" "c \<noteq> CHR '' ''"
  shows "\<not> isspace c \<and> c \<noteq> CHR 0x0A \<and> c \<noteq> CHR 0x0D"
proof (intro conjI)
  show "\<not> isspace c" using assms by (simp add: isspace_def)
  show "c \<noteq> CHR 0x0A" using assms(1) by (intro notI) simp
  show "c \<noteq> CHR 0x0D" using assms(1) by (intro notI) simp
qed

text \<open>
  An identifier that \<open>is_safe_id\<close> accepts is not empty and has no white space: it
  cannot split or add a word, or a line, in a \<open>tuctl_client\<close> script.
\<close>

theorem is_safe_id_no_space:
  assumes "is_safe_id (Some s)"
  shows "s \<noteq> [] \<and> list_all (\<lambda>c. \<not> isspace c \<and> c \<noteq> CHR 0x0A \<and> c \<noteq> CHR 0x0D) s"
  using assms by (simp add: is_safe_id_def list_all_iff safe_char)

section \<open>Directories\<close>

text \<open>The directories that \<open>mkdir -p\<close> has to create, outermost first.\<close>

definition mkdir_targets :: "string \<Rightarrow> string list" where
  "mkdir_targets tmp =
     map (\<lambda>p. take p tmp) (filter (\<lambda>p. tmp ! p = CHR ''/'') [1 ..< length tmp]) @ [tmp]"

fun mkdir_seq :: "'w os \<Rightarrow> string list \<Rightarrow> 'w sys \<Rightarrow> int \<times> 'w sys" where
  "mkdir_seq os [] s = (0, s)"
| "mkdir_seq os (d # ds) s =
     (let (e, s) = ext (os_mkdir os d) s
      in if e \<noteq> None \<and> e \<noteq> Some EEXIST then (- 1, s) else mkdir_seq os ds s)"

lemma mkdir_seq_append:
  "mkdir_seq os (xs @ ys) s =
     (let (err, s) = mkdir_seq os xs s in if err < 0 then (- 1, s) else mkdir_seq os ys s)"
  by (induction xs arbitrary: s) (simp_all add: Let_def split: prod.splits)

lemma mkdir_p_loop_seq:
  "mkdir_p_loop os tmp p s =
     mkdir_seq os (map (\<lambda>p. take p tmp) (filter (\<lambda>p. tmp ! p = CHR ''/'') [p ..< length tmp])) s"
proof (induction os tmp p s rule: mkdir_p_loop.induct)
  case (1 os tmp p s)
  show ?case
  proof (cases "p < length tmp")
    case True
    then have "[p ..< length tmp] = p # [Suc p ..< length tmp]" by (rule upt_conv_Cons)
    with True "1.IH" show ?thesis
      by (simp add: mkdir_p_loop.simps [of os tmp p s] Let_def split: prod.splits)
  next
    case False
    then show ?thesis by (simp add: mkdir_p_loop.simps [of os tmp p s])
  qed
qed

lemma mkdir_seq_frame [frame]:
  "mkdir_seq os ds s = (err, s') \<Longrightarrow> db s' = db s \<and> rt s' = rt s"
  by (induction ds arbitrary: s) (auto simp: Let_def split: prod.splits if_splits dest!: ext_frame)

lemma mkdir_p_loop_frame [frame]:
  "mkdir_p_loop os tmp p s = (err, s') \<Longrightarrow> db s' = db s \<and> rt s' = rt s"
  unfolding mkdir_p_loop_seq by (rule mkdir_seq_frame)

lemma mkdir_p_frame [frame]:
  "mkdir_p os dir s = (err, s') \<Longrightarrow> db s' = db s \<and> rt s' = rt s"
  by (auto simp: mkdir_p_def Let_def split: option.splits if_splits prod.splits
      dest!: ext_frame mkdir_p_loop_frame)

lemma ensure_parent_dir_frame [frame]:
  "ensure_parent_dir os p s = (err, s') \<Longrightarrow> db s' = db s \<and> rt s' = rt s"
  by (auto simp: ensure_parent_dir_def Let_def split: option.splits if_splits
      dest!: mkdir_p_frame)

text \<open>
  C29: For a directory with no trailing slash, \<open>_mkdir_p\<close> calls \<open>mkdir\<close> on every proper
  ancestor, outermost first, and then on the directory itself; it stops at the first
  error other than \<open>EEXIST\<close>.
\<close>

theorem mkdir_p_creates_ancestors:
  assumes "dir \<noteq> []" "length dir < PATH_MAX" "last dir \<noteq> CHR ''/''"
  shows "mkdir_p os (Some dir) s = mkdir_seq os (mkdir_targets dir) s"
proof -
  have "0 < PATH_MAX" using assms(2) by simp
  then show ?thesis
    using assms
    by (simp add: mkdir_p_def mkdir_targets_def mkdir_seq_append mkdir_p_loop_seq snprintf_s_id
        Let_def split: prod.splits)
qed

section \<open>Random keys\<close>

text \<open>
  The successful reads of \<open>n\<close> bytes from \<open>/dev/urandom\<close>, one after the other: which bytes they
  deliver, and how they change the world. Each read asks for what is still missing.
\<close>

inductive urandom_reads :: "'w os \<Rightarrow> nat \<Rightarrow> 'w \<Rightarrow> string \<Rightarrow> 'w \<Rightarrow> bool" for os where
  complete: "urandom_reads os 0 w [] w"
| interrupted: "0 < n \<Longrightarrow> os_read_urandom os n w = (Inl EINTR, u) \<Longrightarrow> urandom_reads os n u bs v \<Longrightarrow>
     urandom_reads os n w bs v"
| chunk: "0 < n \<Longrightarrow> os_read_urandom os n w = (Inr d, u) \<Longrightarrow> d \<noteq> [] \<Longrightarrow>
     urandom_reads os (n - length d) u bs v \<Longrightarrow> urandom_reads os n w (d @ bs) v"

lemma urandom_reads_length:
  "urandom_reads os n w bs v \<Longrightarrow> n \<le> length bs \<and> (urandom_bounded os \<longrightarrow> length bs = n)"
  by (induction rule: urandom_reads.induct) (fastforce simp: urandom_bounded_def)+

lemma read_urandom_spec:
  assumes "read_urandom os n buf s = Some (r, s')"
  shows "db s' = db s \<and> rt s' = rt s \<and>
    (\<forall>b. r = Some b \<longrightarrow> (\<exists>bs. b = buf @ bs \<and> urandom_reads os (n - length buf) (world s) bs (world s')))"
proof (rule read_urandom.raw_induct [where P = "\<lambda>os n buf s (r, s'). db s' = db s \<and> rt s' = rt s \<and>
    (\<forall>b. r = Some b \<longrightarrow> (\<exists>bs. b = buf @ bs \<and> urandom_reads os (n - length buf) (world s) bs (world s')))",
    OF _ assms, unfolded split_conv])
  fix rec and os :: "'w os" and n buf and s :: "'w sys" and res
  let ?post = "\<lambda>os n buf s (r, s'). db s' = db s \<and> rt s' = rt s \<and>
    (\<forall>b. r = Some b \<longrightarrow> (\<exists>bs. b = buf @ bs \<and> urandom_reads os (n - length buf) (world s) bs (world s')))"
  assume IH: "\<And>os n buf s y. rec os n buf s = Some y \<Longrightarrow> ?post os n buf s y"
    and eq: "(if length buf < n then
        (let (r, s) = ext (os_read_urandom os (n - length buf)) s
         in case r of
              Inl e \<Rightarrow> if e = EINTR then rec os n buf s else Some (None, s)
            | Inr bs \<Rightarrow> if bs = [] then Some (None, s) else rec os n (buf @ bs) s)
      else Some (Some buf, s)) = Some res"
  obtain r w where r: "os_read_urandom os (n - length buf) (world s) = (r, w)" by fastforce
  have ext: "ext (os_read_urandom os (n - length buf)) s = (r, s\<lparr>world := w\<rparr>)" using r by (simp add: ext_def)
  consider "n \<le> length buf" | "length buf < n" "r = Inl EINTR"
    | d where "length buf < n" "r = Inr d" "d \<noteq> []"
    | "length buf < n" "res = (None, s\<lparr>world := w\<rparr>)"
    using eq ext by (cases r) (auto split: if_splits)
  then show "?post os n buf s res"
  proof cases
    case 1
    then show ?thesis using eq by (auto intro: urandom_reads.complete)
  next
    case 2
    then have "rec os n buf (s\<lparr>world := w\<rparr>) = Some res" using eq ext by simp
    from IH [OF this] show ?thesis
      using urandom_reads.interrupted [OF _ r [unfolded 2(2)]] 2(1) by (auto split: prod.splits)
  next
    case (3 d)
    then have "rec os n (buf @ d) (s\<lparr>world := w\<rparr>) = Some res" using eq ext by simp
    from IH [OF this] show ?thesis
      using urandom_reads.chunk [OF _ r [unfolded 3(2)] 3(3)] 3(1) by (auto split: prod.splits)
  next
    case 4
    then show ?thesis by simp
  qed
qed

lemma read_urandom_returns:
  assumes "urandom_eintr_finite rank os"
  shows "returns (read_urandom os n buf s)"
proof (induction "(n - length buf, rank (world s))" arbitrary: buf s
    rule: wf_induct_rule [OF wf_lex_prod [OF wf_measure [of id] wf_measure [of id]]])
  case (1 buf s)
  obtain r w where r: "os_read_urandom os (n - length buf) (world s) = (r, w)" by fastforce
  have IH1: "returns (read_urandom os n buf (s\<lparr>world := w\<rparr>))" if "r = Inl EINTR"
    using "1" [of buf "s\<lparr>world := w\<rparr>"] assms r that by (auto simp: urandom_eintr_finite_def)
  have IH2: "returns (read_urandom os n (buf @ bs) (s\<lparr>world := w\<rparr>))"
    if "length buf < n" "bs \<noteq> []" for bs
    using "1" [of "buf @ bs" "s\<lparr>world := w\<rparr>"] that
    by (cases bs) (simp_all add: diff_less_mono2)
  show ?case
    using r IH1 IH2
    by (subst read_urandom.simps) (auto simp: ext_def returns_def split: sum.splits)
qed

lemma hex_digit_value: "d < 16 \<Longrightarrow> digit_value (hex_digit d) = d"
  by (auto simp: hex_digit_def digit_value.simps isdigit_def islower_def)

lemma hex_decode_hex2: "hex_decode (concat (map hex2 bs)) = bs"
proof (induction bs)
  case (Cons b bs)
  have lt: "(of_char b :: nat) div 16 < 16" using nat_of_char_less_256 [of b] by linarith
  have "char_of ((of_char b :: nat) div 16 * 16 + of_char b mod 16) = b" by (simp only: div_mult_mod_eq) simp
  with lt Cons show ?case by (simp add: hex2_def hex_digit_value)
qed simp

lemma length_hex2 [simp]: "length (concat (map hex2 bs)) = 2 * length bs"
  by (induction bs) (simp_all add: hex2_def)

lemma hex_digit_safe:
  "d < 16 \<Longrightarrow> 0x20 < (of_char (hex_digit d) :: nat) \<and> (of_char (hex_digit d) :: nat) < 0x7f"
  by (simp add: hex_digit_def)

lemma hex2_safe: "c \<in> set (hex2 b) \<Longrightarrow> 0x20 < (of_char c :: nat) \<and> (of_char c :: nat) < 0x7f"
proof -
  have "(of_char b :: nat) div 16 < 16" using nat_of_char_less_256 [of b] by linarith
  moreover assume "c \<in> set (hex2 b)"
  ultimately show ?thesis by (auto simp: hex2_def intro: hex_digit_safe [THEN conjunct1]
      hex_digit_safe [THEN conjunct2])
qed

lemma hex_key_safe: "bs \<noteq> [] \<Longrightarrow> is_safe_id (Some (concat (map hex2 bs)))"
proof -
  assume "bs \<noteq> []"
  then have "concat (map hex2 bs) \<noteq> []" by (cases bs) (simp_all add: hex2_def)
  moreover have "0x20 < (of_char c :: nat) \<and> (of_char c :: nat) < 0x7f"
    if "c \<in> set (concat (map hex2 bs))" for c
    using that by (auto dest: hex2_safe)
  ultimately show ?thesis by (fastforce simp: is_safe_id_def list_all_iff)
qed

lemma generate_random_hex_key_cases:
  assumes "generate_random_hex_key os out sz kb s = Some ((err, key), s')"
  shows "db s' = db s \<and> rt s' = rt s \<and>
    (err = - 1 \<and> key = out \<or>
     err = 0 \<and> 2 * kb < sz \<and> 16 \<le> kb \<and> kb \<le> 64 \<and>
     (\<exists>fd w bs. os_open_urandom os (world s) = (fd, w) \<and> 0 \<le> fd \<and> urandom_reads os kb w bs (world s') \<and>
        key = concat (map hex2 (take kb bs)) \<and> kb \<le> length bs))"
proof -
  obtain fd w where o: "os_open_urandom os (world s) = (fd, w)" by fastforce
  have e: "ext (os_open_urandom os) s = (fd, s\<lparr>world := w\<rparr>)" using o by (simp add: ext_def)
  let ?t = "fd_opened fd (s\<lparr>world := w\<rparr>)"
  show ?thesis
  proof (cases "sz < kb * 2 + 1 \<or> kb < 16 \<or> kb > 64 \<or> fd < 0")
    case True
    then show ?thesis using assms e by (auto simp: generate_random_hex_key_def split: if_splits)
  next
    case False
    then obtain r u where r: "read_urandom os kb [] ?t = Some (r, u)"
      and out: "s' = close_fd fd u" "(err, key) = (case r of None \<Rightarrow> (- 1, out)
         | Some buf \<Rightarrow> (0, concat (map hex2 (take kb buf))))"
      using assms e
      by (auto simp: generate_random_hex_key_def bind_eq_Some_conv Let_def split: if_splits option.splits)
    have "rt s' = rt s" "db s' = db s"
      using read_urandom_spec [OF r] by (simp_all add: out(1) close_fd_def fd_opened_def)
    moreover have "\<exists>bs. buf = bs \<and> urandom_reads os kb w bs (world s')" if "r = Some buf" for buf
      using read_urandom_spec [OF r] that by (simp add: out(1))
    ultimately show ?thesis
      using False out(2) o urandom_reads_length [of os kb w] by (cases r) auto
  qed
qed

text \<open>
  C28: The key that \<open>generate_random_hex_key\<close> delivers is the lower-case hexadecimal form of the
  \<open>key_bytes\<close> bytes that its reads of \<open>/dev/urandom\<close> delivered, in their order, however they were
  cut into chunks or interrupted: it decodes to those bytes. It is twice \<open>key_bytes\<close> characters
  long, fits the output buffer with its NUL and passes \<open>is_safe_id\<close>; on failure the output buffer
  is untouched. No descriptor is leaked either way.
\<close>

theorem generate_random_hex_key_correct:
  assumes "generate_random_hex_key os out sz kb s = Some ((err, key), s')"
  shows "rt s' = rt s \<and>
    (err = - 1 \<and> key = out \<or>
     err = 0 \<and> length key = 2 * kb \<and> length key < sz \<and> is_safe_id (Some key) \<and>
     length (hex_decode key) = kb \<and> concat (map hex2 (hex_decode key)) = key \<and>
     (\<exists>fd w bs. os_open_urandom os (world s) = (fd, w) \<and> 0 \<le> fd \<and> urandom_reads os kb w bs (world s') \<and>
        hex_decode key = take kb bs \<and> (urandom_bounded os \<longrightarrow> hex_decode key = bs)))"
proof -
  have safe: "is_safe_id (Some (concat (map hex2 (take kb bs))))" if "kb \<le> length bs" "16 \<le> kb" for bs
    using that by (intro hex_key_safe) auto
  have all: "urandom_bounded os \<Longrightarrow> urandom_reads os kb w bs v \<Longrightarrow> take kb bs = bs" for w bs v
    using urandom_reads_length [of os kb w bs v] by simp
  show ?thesis
    using generate_random_hex_key_cases [OF assms] safe all
    by (elim conjE disjE exE) (simp_all add: hex_decode_hex2, blast)
qed

theorem generate_random_hex_key_witness:
  "\<exists>key s'. generate_random_hex_key demo_os [] 129 64 (demo_sys []) = Some ((0, key), s') \<and>
     length key = 128 \<and> is_safe_id (Some key) \<and> hex_decode key = replicate 64 CHR 0xAB"
proof -
  obtain err key s' where
    r: "generate_random_hex_key demo_os [] 129 64 (demo_sys []) = Some ((err, key), s')" and "err = 0"
    by (simp add: generate_random_hex_key_def demo_os_def demo_sys_def ext_def
        read_urandom.simps fd_opened_def close_fd_def)
  note correct = generate_random_hex_key_correct [OF r]
  with \<open>err = 0\<close> obtain w bs where bs: "urandom_reads demo_os 64 w bs (world s')" "hex_decode key = take 64 bs"
    by auto
  have "urandom_reads demo_os n w bs v \<Longrightarrow> bs = replicate n CHR 0xAB" for n w bs v
    by (induction rule: urandom_reads.induct) (auto simp: demo_os_def)
  from this [OF bs(1)] bs(2) have "hex_decode key = replicate 64 CHR 0xAB" by (simp only: take_replicate) simp
  with correct r \<open>err = 0\<close> show ?thesis by auto
qed

lemma generate_key_returns:
  assumes "urandom_eintr_finite rank os"
  shows "returns (generate_random_hex_key os out sz kb s)"
proof -
  have "tsat (read_urandom os n buf s) (\<lambda>_ _. True)" for n buf s
    using read_urandom_returns [OF assms] by (simp add: returns_tsat)
  then show ?thesis
    unfolding generate_random_hex_key_def returns_tsat Let_def
    by (auto intro!: tvcg intro: tsat_conseq)
qed

text \<open>
  If reading \<open>/dev/urandom\<close> is not interrupted for ever, \<open>generate_random_hex_key\<close>
  returns.
\<close>

theorem generate_random_hex_key_returns:
  assumes "urandom_eintr_finite rank os"
  shows "returns (generate_random_hex_key os out sz kb s)"
  by (rule generate_key_returns [OF assms])

theorem generate_random_hex_key_returns_witness:
  "returns (generate_random_hex_key demo_os [] 129 64 (demo_sys []))"
  by (rule generate_random_hex_key_returns [where rank = "\<lambda>_. 0"])
     (simp add: urandom_eintr_finite_def demo_os_def)

section \<open>Concrete instances\<close>

theorem parse_interval_range_witness:
  "parse_interval 64 ''0x10'' 0 = (0, 16) \<and> 10 \<le> unat (16 :: 32 word)"
proof -
  have "parse_interval 64 ''0x10'' 0 = (0, 16)"
    by (simp add: parse_interval_def parse_u32_def strtoul_def c_scan)
  with parse_interval_range [OF this] show ?thesis by simp
qed

theorem parse_interval_roundtrip_witness: "parse_interval 32 (show_nat 300) 7 = (0, 300)"
  using parse_interval_roundtrip [of 300 32 7] by simp

theorem parse_lifetime_range_witness:
  "parse_lifetime ''3600'' 5 = (0, 3600) \<and> parse_lifetime ''59'' 5 = (- 22, 5) \<and> (60 :: int) \<le> 3600"
proof -
  have a: "parse_lifetime ''3600'' 5 = (0, 3600)"
    by (simp add: parse_lifetime_def strtol_def c_scan lifetime_bounds)
  have b: "parse_lifetime ''59'' 5 = (- 22, 5)"
    by (simp add: parse_lifetime_def strtol_def c_scan lifetime_bounds neg_EINVAL_def)
  from a b parse_lifetime_range [OF a] show ?thesis by simp
qed

theorem is_safe_id_no_space_witness: "is_safe_id (Some ''my-node-01'') \<and> list_all (\<lambda>c. \<not> isspace c) ''my-node-01''"
proof -
  have a: "is_safe_id (Some ''my-node-01'')" by code_simp
  with is_safe_id_no_space [OF a] show ?thesis by (simp add: list_all_iff)
qed

theorem mkdir_p_creates_ancestors_witness:
  "mkdir_p demo_os (Some ''/lib/tumgrd'') (demo_sys []) =
     mkdir_seq demo_os [''/lib'', ''/lib/tumgrd''] (demo_sys [])"
proof -
  have "mkdir_targets ''/lib/tumgrd'' = [''/lib'', ''/lib/tumgrd'']" by code_simp
  with mkdir_p_creates_ancestors [of "''/lib/tumgrd''" demo_os "demo_sys []"] show ?thesis
    by (simp add: PATH_MAX_def)
qed

text \<open>\<open>strtoul\<close> negates: on a 32-bit target a negative argument that wraps into the range is accepted.\<close>

lemma negative_interval_accepted: "parse_interval 32 ''-4294967236'' 0 = (0, 60)"
  by (simp add: parse_interval_def parse_u32_def strtoul_def c_scan)

text \<open>
  For a file directly under a root written \<open>//\<close>, the parent directory is \<open>/\<close>, whose slash is
  stripped: \<open>mkdir\<close> is called on the empty path and its error is reported.
\<close>

lemma parent_of_double_slash:
  "ensure_parent_dir os (Some ''//x'') s =
    (let (e, s) = ext (os_mkdir os []) s in (if e \<noteq> None \<and> e \<noteq> Some EEXIST then - 1 else 0, s))"
  by (simp add: ensure_parent_dir_def mkdir_p_def PATH_MAX_def snprintf_s_def Let_def mkdir_p_loop_seq split: prod.split)

end
