(* ===== verification/Tumgrd_Db.thy ===== *)
theory Tumgrd_Db
  imports Tumgrd_Helper "HOL-Library.Char_ord" "HOL-Library.List_Lexorder"
    "HOL-Library.Product_Lexorder" "HOL-Library.Multiset"
begin

text \<open>
  \<open>src/src/db.c\<close>: the SQLite store of nodes.

  Each SQL statement of the file is a function from its bound parameters (the list of
  \<open>sqlval\<close> in the order of the \<open>?\<close> marks) and the table to the new table and the number of
  changed rows, or \<^const>\<open>None\<close> when a constraint is violated. Whether a call into SQLite
  fails for reasons of its own (locked or full disk, no memory) is decided by \<open>os_sqlite\<close>:
  a failing call makes the C function return -1 and, SQLite running every statement in
  its own transaction, leaves the table alone.
\<close>

section \<open>Binding parameters and reading columns\<close>

datatype sqlval = SqlNull | SqlInt int | SqlText string

definition bind_text_or_null :: "string nullable \<Rightarrow> sqlval" where
  "bind_text_or_null v =
     (case v of None \<Rightarrow> SqlNull | Some v \<Rightarrow> if v = [] then SqlNull else SqlText v)"

definition bind_required_text :: "string nullable \<Rightarrow> sqlval" where
  "bind_required_text v = (case v of None \<Rightarrow> SqlText [] | Some v \<Rightarrow> SqlText v)"

fun sql_text :: "sqlval \<Rightarrow> string option" where
  "sql_text (SqlText t) = Some t"
| "sql_text _ = None"

fun sql_int :: "sqlval \<Rightarrow> int option" where
  "sql_int (SqlInt i) = Some i"
| "sql_int _ = None"

definition column_text :: "string option \<Rightarrow> nat \<Rightarrow> string" where
  "column_text cell dst_len =
     (case cell of None \<Rightarrow> [] | Some text \<Rightarrow> copy_string [] dst_len (Some text))"

definition column_int64 :: "int option \<Rightarrow> int" where
  "column_int64 cell = (case cell of None \<Rightarrow> 0 | Some i \<Rightarrow> i)"

definition column_int :: "int option \<Rightarrow> int" where
  "column_int cell = to_int32 (column_int64 cell)"

definition now_unix :: "'w os \<Rightarrow> 'w sys \<Rightarrow> int \<times> 'w sys" where
  "now_unix os s = ext (os_time os) s"

text \<open>Stored lifetimes and application times that make no sense are replaced.\<close>

definition clamp_lifetime :: "int \<Rightarrow> int" where
  "clamp_lifetime lifetime =
     (if lifetime \<noteq> 0 \<and> (lifetime < TUMGRD_LIFETIME_MIN \<or> lifetime > TUMGRD_LIFETIME_MAX)
      then 0 else lifetime)"

definition clamp_applied :: "'w os \<Rightarrow> int \<Rightarrow> 'w sys \<Rightarrow> int \<times> 'w sys" where
  "clamp_applied os applied s =
     (if applied < 0 then (0, s)
      else let (now, s) = now_unix os s
           in (if applied > now + 86400 then 1 else applied, s))"

definition row_to_node :: "'w os \<Rightarrow> row \<Rightarrow> 'w sys \<Rightarrow> tumgrd_node \<times> 'w sys" where
  "row_to_node os r s =
     (let (applied, s) = clamp_applied os (column_int64 (c_last_applied_at r)) s
      in (\<lparr>n_uid = column_text (Some (c_uid r)) 128,
           n_description = column_text (c_description r) 256,
           n_client_comment = column_text (c_client_comment r) 256,
           n_created_at = column_int64 (c_created_at r),
           n_server_host = column_text (Some (c_server_host r)) 256,
           n_server_port = column_int (Some (c_server_port r)),
           n_psk = column_text (Some (c_psk r)) 256,
           n_client_port = column_int (Some (c_client_port r)),
           n_has_memlimit = (c_memlimit r \<noteq> None),
           n_memlimit = (if c_memlimit r \<noteq> None then column_int (c_memlimit r) else 0),
           n_ip_check_url = column_text (c_ip_check_url r) 256,
           n_ip_version = column_text (Some (c_ip_version r)) 16,
           n_current_ip = column_text (c_current_ip r) 64,
           n_last_updated = column_int64 (c_last_updated r),
           n_status = column_text (c_status r) 32,
           n_xor_key = column_text (c_xor_key r) 129,
           n_lifetime = clamp_lifetime (column_int64 (c_lifetime r)),
           n_last_applied_at = applied,
           n_rotation_state = column_int (c_rotation_state r),
           n_xor_key_pending = column_text (c_xor_key_pending r) 129\<rparr>, s))"

section \<open>Statements\<close>

type_synonym node_key = "string \<times> int \<times> string \<times> string"

type_synonym statement = "sqlval list \<Rightarrow> row list \<Rightarrow> (row list \<times> nat) option"

text \<open>\<open>PRIMARY KEY (server_host, server_port, uid, ip_version)\<close>\<close>

definition pk :: "row \<Rightarrow> node_key" where
  "pk r = (c_server_host r, c_server_port r, c_uid r, c_ip_version r)"

text \<open>\<open>UNIQUE (server_host, server_port, client_port, ip_version)\<close>\<close>

definition uk :: "row \<Rightarrow> string \<times> int \<times> int \<times> string" where
  "uk r = (c_server_host r, c_server_port r, c_client_port r, c_ip_version r)"

text \<open>\<open>server_host = ? AND server_port = ? AND uid = ? AND ip_version = ?\<close>\<close>

definition where_pk :: "sqlval \<Rightarrow> sqlval \<Rightarrow> sqlval \<Rightarrow> sqlval \<Rightarrow> row \<Rightarrow> bool" where
  "where_pk h p u v r \<longleftrightarrow>
     h = SqlText (c_server_host r) \<and> p = SqlInt (c_server_port r) \<and> u = SqlText (c_uid r) \<and>
     v = SqlText (c_ip_version r)"

definition sql_update :: "(row \<Rightarrow> bool) \<Rightarrow> (row \<Rightarrow> row) \<Rightarrow> row list \<Rightarrow> (row list \<times> nat) option" where
  "sql_update cond f t = Some (map (\<lambda>r. if cond r then f r else r) t, length (filter cond t))"

definition sql_update_runtime :: statement where
  "sql_update_runtime ps =
     sql_update (where_pk (ps ! 3) (ps ! 4) (ps ! 5) (ps ! 6))
       (\<lambda>r. r\<lparr>c_current_ip := sql_text (ps ! 0), c_status := sql_text (ps ! 1),
              c_last_updated := sql_int (ps ! 2)\<rparr>)"

definition sql_update_applied :: statement where
  "sql_update_applied ps =
     sql_update (where_pk (ps ! 1) (ps ! 2) (ps ! 3) (ps ! 4))
       (\<lambda>r. r\<lparr>c_last_applied_at := sql_int (ps ! 0)\<rparr>)"

definition sql_begin_rotation :: statement where
  "sql_begin_rotation ps =
     sql_update (\<lambda>r. where_pk (ps ! 4) (ps ! 5) (ps ! 6) (ps ! 7) r \<and> c_rotation_state r = Some 0)
       (\<lambda>r. r\<lparr>c_xor_key := sql_text (ps ! 0), c_xor_key_pending := sql_text (ps ! 1),
              c_rotation_state := sql_int (ps ! 2), c_last_updated := sql_int (ps ! 3)\<rparr>)"

definition sql_complete_rotation :: statement where
  "sql_complete_rotation ps =
     sql_update (\<lambda>r. where_pk (ps ! 1) (ps ! 2) (ps ! 3) (ps ! 4) r \<and>
                     c_rotation_state r \<noteq> None \<and> c_rotation_state r \<noteq> Some 0)
       (\<lambda>r. r\<lparr>c_rotation_state := Some 0, c_xor_key_pending := Some [],
              c_last_applied_at := sql_int (ps ! 0)\<rparr>)"

definition sql_update_rotation_state :: statement where
  "sql_update_rotation_state ps =
     sql_update (\<lambda>r. where_pk (ps ! 1) (ps ! 2) (ps ! 3) (ps ! 4) r \<and> c_rotation_state r \<noteq> None \<and>
                     (c_rotation_state r = sql_int (ps ! 5) \<or> c_rotation_state r = sql_int (ps ! 6)))
       (\<lambda>r. r\<lparr>c_rotation_state := sql_int (ps ! 0)\<rparr>)"

definition sql_replace_rotation :: statement where
  "sql_replace_rotation ps =
     sql_update (where_pk (ps ! 4) (ps ! 5) (ps ! 6) (ps ! 7))
       (\<lambda>r. r\<lparr>c_xor_key := sql_text (ps ! 0), c_xor_key_pending := sql_text (ps ! 1),
              c_rotation_state := sql_int (ps ! 2), c_last_updated := sql_int (ps ! 3)\<rparr>)"

definition sql_clear_rotation :: statement where
  "sql_clear_rotation ps =
     sql_update (where_pk (ps ! 0) (ps ! 1) (ps ! 2) (ps ! 3))
       (\<lambda>r. r\<lparr>c_rotation_state := Some 0, c_xor_key_pending := Some []\<rparr>)"

definition sql_delete :: statement where
  "sql_delete ps t =
     (let cond = where_pk (ps ! 0) (ps ! 1) (ps ! 2) (ps ! 3)
      in Some (filter (\<lambda>r. \<not> cond r) t, length (filter cond t)))"

definition sql_select_one :: "sqlval list \<Rightarrow> row list \<Rightarrow> row option" where
  "sql_select_one ps t = find (where_pk (ps ! 0) (ps ! 1) (ps ! 2) (ps ! 3)) t"

text \<open>The row that \<open>VALUES (?, ...)\<close> denotes, \<open>excluded\<close> in the conflict clause.\<close>

definition insert_row :: "sqlval list \<Rightarrow> row" where
  "insert_row ps = \<lparr>
     c_uid = the_default [] (sql_text (ps ! 0)), c_description = sql_text (ps ! 1),
     c_client_comment = sql_text (ps ! 2), c_created_at = sql_int (ps ! 3),
     c_server_host = the_default [] (sql_text (ps ! 4)),
     c_server_port = the_default 0 (sql_int (ps ! 5)),
     c_psk = the_default [] (sql_text (ps ! 6)),
     c_client_port = the_default 0 (sql_int (ps ! 7)), c_memlimit = sql_int (ps ! 8),
     c_ip_check_url = sql_text (ps ! 9),
     c_ip_version = the_default [] (sql_text (ps ! 10)), c_current_ip = sql_text (ps ! 11),
     c_last_updated = sql_int (ps ! 12), c_status = sql_text (ps ! 13),
     c_xor_key = sql_text (ps ! 14), c_lifetime = sql_int (ps ! 15),
     c_last_applied_at = sql_int (ps ! 16), c_rotation_state = sql_int (ps ! 17),
     c_xor_key_pending = sql_text (ps ! 18)\<rparr>"

text \<open>\<open>DO UPDATE SET ...\<close> on the stored row \<open>r\<close> for the excluded row \<open>e\<close>.\<close>

definition conflict_update :: "row \<Rightarrow> row \<Rightarrow> row" where
  "conflict_update e r = r\<lparr>
     c_description := c_description e, c_client_comment := c_client_comment e,
     c_created_at := c_created_at e, c_psk := c_psk e, c_client_port := c_client_port e,
     c_memlimit := c_memlimit e, c_ip_check_url := c_ip_check_url e,
     c_current_ip := c_current_ip e, c_last_updated := c_last_updated e,
     c_status := c_status e,
     c_lifetime := (if c_lifetime e \<noteq> None then c_lifetime e else c_lifetime r),
     c_xor_key := (if c_rotation_state r \<noteq> None \<and> c_rotation_state r \<noteq> Some 0
                   then c_xor_key r else c_xor_key e)\<rparr>"

definition sql_upsert :: statement where
  "sql_upsert ps t =
     (if list_ex (\<lambda>i. ps ! i = SqlNull) [0, 4, 5, 6, 7, 10] then None
      else
        let e = insert_row ps
        in if list_ex (\<lambda>r. pk r = pk e) t then
             if list_ex (\<lambda>r. pk r \<noteq> pk e \<and> uk r = uk e) t then None
             else Some (map (\<lambda>r. if pk r = pk e then conflict_update e r else r) t, 1)
           else if list_ex (\<lambda>r. uk r = uk e) t then None
           else Some (t @ [e], 1))"

section \<open>Calls into SQLite\<close>

text \<open>\<open>SQLITE_TRY\<close> around a call that SQLite may fail.\<close>

definition sqlite_ok :: "'w os \<Rightarrow> 'w sys \<Rightarrow> bool \<times> 'w sys" where
  "sqlite_ok os s = (let (e, s) = ext (os_sqlite os) s in (e = None, s))"

text \<open>\<open>n\<close> such calls in a row, each leaving by \<open>err_cleanup\<close> when it fails.\<close>

fun sqlite_tries :: "'w os \<Rightarrow> nat \<Rightarrow> 'w sys \<Rightarrow> bool \<times> 'w sys" where
  "sqlite_tries os 0 s = (True, s)"
| "sqlite_tries os (Suc n) s =
     (let (ok, s) = sqlite_ok os s in if ok then sqlite_tries os n s else (False, s))"

text \<open>
  Prepare, bind each parameter, step until \<open>SQLITE_DONE\<close>: the number of changed rows, or
  \<^const>\<open>None\<close> where \<open>SQLITE_TRY\<close> or \<open>SQLITE_TRY_STEP_DONE\<close> leaves.
\<close>

definition run_statement ::
  "'w os \<Rightarrow> statement \<Rightarrow> sqlval list \<Rightarrow> 'w sys \<Rightarrow> nat option \<times> 'w sys" where
  "run_statement os stmt ps s =
     (let (ok, s) = sqlite_tries os (Suc (length ps)) s
      in if \<not> ok then (None, s)
         else
           let (ok, s) = sqlite_ok os s
           in if \<not> ok then (None, s)
              else case stmt ps (tbl (db s)) of
                     None \<Rightarrow> (None, s)
                   | Some (t, n) \<Rightarrow> (Some n, s\<lparr>db := (db s)\<lparr>tbl := t\<rparr>\<rparr>))"

section \<open>Operations\<close>

definition tumgrd_db_upsert_node ::
  "'w os \<Rightarrow> tumgrd_node \<Rightarrow> bool \<Rightarrow> 'w sys \<Rightarrow> int \<times> 'w sys" where
  "tumgrd_db_upsert_node os node set_lifetime s =
     (if \<not> db_conn (db s) then (- 1, s)
      else
        let (created_at, s) = (if n_created_at node = 0 then now_unix os s else (n_created_at node, s));
            (last_updated, s) =
              (if n_last_updated node = 0 then now_unix os s else (n_last_updated node, s));
            n = node\<lparr>n_created_at := created_at, n_last_updated := last_updated,
                     n_ip_check_url := (if n_ip_check_url node = []
                       then copy_string (n_ip_check_url node) 256 (Some TUMGRD_DEFAULT_IP_CHECK_URL)
                       else n_ip_check_url node),
                     n_status := (if n_status node = []
                       then copy_string (n_status node) 32 (Some TUMGRD_STATUS_ACTIVE)
                       else n_status node)\<rparr>;
            (r, s) = run_statement os sql_upsert
              [bind_required_text (Some (n_uid n)),
               bind_text_or_null (nonempty_or_null (Some (n_description n))),
               bind_text_or_null (nonempty_or_null (Some (n_client_comment n))),
               SqlInt (n_created_at n),
               bind_required_text (Some (n_server_host n)),
               SqlInt (n_server_port n),
               bind_required_text (Some (n_psk n)),
               SqlInt (n_client_port n),
               (if n_has_memlimit n then SqlInt (n_memlimit n) else SqlNull),
               bind_text_or_null (nonempty_or_null (Some (n_ip_check_url n))),
               bind_required_text (Some (n_ip_version n)),
               bind_text_or_null (nonempty_or_null (Some (n_current_ip n))),
               SqlInt (n_last_updated n),
               bind_text_or_null (nonempty_or_null (Some (n_status n))),
               bind_text_or_null (nonempty_or_null (Some (n_xor_key n))),
               (if set_lifetime then SqlInt (n_lifetime n) else SqlNull),
               SqlInt (n_last_applied_at n),
               SqlInt (n_rotation_state n),
               bind_text_or_null (nonempty_or_null (Some (n_xor_key_pending n)))] s
        in (if r = None then - 1 else 0, s))"

definition tumgrd_db_get_node ::
  "'w os \<Rightarrow> string \<Rightarrow> int \<Rightarrow> string \<Rightarrow> string \<Rightarrow> tumgrd_node \<Rightarrow> 'w sys
   \<Rightarrow> (int \<times> tumgrd_node) \<times> 'w sys" where
  "tumgrd_db_get_node os server_host server_port uid ip_version out s =
     (if \<not> db_conn (db s) then ((- 1, out), s)
      else
        let ps = [bind_required_text (Some server_host), SqlInt server_port,
                  bind_required_text (Some uid), bind_required_text (Some ip_version)];
            (ok, s) = sqlite_tries os (Suc (length ps)) s
        in if \<not> ok then ((- 1, out), s)
           else
             let (ok, s) = sqlite_ok os s
             in if \<not> ok then ((- 1, out), s)
                else case sql_select_one ps (tbl (db s)) of
                       None \<Rightarrow> ((1, out), s)
                     | Some r \<Rightarrow> let (n, s) = row_to_node os r s in ((0, n), s))"

definition tumgrd_db_delete_node ::
  "'w os \<Rightarrow> string \<Rightarrow> int \<Rightarrow> string \<Rightarrow> string \<Rightarrow> 'w sys \<Rightarrow> int \<times> 'w sys" where
  "tumgrd_db_delete_node os server_host server_port uid ip_version s =
     (if \<not> db_conn (db s) then (- 1, s)
      else
        let (r, s) = run_statement os sql_delete
              [bind_required_text (Some server_host), SqlInt server_port,
               bind_required_text (Some uid), bind_required_text (Some ip_version)] s
        in case r of None \<Rightarrow> (- 1, s) | Some changes \<Rightarrow> (if changes > 0 then 0 else 1, s))"

text \<open>\<open>ORDER BY server_host, server_port, uid\<close>: the order among equal keys is SQLite's.\<close>

definition order_rows :: "row list \<Rightarrow> row list" where
  "order_rows t = sort_key (\<lambda>r. (c_server_host r, c_server_port r, c_uid r)) t"

text \<open>The array doubles when it is full.\<close>

definition grow_array :: "'w os \<Rightarrow> nat \<Rightarrow> nat \<Rightarrow> 'w sys \<Rightarrow> (bool \<times> nat) \<times> 'w sys" where
  "grow_array os n cap s =
     (if n = cap
      then let new_cap = (if cap = 0 then 8 else cap * 2);
               (ok, s) = ext (os_alloc os) s
           in ((ok, if ok then new_cap else cap), s)
      else ((True, cap), s))"

fun list_rows ::
  "'w os \<Rightarrow> row list \<Rightarrow> nat \<Rightarrow> tumgrd_node list \<Rightarrow> 'w sys \<Rightarrow> tumgrd_node list option \<times> 'w sys" where
  "list_rows os [] cap arr s =
     (let (ok, s) = sqlite_ok os s in (if ok then Some arr else None, s))"
| "list_rows os (r # rs) cap arr s =
     (let (ok, s) = sqlite_ok os s
      in if \<not> ok then (None, s)
         else
           let ((grown, cap), s) = grow_array os (length arr) cap s
           in if \<not> grown then (None, s)
              else let (n, s) = row_to_node os r s in list_rows os rs cap (arr @ [n]) s)"

definition tumgrd_db_list_nodes ::
  "'w os \<Rightarrow> 'w sys \<Rightarrow> (int \<times> tumgrd_node list) \<times> 'w sys" where
  "tumgrd_db_list_nodes os s =
     (if \<not> db_conn (db s) then ((- 1, []), s)
      else
        let (ok, s) = sqlite_ok os s
        in if \<not> ok then ((- 1, []), s)
           else
             let (rows, s) = ext (os_scan os (tbl (db s))) s;
                 (r, s) = list_rows os (order_rows rows) 0 [] s
             in case r of None \<Rightarrow> ((- 1, []), s) | Some arr \<Rightarrow> ((0, arr), s))"

definition tumgrd_db_update_runtime ::
  "'w os \<Rightarrow> string \<Rightarrow> int \<Rightarrow> string \<Rightarrow> string \<Rightarrow> string nullable \<Rightarrow> string \<Rightarrow> int
   \<Rightarrow> 'w sys \<Rightarrow> int \<times> 'w sys" where
  "tumgrd_db_update_runtime os server_host server_port uid ip_version current_ip status last_updated s =
     (if \<not> db_conn (db s) then (- 1, s)
      else
        let (r, s) = run_statement os sql_update_runtime
              [bind_text_or_null (nonempty_or_null current_ip), bind_required_text (Some status),
               SqlInt last_updated, bind_required_text (Some server_host), SqlInt server_port,
               bind_required_text (Some uid), bind_required_text (Some ip_version)] s
        in (if r = None then - 1 else 0, s))"

definition tumgrd_db_update_applied ::
  "'w os \<Rightarrow> string \<Rightarrow> int \<Rightarrow> string \<Rightarrow> string \<Rightarrow> int \<Rightarrow> 'w sys \<Rightarrow> int \<times> 'w sys" where
  "tumgrd_db_update_applied os server_host server_port uid ip_version last_applied_at s =
     (if \<not> db_conn (db s) then (- 1, s)
      else
        let (r, s) = run_statement os sql_update_applied
              [SqlInt last_applied_at, bind_required_text (Some server_host), SqlInt server_port,
               bind_required_text (Some uid), bind_required_text (Some ip_version)] s
        in (if r = Some 1 then 0 else - 1, s))"

definition tumgrd_db_begin_rotation ::
  "'w os \<Rightarrow> string \<Rightarrow> int \<Rightarrow> string \<Rightarrow> string \<Rightarrow> string \<Rightarrow> int \<Rightarrow> int \<Rightarrow> 'w sys \<Rightarrow> int \<times> 'w sys" where
  "tumgrd_db_begin_rotation os server_host server_port uid ip_version new_xor_key rotation_state now s =
     (if \<not> db_conn (db s) then (- 1, s)
      else
        let (r, s) = run_statement os sql_begin_rotation
              [bind_required_text (Some new_xor_key), bind_required_text (Some new_xor_key),
               SqlInt rotation_state, SqlInt now, bind_required_text (Some server_host),
               SqlInt server_port, bind_required_text (Some uid),
               bind_required_text (Some ip_version)] s
        in (if r = Some 1 then 0 else - 1, s))"

definition tumgrd_db_complete_rotation ::
  "'w os \<Rightarrow> string \<Rightarrow> int \<Rightarrow> string \<Rightarrow> string \<Rightarrow> int \<Rightarrow> 'w sys \<Rightarrow> int \<times> 'w sys" where
  "tumgrd_db_complete_rotation os server_host server_port uid ip_version last_applied_at s =
     (if \<not> db_conn (db s) then (- 1, s)
      else
        let (r, s) = run_statement os sql_complete_rotation
              [SqlInt last_applied_at, bind_required_text (Some server_host), SqlInt server_port,
               bind_required_text (Some uid), bind_required_text (Some ip_version)] s
        in (if r = Some 1 then 0 else - 1, s))"

definition tumgrd_db_update_rotation_state ::
  "'w os \<Rightarrow> string \<Rightarrow> int \<Rightarrow> string \<Rightarrow> string \<Rightarrow> int \<Rightarrow> 'w sys \<Rightarrow> int \<times> 'w sys" where
  "tumgrd_db_update_rotation_state os server_host server_port uid ip_version rotation_state s =
     (if \<not> db_conn (db s) then (- 1, s)
      else if rotation_state \<noteq> TUMGRD_ROTATION_PENDING_REMOTE \<and>
              rotation_state \<noteq> TUMGRD_ROTATION_PENDING_LOCAL_RECOVERY then (- 1, s)
      else
        let (r, s) = run_statement os sql_update_rotation_state
              [SqlInt rotation_state, bind_required_text (Some server_host), SqlInt server_port,
               bind_required_text (Some uid), bind_required_text (Some ip_version),
               SqlInt TUMGRD_ROTATION_PENDING_REMOTE,
               SqlInt TUMGRD_ROTATION_PENDING_LOCAL_RECOVERY] s
        in (if r = Some 1 then 0 else - 1, s))"

definition tumgrd_db_replace_rotation ::
  "'w os \<Rightarrow> string \<Rightarrow> int \<Rightarrow> string \<Rightarrow> string \<Rightarrow> string \<Rightarrow> int \<Rightarrow> 'w sys \<Rightarrow> int \<times> 'w sys" where
  "tumgrd_db_replace_rotation os server_host server_port uid ip_version new_xor_key now s =
     (if \<not> db_conn (db s) then (- 1, s)
      else
        let (r, s) = run_statement os sql_replace_rotation
              [bind_required_text (Some new_xor_key), bind_required_text (Some new_xor_key),
               SqlInt TUMGRD_ROTATION_PENDING_REMOTE, SqlInt now,
               bind_required_text (Some server_host), SqlInt server_port,
               bind_required_text (Some uid), bind_required_text (Some ip_version)] s
        in (if r = Some 1 then 0 else - 1, s))"

definition tumgrd_db_clear_rotation ::
  "'w os \<Rightarrow> string \<Rightarrow> int \<Rightarrow> string \<Rightarrow> string \<Rightarrow> 'w sys \<Rightarrow> int \<times> 'w sys" where
  "tumgrd_db_clear_rotation os server_host server_port uid ip_version s =
     (if \<not> db_conn (db s) then (- 1, s)
      else
        let (r, s) = run_statement os sql_clear_rotation
              [bind_required_text (Some server_host), SqlInt server_port,
               bind_required_text (Some uid), bind_required_text (Some ip_version)] s
        in (if r = Some 1 then 0 else - 1, s))"

section \<open>Opening, schema and closing\<close>

definition JOURNAL_MODE_LEN :: nat where "JOURNAL_MODE_LEN = 16"

text \<open>The buffer that \<open>wal_mode_cb\<close> fills, if SQLite calls it with a value.\<close>

definition wal_mode_cb :: "string \<Rightarrow> string nullable \<Rightarrow> string" where
  "wal_mode_cb data val =
     (case val of None \<Rightarrow> data | Some v \<Rightarrow> copy_string data JOURNAL_MODE_LEN (Some v))"

definition tumgrd_db_open :: "'w os \<Rightarrow> string nullable \<Rightarrow> 'w sys \<Rightarrow> int \<times> 'w sys" where
  "tumgrd_db_open os path s =
     (let s = s\<lparr>db := (db s)\<lparr>db_conn := False, db_path := []\<rparr>\<rparr>;
          file = (case path of Some p \<Rightarrow> if p \<noteq> [] then p else TUMGRD_DB_PATH
                  | None \<Rightarrow> TUMGRD_DB_PATH);
          s = s\<lparr>db := (db s)\<lparr>db_path := copy_string [] 256 (Some file)\<rparr>\<rparr>;
          (err, s) = ensure_parent_dir os (Some (db_path (db s))) s
      in if err < 0 then (err, s)
         else
           let (ok, s) = sqlite_ok os s
           in if \<not> ok then (- 1, s)
              else
                let s = s\<lparr>db := (db s)\<lparr>db_conn := True, db_sync_full := True\<rparr>\<rparr>;
                    (mode, s) = ext (os_journal_mode os) s;
                    journal_mode = wal_mode_cb [] mode;
                    (ok, s) = sqlite_ok os s;
                    s = (if ok then s\<lparr>db := (db s)\<lparr>db_sync_full := (journal_mode \<noteq> ''wal'')\<rparr>\<rparr> else s);
                    (ok, s) = sqlite_ok os s
                in (0, s))"

definition schema_columns :: "string list" where
  "schema_columns = [''uid'', ''description'', ''client_comment'', ''created_at'',
     ''server_host'', ''server_port'', ''psk'', ''client_port'', ''memlimit'', ''ip_check_url'',
     ''ip_version'', ''current_ip'', ''last_updated'', ''status'', ''xor_key'', ''lifetime'',
     ''last_applied_at'', ''rotation_state'', ''xor_key_pending'']"

text \<open>
  \<open>ALTER TABLE nodes ADD COLUMN\<close>: every row gets the column's default. SQLite refuses a
  column that exists with the message \<open>duplicate column name\<close>, which is not an error here.
\<close>

definition migrate_add_column ::
  "'w os \<Rightarrow> string \<Rightarrow> (row \<Rightarrow> row) \<Rightarrow> 'w sys \<Rightarrow> bool \<times> 'w sys" where
  "migrate_add_column os col fill s =
     (let (ok, s) = sqlite_ok os s
      in if \<not> ok then (False, s)
         else if List.member (db_columns (db s)) col then (True, s)
         else (True, s\<lparr>db := (db s)\<lparr>db_columns := db_columns (db s) @ [col],
                                    tbl := map fill (tbl (db s))\<rparr>\<rparr>))"

definition migrate_if ::
  "bool \<Rightarrow> 'w os \<Rightarrow> string \<Rightarrow> (row \<Rightarrow> row) \<Rightarrow> 'w sys \<Rightarrow> bool \<times> 'w sys" where
  "migrate_if absent os col fill s =
     (if absent then migrate_add_column os col fill s else (True, s))"

text \<open>
  \<open>UPDATE nodes SET last_applied_at = last_updated WHERE last_applied_at = 0 AND
  last_updated > 0\<close>
\<close>

definition sql_backfill :: "row \<Rightarrow> row" where
  "sql_backfill r =
     (if c_last_applied_at r = Some 0 \<and> c_last_updated r \<noteq> None \<and> the (c_last_updated r) > 0
      then r\<lparr>c_last_applied_at := c_last_updated r\<rparr> else r)"

definition tumgrd_db_init_schema :: "'w os \<Rightarrow> 'w sys \<Rightarrow> int \<times> 'w sys" where
  "tumgrd_db_init_schema os s =
     (if \<not> db_conn (db s) then (- 1, s)
      else
        let (ok, s) = sqlite_ok os s
        in if \<not> ok then (- 1, s)
           else
             let s = (if db_columns (db s) = []
                      then s\<lparr>db := (db s)\<lparr>db_columns := schema_columns, tbl := []\<rparr>\<rparr> else s);
                 names = db_columns (db s);
                 (ok, s) = sqlite_tries os (Suc (Suc (length names))) s
             in if \<not> ok then (- 1, s)
                else
                  let has_lifetime = List.member names ''lifetime'';
                      has_last_applied = List.member names ''last_applied_at'';
                      has_rotation_state = List.member names ''rotation_state'';
                      has_xor_key_pending = List.member names ''xor_key_pending'';
                      (ok, s) = migrate_if (\<not> has_lifetime) os ''lifetime''
                                  (\<lambda>r. r\<lparr>c_lifetime := Some 0\<rparr>) s
                  in if \<not> ok then (- 1, s)
                     else
                       let (ok, s) = migrate_if (\<not> has_last_applied) os ''last_applied_at''
                                       (\<lambda>r. r\<lparr>c_last_applied_at := Some 0\<rparr>) s
                       in if \<not> ok then (- 1, s)
                          else
                            let (ok, s) = (if has_last_applied then (True, s) else sqlite_ok os s);
                                s = (if ok \<and> \<not> has_last_applied
                                     then s\<lparr>db := (db s)\<lparr>tbl := map sql_backfill (tbl (db s))\<rparr>\<rparr> else s)
                            in if \<not> ok then (- 1, s)
                               else
                                 let (ok, s) = migrate_if (\<not> has_rotation_state) os ''rotation_state''
                                                 (\<lambda>r. r\<lparr>c_rotation_state := Some 0\<rparr>) s
                                 in if \<not> ok then (- 1, s)
                                    else
                                      let (ok, s) = migrate_if (\<not> has_xor_key_pending) os
                                            ''xor_key_pending'' (\<lambda>r. r\<lparr>c_xor_key_pending := Some []\<rparr>) s
                                      in (if ok then 0 else - 1, s))"

definition tumgrd_db_close :: "'w sys \<Rightarrow> 'w sys" where
  "tumgrd_db_close s = s\<lparr>db := (db s)\<lparr>db_conn := False, db_path := []\<rparr>\<rparr>"

section \<open>The table as a finite map\<close>

text \<open>
  The abstract store: at most one row per primary key, and no two rows that share server,
  IP family and client port.
\<close>

definition table_inv :: "row list \<Rightarrow> bool" where
  "table_inv t \<longleftrightarrow> distinct (map pk t) \<and> distinct (map uk t)"

definition lookup :: "row list \<Rightarrow> node_key \<Rightarrow> row option" where
  "lookup t k = find (\<lambda>r. pk r = k) t"

text \<open>An UPDATE of the row with key \<open>k\<close>, where it satisfies \<open>g\<close>.\<close>

definition upd_rows :: "node_key \<Rightarrow> (row \<Rightarrow> bool) \<Rightarrow> (row \<Rightarrow> row) \<Rightarrow> row list \<Rightarrow> row list" where
  "upd_rows k g f t = map (\<lambda>r. if pk r = k \<and> g r then f r else r) t"

lemma lookup_Nil [simp]: "lookup [] k = None"
  by (simp add: lookup_def)

lemma lookup_Cons [simp]: "lookup (r # t) k = (if pk r = k then Some r else lookup t k)"
  by (simp add: lookup_def)

lemma lookup_append: "lookup (t @ u) k = (case lookup t k of None \<Rightarrow> lookup u k | Some r \<Rightarrow> Some r)"
  by (induction t) auto

lemma lookup_SomeD: "lookup t k = Some r \<Longrightarrow> r \<in> set t \<and> pk r = k"
  by (induction t) (auto split: if_splits)

lemma lookup_None_iff: "lookup t k = None \<longleftrightarrow> k \<notin> pk ` set t"
  by (induction t) auto

lemma lookup_mem: "distinct (map pk t) \<Longrightarrow> r \<in> set t \<Longrightarrow> lookup t (pk r) = Some r"
  by (induction t) (auto simp: image_iff)

lemma lookup_map_other:
  "(\<And>r. pk (h r) = pk r) \<Longrightarrow> lookup (map h t) k = map_option h (lookup t k)"
  by (induction t) auto

lemma lookup_upd_rows:
  assumes "\<And>r. pk (f r) = pk r"
  shows "lookup (upd_rows k g f t) k' =
    (if k' = k then map_option (\<lambda>r. if g r then f r else r) (lookup t k) else lookup t k')"
  using assms by (induction t) (auto simp: upd_rows_def)

lemma upd_rows_inv:
  assumes "\<And>r. pk (f r) = pk r" "\<And>r. uk (f r) = uk r"
  shows "table_inv (upd_rows k g f t) = table_inv t"
proof -
  have "map pk (upd_rows k g f t) = map pk t" "map uk (upd_rows k g f t) = map uk t"
    using assms by (auto simp: upd_rows_def)
  then show ?thesis by (simp add: table_inv_def)
qed

lemma upd_rows_id: "(\<And>r. r \<in> set t \<Longrightarrow> \<not> (pk r = k \<and> g r)) \<Longrightarrow> upd_rows k g f t = t"
  by (induction t) (auto simp: upd_rows_def)

lemma distinct_key_count:
  "distinct (map pk t) \<Longrightarrow> length (filter (\<lambda>r. pk r = k \<and> g r) t) \<le> 1"
proof (induction t)
  case (Cons r t)
  have "filter (\<lambda>x. pk x = k \<and> g x) t = []" if "pk r = k"
    using Cons.prems that by (simp add: filter_empty_conv) (metis image_eqI)
  with Cons show ?case by simp
qed simp

section \<open>Running statements\<close>

lemma where_pk_iff [simp]:
  "where_pk (SqlText h) (SqlInt p) (SqlText u) (SqlText v) r \<longleftrightarrow> pk r = (h, p, u, v)"
  by (auto simp: where_pk_def pk_def)

lemma where_pk_key [simp]:
  "where_pk (SqlText h) (SqlInt p) (SqlText u) (SqlText v) = (\<lambda>r. pk r = (h, p, u, v))"
  by (rule ext) simp

lemma bind_required_Some [simp]: "bind_required_text (Some v) = SqlText v"
  by (simp add: bind_required_text_def)

lemma sql_text_bind:
  "sql_text (bind_text_or_null (nonempty_or_null (Some v))) = nonempty_or_null (Some v)"
  by (simp add: nonempty_or_null_Some bind_text_or_null_def)

lemma now_unix_frame [frame]: "now_unix os s = (t, s') \<Longrightarrow> db s' = db s \<and> rt s' = rt s"
  unfolding now_unix_def by (rule ext_frame)

lemma sqlite_ok_frame [frame]: "sqlite_ok os s = (ok, s') \<Longrightarrow> db s' = db s \<and> rt s' = rt s"
  by (auto simp: sqlite_ok_def split: prod.splits dest!: ext_frame)

lemma sqlite_tries_frame [frame]:
  "sqlite_tries os n s = (ok, s') \<Longrightarrow> db s' = db s \<and> rt s' = rt s"
  by (induction n arbitrary: s) (auto split: prod.splits if_splits dest!: sqlite_ok_frame)

lemma run_statement_outcome:
  assumes "run_statement os stmt ps s = (r, s')"
  shows "rt s' = rt s \<and>
    (r = None \<and> db s' = db s \<or>
     (\<exists>t n. r = Some n \<and> stmt ps (tbl (db s)) = Some (t, n) \<and> db s' = (db s)\<lparr>tbl := t\<rparr>))"
  using assms
  by (auto simp: run_statement_def Let_def split: prod.splits if_splits option.splits
      dest!: sqlite_tries_frame sqlite_ok_frame)

lemma clamp_applied_frame [frame]:
  "clamp_applied os a s = (a', s') \<Longrightarrow> db s' = db s \<and> rt s' = rt s"
  by (auto simp: clamp_applied_def split: prod.splits if_splits dest!: now_unix_frame)

lemma row_to_node_frame [frame]:
  "row_to_node os r s = (n, s') \<Longrightarrow> db s' = db s \<and> rt s' = rt s"
  by (auto simp: row_to_node_def split: prod.splits dest!: clamp_applied_frame)

section \<open>The contract of the UPDATE operations\<close>

text \<open>
  What the callers of \<open>db.c\<close> rely on of an operation \<open>upd\<close> that changes the row with key
  \<open>k\<close> by \<open>f\<close> where it satisfies \<open>g\<close>.
\<close>

locale keyed_update =
  fixes upd :: "'w os \<Rightarrow> 'w sys \<Rightarrow> int \<times> 'w sys"
    and k :: node_key and g :: "row \<Rightarrow> bool" and f :: "row \<Rightarrow> row"
  assumes keeps_pk: "pk (f r) = pk r"
    and keeps_uk: "uk (f r) = uk r"
    and runner_untouched: "upd os s = (rc, s') \<Longrightarrow> rt s' = rt s"
    and result_code: "upd os s = (rc, s') \<Longrightarrow> rc = 0 \<or> rc = - 1"
    and effect: "upd os s = (rc, s') \<Longrightarrow>
      db s' = db s \<or> db s' = (db s)\<lparr>tbl := upd_rows k g f (tbl (db s))\<rparr>"
    and success: "upd os s = (0, s') \<Longrightarrow> db s' = (db s)\<lparr>tbl := upd_rows k g f (tbl (db s))\<rparr>"
    and failure: "upd os s = (rc, s') \<Longrightarrow> rc \<noteq> 0 \<Longrightarrow> distinct (map pk (tbl (db s))) \<Longrightarrow> db s' = db s"
begin

lemma keeps_table_inv:
  assumes "upd os s = (rc, s')" "table_inv (tbl (db s))"
  shows "table_inv (tbl (db s'))"
  using effect [OF assms(1)] assms(2) by (auto simp: upd_rows_inv keeps_pk keeps_uk)

lemma other_rows_unchanged:
  assumes "upd os s = (rc, s')" "k' \<noteq> k"
  shows "lookup (tbl (db s')) k' = lookup (tbl (db s)) k'"
  using effect [OF assms(1)] assms(2) by (auto simp: lookup_upd_rows keeps_pk)

lemma row_after_success:
  assumes "upd os s = (0, s')" "lookup (tbl (db s)) k = Some r"
  shows "lookup (tbl (db s')) k = Some (if g r then f r else r)"
  using success [OF assms(1)] assms(2) by (simp add: lookup_upd_rows keeps_pk)

lemma row_after:
  assumes "upd os s = (rc, s')"
  shows "lookup (tbl (db s')) k = lookup (tbl (db s)) k \<or>
    (\<exists>r. lookup (tbl (db s)) k = Some r \<and> g r \<and> lookup (tbl (db s')) k = Some (f r))"
  using effect [OF assms] by (cases "lookup (tbl (db s)) k") (auto simp: lookup_upd_rows keeps_pk split: if_splits)

lemma same_keys:
  assumes "upd os s = (rc, s')"
  shows "map pk (tbl (db s')) = map pk (tbl (db s))"
  using effect [OF assms] keeps_pk by (auto simp: upd_rows_def)

lemma connection_kept:
  assumes "upd os s = (rc, s')"
  shows "db_conn (db s') = db_conn (db s)"
  using effect [OF assms] by auto

end

text \<open>The operations that also insist on having changed exactly one row.\<close>

locale strict_update = keyed_update +
  assumes hit: "upd os s = (0, s') \<Longrightarrow> \<exists>r \<in> set (tbl (db s)). pk r = k \<and> g r"
begin

lemma success_hits_row:
  assumes "upd os s = (0, s')" "table_inv (tbl (db s))"
  shows "\<exists>r. lookup (tbl (db s)) k = Some r \<and> g r \<and> lookup (tbl (db s')) k = Some (f r)"
proof -
  obtain r where r: "r \<in> set (tbl (db s))" "pk r = k" "g r" using hit [OF assms(1)] by blast
  then have "lookup (tbl (db s)) k = Some r"
    using assms(2) lookup_mem by (fastforce simp: table_inv_def)
  with r(3) row_after_success [OF assms(1)] show ?thesis by simp
qed

end

text \<open>
  All UPDATE statements have one shape: the parameters pick key, guard and change.
\<close>

lemma run_update_outcome:
  assumes "run_statement os stmt ps s = (r, s')"
    and "\<And>t. stmt ps t = sql_update (\<lambda>r. pk r = k \<and> g r) f t"
  shows "rt s' = rt s \<and>
    (r = None \<and> db s' = db s \<or>
     r = Some (length (filter (\<lambda>r. pk r = k \<and> g r) (tbl (db s)))) \<and>
     db s' = (db s)\<lparr>tbl := upd_rows k g f (tbl (db s))\<rparr>)"
  using run_statement_outcome [OF assms(1)] assms(2) by (auto simp: sql_update_def upd_rows_def)

lemma run_update_strict:
  assumes "run_statement os stmt ps s = (r, s')" "r \<noteq> Some 1" "distinct (map pk (tbl (db s)))"
    and "\<And>t. stmt ps t = sql_update (\<lambda>r. pk r = k \<and> g r) f t"
  shows "db s' = db s"
proof -
  let ?n = "length (filter (\<lambda>r. pk r = k \<and> g r) (tbl (db s)))"
  have "upd_rows k g f (tbl (db s)) = tbl (db s)" if "?n \<noteq> 1"
    using that distinct_key_count [OF assms(3), of k g]
    by (intro upd_rows_id) (auto simp: filter_empty_conv le_Suc_eq)
  moreover have "db s' = db s \<or> ?n \<noteq> 1 \<and> db s' = (db s)\<lparr>tbl := upd_rows k g f (tbl (db s))\<rparr>"
    using run_update_outcome [OF assms(1,4)] assms(2) by blast
  ultimately show ?thesis by auto
qed

lemma run_update_hit:
  assumes "run_statement os stmt ps s = (Some 1, s')"
    and "\<And>t. stmt ps t = sql_update (\<lambda>r. pk r = k \<and> g r) f t"
  shows "\<exists>r \<in> set (tbl (db s)). pk r = k \<and> g r"
proof -
  have "filter (\<lambda>r. pk r = k \<and> g r) (tbl (db s)) \<noteq> []"
    using run_update_outcome [OF assms] by auto
  then show ?thesis by (auto simp: filter_empty_conv)
qed

text \<open>The two ways in which \<open>db.c\<close> turns the outcome of an UPDATE into a return code.\<close>

lemma keyed_updateI:
  assumes "\<And>r. pk (f r) = pk r" "\<And>r. uk (f r) = uk r"
    and op: "\<And>os s. upd os s = (if \<not> db_conn (db s) then (- 1, s)
           else let (r, s) = run_statement os stmt ps s in (if r = None then - 1 else 0, s))"
    and stmt: "\<And>t. stmt ps t = sql_update (\<lambda>r. pk r = k \<and> g r) f t"
  shows "keyed_update upd k g f"
proof -
  note out = run_update_outcome [where stmt = stmt and ps = ps and k = k and g = g and f = f, OF _ stmt]
  show ?thesis
    using assms(1,2) by unfold_locales (auto simp: op split: if_splits prod.splits dest!: out)
qed

lemma strict_updateI:
  assumes "\<And>r. pk (f r) = pk r" "\<And>r. uk (f r) = uk r"
    and op: "\<And>os s. upd os s = (if \<not> db_conn (db s) then (- 1, s) else if bad then (- 1, s)
           else let (r, s) = run_statement os stmt ps s in (if r = Some 1 then 0 else - 1, s))"
    and stmt: "\<And>t. stmt ps t = sql_update (\<lambda>r. pk r = k \<and> g r) f t"
  shows "strict_update upd k g f"
proof -
  note out = run_update_outcome [where stmt = stmt and ps = ps and k = k and g = g and f = f, OF _ stmt]
  note strict = run_update_strict [where stmt = stmt and ps = ps and k = k and g = g and f = f,
      OF _ _ _ stmt]
  note hit = run_update_hit [where stmt = stmt and ps = ps and k = k and g = g and f = f, OF _ stmt]
  show ?thesis
  proof unfold_locales
    fix os s rc s'
    show "upd os s = (rc, s') \<Longrightarrow> rc \<noteq> 0 \<Longrightarrow> distinct (map pk (tbl (db s))) \<Longrightarrow> db s' = db s"
      by (auto simp: op split: if_splits prod.splits dest: strict)
    show "upd os s = (0, s') \<Longrightarrow> \<exists>r\<in>set (tbl (db s)). pk r = k \<and> g r"
      by (auto simp: op simp del: One_nat_def split: if_splits prod.splits dest: hit)
  qed (use assms(1,2) in \<open>auto simp: op split: if_splits prod.splits dest!: out\<close>)
qed

section \<open>The UPDATE operations satisfy the contract\<close>

text \<open>What each statement does to the row it hits.\<close>

definition set_runtime :: "string nullable \<Rightarrow> string \<Rightarrow> int \<Rightarrow> row \<Rightarrow> row" where
  "set_runtime ip st ts r = r\<lparr>c_current_ip := sql_text (bind_text_or_null (nonempty_or_null ip)),
     c_status := Some st, c_last_updated := Some ts\<rparr>"

definition set_applied :: "int \<Rightarrow> row \<Rightarrow> row" where
  "set_applied ts r = r\<lparr>c_last_applied_at := Some ts\<rparr>"

definition start_rotation :: "string \<Rightarrow> int \<Rightarrow> int \<Rightarrow> row \<Rightarrow> row" where
  "start_rotation key st now r = r\<lparr>c_xor_key := Some key, c_xor_key_pending := Some key,
     c_rotation_state := Some st, c_last_updated := Some now\<rparr>"

definition finish_rotation :: "int \<Rightarrow> row \<Rightarrow> row" where
  "finish_rotation ts r = r\<lparr>c_rotation_state := Some 0, c_xor_key_pending := Some [],
     c_last_applied_at := Some ts\<rparr>"

definition move_rotation :: "int \<Rightarrow> row \<Rightarrow> row" where
  "move_rotation st r = r\<lparr>c_rotation_state := Some st\<rparr>"

definition reset_rotation :: "row \<Rightarrow> row" where
  "reset_rotation r = r\<lparr>c_rotation_state := Some 0, c_xor_key_pending := Some []\<rparr>"

definition rotating :: "row \<Rightarrow> bool" where
  "rotating r \<longleftrightarrow> c_rotation_state r \<noteq> None \<and> c_rotation_state r \<noteq> Some 0"

lemmas row_changes = set_runtime_def set_applied_def start_rotation_def finish_rotation_def
  move_rotation_def reset_rotation_def

text \<open>
  The columns that only a registration writes: those of the key, and what it asks for. The
  columns of the runtime state, of the XOR key and of a rotation are blanked.
\<close>

definition config_of :: "row \<Rightarrow> row" where
  "config_of r = r\<lparr>c_current_ip := None, c_last_updated := None, c_status := None, c_xor_key := None,
     c_last_applied_at := None, c_rotation_state := None, c_xor_key_pending := None\<rparr>"

lemma row_changes_config [simp]:
  "config_of (set_runtime ip st ts r) = config_of r" "config_of (set_applied ts r) = config_of r"
  "config_of (start_rotation key rs ts r) = config_of r" "config_of (finish_rotation ts r) = config_of r"
  "config_of (move_rotation rs r) = config_of r" "config_of (reset_rotation r) = config_of r"
  by (simp_all add: row_changes config_of_def)

lemma config_of_fields [simp]:
  "c_uid (config_of r) = c_uid r" "c_description (config_of r) = c_description r"
  "c_client_comment (config_of r) = c_client_comment r" "c_created_at (config_of r) = c_created_at r"
  "c_server_host (config_of r) = c_server_host r" "c_server_port (config_of r) = c_server_port r"
  "c_psk (config_of r) = c_psk r" "c_client_port (config_of r) = c_client_port r"
  "c_memlimit (config_of r) = c_memlimit r" "c_ip_check_url (config_of r) = c_ip_check_url r"
  "c_ip_version (config_of r) = c_ip_version r" "c_lifetime (config_of r) = c_lifetime r"
  "pk (config_of r) = pk r"
  by (simp_all add: config_of_def pk_def)

lemma lookup_config:
  assumes "map config_of t = map config_of u"
  shows "map_option config_of (lookup t k) = map_option config_of (lookup u k)"
  using assms lookup_map_other [of config_of t k] lookup_map_other [of config_of u k] by simp

lemma upd_rows_config: "(\<And>r. config_of (f r) = config_of r) \<Longrightarrow> map config_of (upd_rows k g f t) = map config_of t"
  by (simp add: upd_rows_def)

interpretation update_runtime: keyed_update
  "\<lambda>os. tumgrd_db_update_runtime os h p u v ip st ts" "(h, p, u, v)" "\<lambda>_. True"
  "set_runtime ip st ts" for h p u v ip st ts
  by (rule keyed_updateI [where stmt = sql_update_runtime and
        ps = "[bind_text_or_null (nonempty_or_null ip), SqlText st, SqlInt ts, SqlText h, SqlInt p,
               SqlText u, SqlText v]"])
     (simp_all add: sql_update_def set_runtime_def pk_def uk_def tumgrd_db_update_runtime_def sql_update_runtime_def
        Let_def split: prod.splits)

interpretation update_applied: strict_update
  "\<lambda>os. tumgrd_db_update_applied os h p u v ts" "(h, p, u, v)" "\<lambda>_. True"
  "set_applied ts" for h p u v ts
  by (rule strict_updateI [where bad = False and stmt = sql_update_applied and
        ps = "[SqlInt ts, SqlText h, SqlInt p, SqlText u, SqlText v]"])
     (simp_all add: sql_update_def set_applied_def pk_def uk_def tumgrd_db_update_applied_def sql_update_applied_def
        Let_def split: prod.splits)

interpretation begin_rotation: strict_update
  "\<lambda>os. tumgrd_db_begin_rotation os h p u v key st now" "(h, p, u, v)"
  "\<lambda>r. c_rotation_state r = Some 0" "start_rotation key st now" for h p u v key st now
  by (rule strict_updateI [where bad = False and stmt = sql_begin_rotation and
        ps = "[SqlText key, SqlText key, SqlInt st, SqlInt now, SqlText h, SqlInt p, SqlText u,
               SqlText v]"])
     (simp_all add: sql_update_def start_rotation_def pk_def uk_def tumgrd_db_begin_rotation_def
        sql_begin_rotation_def Let_def
        numeral_nat split: prod.splits)

interpretation complete_rotation: strict_update
  "\<lambda>os. tumgrd_db_complete_rotation os h p u v ts" "(h, p, u, v)" rotating
  "finish_rotation ts" for h p u v ts
  by (rule strict_updateI [where bad = False and stmt = sql_complete_rotation and
        ps = "[SqlInt ts, SqlText h, SqlInt p, SqlText u, SqlText v]"])
     (auto simp: sql_update_def finish_rotation_def pk_def uk_def tumgrd_db_complete_rotation_def
        sql_complete_rotation_def rotating_def Let_def
        split: prod.splits)

interpretation replace_rotation: strict_update
  "\<lambda>os. tumgrd_db_replace_rotation os h p u v key now" "(h, p, u, v)" "\<lambda>_. True"
  "start_rotation key TUMGRD_ROTATION_PENDING_REMOTE now" for h p u v key now
  by (rule strict_updateI [where bad = False and stmt = sql_replace_rotation and
        ps = "[SqlText key, SqlText key, SqlInt TUMGRD_ROTATION_PENDING_REMOTE, SqlInt now, SqlText h,
               SqlInt p, SqlText u, SqlText v]"])
     (simp_all add: sql_update_def start_rotation_def pk_def uk_def tumgrd_db_replace_rotation_def
        sql_replace_rotation_def Let_def
        numeral_nat split: prod.splits)

interpretation clear_rotation: strict_update
  "\<lambda>os. tumgrd_db_clear_rotation os h p u v" "(h, p, u, v)" "\<lambda>_. True" reset_rotation for h p u v
  by (rule strict_updateI [where bad = False and stmt = sql_clear_rotation and
        ps = "[SqlText h, SqlInt p, SqlText u, SqlText v]"])
     (simp_all add: sql_update_def reset_rotation_def pk_def uk_def tumgrd_db_clear_rotation_def
        sql_clear_rotation_def Let_def split: prod.splits)

interpretation update_rotation_state: strict_update
  "\<lambda>os. tumgrd_db_update_rotation_state os h p u v st" "(h, p, u, v)"
  "\<lambda>r. c_rotation_state r = Some 1 \<or> c_rotation_state r = Some 2" "move_rotation st" for h p u v st
  by (rule strict_updateI [where bad = "st \<noteq> 1 \<and> st \<noteq> 2" and stmt = sql_update_rotation_state and
        ps = "[SqlInt st, SqlText h, SqlInt p, SqlText u, SqlText v, SqlInt 1, SqlInt 2]"])
     (auto simp: sql_update_def move_rotation_def pk_def uk_def tumgrd_db_update_rotation_state_def rotation_states
        sql_update_rotation_state_def Let_def numeral_nat intro!: arg_cong [of _ _ length] filter_cong)

section \<open>Well-formed rows\<close>

text \<open>
  The rows this program writes: every text fits the char array it is read into, every C
  \<open>int\<close> fits 32 bits, and the rotation columns agree. A rotation in progress carries the
  new key both as the current and as the pending key.
\<close>

definition row_wf :: "row \<Rightarrow> bool" where
  "row_wf r \<longleftrightarrow>
     length (c_uid r) < 128 \<and> length (c_server_host r) < 256 \<and> length (c_psk r) < 256 \<and>
     length (c_ip_version r) < 16 \<and> length (the_default [] (c_status r)) < 32 \<and>
     length (the_default [] (c_xor_key r)) < 129 \<and>
     length (the_default [] (c_xor_key_pending r)) < 129 \<and>
     1 \<le> c_server_port r \<and> c_server_port r \<le> 65535 \<and>
     1 \<le> c_client_port r \<and> c_client_port r \<le> 65535"

definition rotation_ok :: "row \<Rightarrow> bool" where
  "rotation_ok r \<longleftrightarrow>
     (c_rotation_state r = Some 0 \<and> the_default [] (c_xor_key_pending r) = []) \<or>
     ((c_rotation_state r = Some 1 \<or> c_rotation_state r = Some 2) \<and>
      c_xor_key r \<noteq> None \<and> c_xor_key r \<noteq> Some [] \<and> c_xor_key_pending r = c_xor_key r)"

definition db_ok :: "row list \<Rightarrow> bool" where
  "db_ok t \<longleftrightarrow> table_inv t \<and> (\<forall>r \<in> set t. row_wf r \<and> rotation_ok r)"

definition node_key :: "tumgrd_node \<Rightarrow> node_key" where
  "node_key n = (n_server_host n, n_server_port n, n_uid n, n_ip_version n)"

lemma column_text_length [cstr]: "0 < n \<Longrightarrow> length (column_text c n) < n"
  by (auto simp: column_text_def cstr split: option.splits)

lemma column_text_id: "length (the_default [] c) < n \<Longrightarrow> column_text c n = the_default [] c"
  by (cases c) (auto simp: column_text_def the_default_def cstr)

lemma column_text_Some_id: "length t < n \<Longrightarrow> column_text (Some t) n = t"
  by (auto simp: column_text_def cstr)

lemma row_to_node_fields:
  assumes "row_to_node os r s = (n, s')"
  shows "n_uid n = column_text (Some (c_uid r)) 128"
    and "n_description n = column_text (c_description r) 256"
    and "n_client_comment n = column_text (c_client_comment r) 256"
    and "n_created_at n = column_int64 (c_created_at r)"
    and "n_server_host n = column_text (Some (c_server_host r)) 256"
    and "n_server_port n = column_int (Some (c_server_port r))"
    and "n_psk n = column_text (Some (c_psk r)) 256"
    and "n_client_port n = column_int (Some (c_client_port r))"
    and "n_has_memlimit n = (c_memlimit r \<noteq> None)"
    and "n_memlimit n = (if c_memlimit r \<noteq> None then column_int (c_memlimit r) else 0)"
    and "n_ip_check_url n = column_text (c_ip_check_url r) 256"
    and "n_ip_version n = column_text (Some (c_ip_version r)) 16"
    and "n_current_ip n = column_text (c_current_ip r) 64"
    and "n_last_updated n = column_int64 (c_last_updated r)"
    and "n_status n = column_text (c_status r) 32"
    and "n_xor_key n = column_text (c_xor_key r) 129"
    and "n_lifetime n = clamp_lifetime (column_int64 (c_lifetime r))"
    and "\<exists>s1. clamp_applied os (column_int64 (c_last_applied_at r)) s = (n_last_applied_at n, s1)"
    and "n_rotation_state n = column_int (c_rotation_state r)"
    and "n_xor_key_pending n = column_text (c_xor_key_pending r) 129"
  using assms by (auto simp: row_to_node_def split: prod.splits)

lemma row_to_node_wf: "row_to_node os r s = (n, s') \<Longrightarrow> node_wf n"
  by (auto simp: row_to_node_def node_wf_def Let_def cstr split: prod.splits)

lemma row_to_node_key: "row_to_node os r s = (n, s') \<Longrightarrow> row_wf r \<Longrightarrow> node_key n = pk r"
  by (auto simp: row_to_node_def node_key_def row_wf_def pk_def Let_def column_text_Some_id
      column_int_def column_int64_def to_int32_id split: prod.splits)

lemma row_to_node_rotation:
  assumes "row_to_node os r s = (n, s')" "row_wf r" "rotation_ok r"
  shows "Some (n_rotation_state n) = c_rotation_state r"
    and "n_xor_key n = the_default [] (c_xor_key r)"
    and "n_xor_key_pending n = the_default [] (c_xor_key_pending r)"
proof -
  note cols = row_to_node_fields [OF assms(1)]
  show "Some (n_rotation_state n) = c_rotation_state r"
    using assms(3) unfolding cols by (auto simp: rotation_ok_def column_int_def column_int64_def to_int32_id)
  show "n_xor_key n = the_default [] (c_xor_key r)"
    using assms(2) unfolding cols by (simp add: row_wf_def column_text_id)
  show "n_xor_key_pending n = the_default [] (c_xor_key_pending r)"
    using assms(2) unfolding cols by (simp add: row_wf_def column_text_id)
qed

lemma row_to_node_rotation_state:
  assumes "row_to_node os r s = (n, s')" "row_wf r" "rotation_ok r"
  shows "n_rotation_state n = 0 \<and> n_xor_key_pending n = [] \<or>
    (n_rotation_state n = 1 \<or> n_rotation_state n = 2) \<and> n_xor_key n \<noteq> [] \<and>
    n_xor_key_pending n = n_xor_key n"
  using row_to_node_rotation [OF assms] assms(3) unfolding rotation_ok_def
  by (cases "c_xor_key r") (auto simp: the_default_def)

text \<open>The lifetime and the last application time that a node carries are sane.\<close>

lemma clamp_lifetime_range: "clamp_lifetime l = 0 \<or> 60 \<le> clamp_lifetime l \<and> clamp_lifetime l \<le> INT32_MAX"
  by (auto simp: clamp_lifetime_def lifetime_bounds)

lemma clamp_applied_nonneg: "clamp_applied os a s = (a', s') \<Longrightarrow> 0 \<le> a'"
  by (auto simp: clamp_applied_def split: prod.splits if_splits)

lemma row_to_node_lifetime:
  assumes "row_to_node os r s = (n, s')"
  shows "(n_lifetime n = 0 \<or> 60 \<le> n_lifetime n \<and> n_lifetime n \<le> INT32_MAX) \<and> 0 \<le> n_last_applied_at n"
  using assms clamp_lifetime_range [of "column_int64 (c_lifetime r)"]
  by (auto simp: row_to_node_def split: prod.splits dest!: clamp_applied_nonneg)

section \<open>Inserting and updating a node\<close>

definition excluded_row :: "tumgrd_node \<Rightarrow> bool \<Rightarrow> int \<Rightarrow> int \<Rightarrow> row" where
  "excluded_row n set_lifetime created updated = \<lparr>
     c_uid = n_uid n, c_description = nonempty_or_null (Some (n_description n)),
     c_client_comment = nonempty_or_null (Some (n_client_comment n)), c_created_at = Some created,
     c_server_host = n_server_host n, c_server_port = n_server_port n, c_psk = n_psk n,
     c_client_port = n_client_port n,
     c_memlimit = (if n_has_memlimit n then Some (n_memlimit n) else None),
     c_ip_check_url = Some (if n_ip_check_url n = [] then TUMGRD_DEFAULT_IP_CHECK_URL
                            else n_ip_check_url n),
     c_ip_version = n_ip_version n, c_current_ip = nonempty_or_null (Some (n_current_ip n)),
     c_last_updated = Some updated,
     c_status = Some (if n_status n = [] then TUMGRD_STATUS_ACTIVE else n_status n),
     c_xor_key = nonempty_or_null (Some (n_xor_key n)),
     c_lifetime = (if set_lifetime then Some (n_lifetime n) else None),
     c_last_applied_at = Some (n_last_applied_at n),
     c_rotation_state = Some (n_rotation_state n),
     c_xor_key_pending = nonempty_or_null (Some (n_xor_key_pending n))\<rparr>"

definition merge_row :: "row \<Rightarrow> row list \<Rightarrow> row list" where
  "merge_row e t = (if pk e \<in> pk ` set t
     then map (\<lambda>r. if pk r = pk e then conflict_update e r else r) t else t @ [e])"

text \<open>Another node of the same server and IP family already uses the client port.\<close>

definition port_conflict :: "row \<Rightarrow> row list \<Rightarrow> bool" where
  "port_conflict e t \<longleftrightarrow> (\<exists>r \<in> set t. pk r \<noteq> pk e \<and> uk r = uk e)"

lemma excluded_row_pk: "pk (excluded_row n sl ca lu) = node_key n"
  by (simp add: pk_def node_key_def excluded_row_def)

lemma excluded_row_uk:
  "uk (excluded_row n sl ca lu) = (n_server_host n, n_server_port n, n_client_port n, n_ip_version n)"
  by (simp add: uk_def excluded_row_def)

lemma conflict_update_pk [simp]: "pk (conflict_update e r) = pk r"
  by (simp add: conflict_update_def pk_def)

lemma sql_upsert_merge:
  assumes "list_all (\<lambda>i. ps ! i \<noteq> SqlNull) [0, 4, 5, 6, 7, 10]"
  shows "sql_upsert ps t =
    (if port_conflict (insert_row ps) t then None else Some (merge_row (insert_row ps) t, 1))"
proof -
  let ?e = "insert_row ps"
  have same: "port_conflict ?e t \<longleftrightarrow> (\<exists>r \<in> set t. uk r = uk ?e)" if "pk ?e \<notin> pk ` set t"
    using that unfolding port_conflict_def by (metis image_eqI)
  have "list_ex (\<lambda>r. pk r = pk ?e) t \<longleftrightarrow> pk ?e \<in> pk ` set t"
    unfolding list_ex_iff by (metis (no_types, lifting) image_iff)
  with assms same show ?thesis
    by (auto simp: sql_upsert_def merge_row_def port_conflict_def list_ex_iff list_all_iff Let_def)
qed

text \<open>The statement that an upsert runs.\<close>

lemma upsert_run:
  assumes "db_conn (db s)"
  shows "\<exists>ps ca lu t. tumgrd_db_upsert_node os n sl s =
      (let (r, s) = run_statement os sql_upsert ps t in (if r = None then - 1 else 0, s)) \<and>
    list_all (\<lambda>i. ps ! i \<noteq> SqlNull) [0, 4, 5, 6, 7, 10] \<and> insert_row ps = excluded_row n sl ca lu \<and>
    (n_created_at n \<noteq> 0 \<longrightarrow> ca = n_created_at n) \<and> (n_last_updated n \<noteq> 0 \<longrightarrow> lu = n_last_updated n) \<and>
    db t = db s \<and> rt t = rt s"
proof -
  obtain ca s1 where ca: "(if n_created_at n = 0 then now_unix os s else (n_created_at n, s)) = (ca, s1)"
    by fastforce
  obtain lu s2 where lu: "(if n_last_updated n = 0 then now_unix os s1 else (n_last_updated n, s1)) = (lu, s2)"
    by fastforce
  define ps where "ps =
    [SqlText (n_uid n), bind_text_or_null (nonempty_or_null (Some (n_description n))),
     bind_text_or_null (nonempty_or_null (Some (n_client_comment n))), SqlInt ca,
     SqlText (n_server_host n), SqlInt (n_server_port n), SqlText (n_psk n), SqlInt (n_client_port n),
     (if n_has_memlimit n then SqlInt (n_memlimit n) else SqlNull),
     bind_text_or_null (nonempty_or_null (Some (if n_ip_check_url n = []
       then TUMGRD_DEFAULT_IP_CHECK_URL else n_ip_check_url n))),
     SqlText (n_ip_version n), bind_text_or_null (nonempty_or_null (Some (n_current_ip n))),
     SqlInt lu,
     bind_text_or_null (nonempty_or_null (Some (if n_status n = []
       then TUMGRD_STATUS_ACTIVE else n_status n))),
     bind_text_or_null (nonempty_or_null (Some (n_xor_key n))),
     (if sl then SqlInt (n_lifetime n) else SqlNull), SqlInt (n_last_applied_at n),
     SqlInt (n_rotation_state n), bind_text_or_null (nonempty_or_null (Some (n_xor_key_pending n)))]"
  have frame: "db s2 = db s" "rt s2 = rt s"
    using ca lu by (auto split: if_splits dest!: now_unix_frame)
  have run: "tumgrd_db_upsert_node os n sl s =
      (let (r, s) = run_statement os sql_upsert ps s2 in (if r = None then - 1 else 0, s))"
    using assms unfolding tumgrd_db_upsert_node_def ps_def Let_def ca lu prod.case
    by (simp add: snprintf_s_def TUMGRD_DEFAULT_IP_CHECK_URL_def TUMGRD_STATUS_ACTIVE_def ca lu
        cong: if_cong split del: if_split)
  have filled:
    "nonempty_or_null (Some (if n_ip_check_url n = [] then TUMGRD_DEFAULT_IP_CHECK_URL else n_ip_check_url n))
      = Some (if n_ip_check_url n = [] then TUMGRD_DEFAULT_IP_CHECK_URL else n_ip_check_url n)"
    "nonempty_or_null (Some (if n_status n = [] then TUMGRD_STATUS_ACTIVE else n_status n))
      = Some (if n_status n = [] then TUMGRD_STATUS_ACTIVE else n_status n)"
    "sql_int (if n_has_memlimit n then SqlInt (n_memlimit n) else SqlNull)
      = (if n_has_memlimit n then Some (n_memlimit n) else None)"
    "sql_int (if sl then SqlInt (n_lifetime n) else SqlNull) = (if sl then Some (n_lifetime n) else None)"
    by (simp_all add: nonempty_or_null_Some TUMGRD_DEFAULT_IP_CHECK_URL_def TUMGRD_STATUS_ACTIVE_def)
  have ins: "insert_row ps = excluded_row n sl ca lu"
    by (simp add: insert_row_def excluded_row_def ps_def the_default_def numeral_nat sql_text_bind
        filled(3,4) split del: if_split) (simp add: filled(1,2))
  have "list_all (\<lambda>i. ps ! i \<noteq> SqlNull) [0, 4, 5, 6, 7, 10]"
    by (simp add: ps_def numeral_nat)
  moreover have "n_created_at n \<noteq> 0 \<longrightarrow> ca = n_created_at n" "n_last_updated n \<noteq> 0 \<longrightarrow> lu = n_last_updated n"
    using ca lu by (auto split: if_splits)
  ultimately show ?thesis using run ins frame by blast
qed

lemma upsert_outcome:
  assumes "tumgrd_db_upsert_node os n sl s = (rc, s')"
  shows "rt s' = rt s \<and> (rc = - 1 \<and> db s' = db s \<or>
    rc = 0 \<and> db_conn (db s) \<and>
    (\<exists>ca lu. (n_created_at n \<noteq> 0 \<longrightarrow> ca = n_created_at n) \<and>
       (n_last_updated n \<noteq> 0 \<longrightarrow> lu = n_last_updated n) \<and>
       \<not> port_conflict (excluded_row n sl ca lu) (tbl (db s)) \<and>
       db s' = (db s)\<lparr>tbl := merge_row (excluded_row n sl ca lu) (tbl (db s))\<rparr>))"
proof (cases "db_conn (db s)")
  case False
  with assms show ?thesis by (auto simp: tumgrd_db_upsert_node_def)
next
  case True
  obtain ps ca lu t where run: "tumgrd_db_upsert_node os n sl s =
      (let (r, s) = run_statement os sql_upsert ps t in (if r = None then - 1 else 0, s))"
    and ps: "list_all (\<lambda>i. ps ! i \<noteq> SqlNull) [0, 4, 5, 6, 7, 10]" "insert_row ps = excluded_row n sl ca lu"
    and ts: "n_created_at n \<noteq> 0 \<longrightarrow> ca = n_created_at n" "n_last_updated n \<noteq> 0 \<longrightarrow> lu = n_last_updated n"
    and frame: "db t = db s" "rt t = rt s"
    using upsert_run [OF True] by blast
  obtain r where r: "run_statement os sql_upsert ps t = (r, s')" and rc: "rc = (if r = None then - 1 else 0)"
    using assms run by (auto split: prod.splits)
  from sql_upsert_merge [OF ps(1)] run_statement_outcome [OF r] ps(2) frame rc ts True
  show ?thesis by (auto split: if_splits)
qed

lemma merge_row_lookup:
  "lookup (merge_row e t) k =
    (if k = pk e then Some (case lookup t k of None \<Rightarrow> e | Some r \<Rightarrow> conflict_update e r)
     else lookup t k)"
proof (cases "pk e \<in> pk ` set t")
  case True
  then obtain r where "lookup t (pk e) = Some r"
    using lookup_None_iff [of t "pk e"] by (cases "lookup t (pk e)") auto
  moreover have "lookup (map (\<lambda>r. if pk r = pk e then conflict_update e r else r) t) k =
      map_option (\<lambda>r. if pk r = pk e then conflict_update e r else r) (lookup t k)"
    by (rule lookup_map_other) simp
  ultimately show ?thesis
    using True by (cases "lookup t k") (auto simp: merge_row_def dest: lookup_SomeD)
next
  case False
  then have "lookup t (pk e) = None" by (simp add: lookup_None_iff)
  with False show ?thesis
    by (auto simp: merge_row_def lookup_append split: option.splits)
qed

lemma conflict_update_uk: "pk r = pk e \<Longrightarrow> uk (conflict_update e r) = uk e"
  by (simp add: conflict_update_def uk_def pk_def)

lemma merge_row_inv:
  assumes "table_inv t" "\<not> port_conflict e t"
  shows "table_inv (merge_row e t)"
proof (cases "pk e \<in> pk ` set t")
  case False
  then have "uk e \<notin> uk ` set t" using assms(2) unfolding port_conflict_def by (metis imageE image_eqI)
  with False assms(1) show ?thesis by (simp add: merge_row_def table_inv_def)
next
  case True
  let ?h = "\<lambda>r. if pk r = pk e then conflict_update e r else r"
  have inj: "inj_on pk (set t)" "inj_on uk (set t)" and "distinct t"
    using assms(1) by (auto simp: table_inv_def distinct_map)
  have "inj_on (\<lambda>r. uk (?h r)) (set t)"
  proof (rule inj_onI)
    fix x y
    assume x: "x \<in> set t" and y: "y \<in> set t" and eq: "uk (?h x) = uk (?h y)"
    show "x = y"
    proof (cases "pk x = pk y")
      case True
      with x y inj(1) show ?thesis by (simp add: inj_onD)
    next
      case False
      then have "uk x = uk y"
        using eq x y assms(2) unfolding port_conflict_def
        by (cases "pk x = pk e"; cases "pk y = pk e") (auto simp: conflict_update_uk)
      with x y inj(2) show ?thesis by (simp add: inj_onD)
    qed
  qed
  with \<open>distinct t\<close> have "distinct (map uk (map ?h t))" by (simp add: distinct_map comp_def)
  moreover have "map pk (map ?h t) = map pk t" by simp
  ultimately show ?thesis
    using True assms(1) unfolding merge_row_def table_inv_def by (simp only: if_True simp_thms)
qed

lemma merge_row_mem:
  "r \<in> set (merge_row e t) \<Longrightarrow>
   r \<in> set t \<and> pk r \<noteq> pk e \<or> r = e \<and> pk e \<notin> pk ` set t \<or>
   (\<exists>q \<in> set t. pk q = pk e \<and> r = conflict_update e q)"
  unfolding merge_row_def by (cases "pk e \<in> pk ` set t") (auto, metis image_eqI)

lemma conflict_update_rotation:
  "rotation_ok q \<Longrightarrow> rotation_ok (conflict_update e q)"
  by (auto simp: rotation_ok_def conflict_update_def)

lemma conflict_update_wf: "row_wf q \<Longrightarrow> row_wf e \<Longrightarrow> row_wf (conflict_update e q)"
  by (simp add: row_wf_def conflict_update_def)

section \<open>Lookup, deletion, listing\<close>

lemma sql_select_lookup:
  "sql_select_one [SqlText h, SqlInt p, SqlText u, SqlText v] t = lookup t (h, p, u, v)"
  by (simp add: sql_select_one_def lookup_def numeral_nat)

lemma get_node_outcome:
  assumes "tumgrd_db_get_node os h p u v out s = ((rc, n), s')"
  shows "db s' = db s \<and> rt s' = rt s \<and>
    (rc = - 1 \<and> n = out \<or>
     rc = 1 \<and> n = out \<and> lookup (tbl (db s)) (h, p, u, v) = None \<or>
     rc = 0 \<and> (\<exists>r s1. lookup (tbl (db s)) (h, p, u, v) = Some r \<and> row_to_node os r s1 = (n, s')))"
  using assms
  by (auto simp: tumgrd_db_get_node_def Let_def sql_select_lookup split: if_splits prod.splits option.splits
      dest!: sqlite_tries_frame sqlite_ok_frame dest: row_to_node_frame)

lemma sql_delete_eq:
  "sql_delete [SqlText h, SqlInt p, SqlText u, SqlText v] t =
     Some (filter (\<lambda>r. pk r \<noteq> (h, p, u, v)) t, length (filter (\<lambda>r. pk r = (h, p, u, v)) t))"
  by (simp add: sql_delete_def Let_def numeral_nat)

lemma delete_outcome:
  assumes "tumgrd_db_delete_node os h p u v s = (rc, s')"
  shows "rt s' = rt s \<and>
    (rc = - 1 \<and> db s' = db s \<or>
     db s' = (db s)\<lparr>tbl := filter (\<lambda>r. pk r \<noteq> (h, p, u, v)) (tbl (db s))\<rparr> \<and>
     rc = (if lookup (tbl (db s)) (h, p, u, v) = None then 1 else 0))"
proof -
  have "filter (\<lambda>r. pk r = k) t = [] \<longleftrightarrow> lookup t k = None" for t k
    by (auto simp: lookup_None_iff filter_empty_conv)
  with assms show ?thesis
    by (auto simp: tumgrd_db_delete_node_def sql_delete_eq split: if_splits prod.splits option.splits
        dest!: run_statement_outcome)
qed

text \<open>Where SQLite accepts every call, a row that is there is deleted.\<close>

definition sqlite_works :: "'w os \<Rightarrow> bool" where
  "sqlite_works os \<longleftrightarrow> (\<forall>w. fst (os_sqlite os w) = None)"

lemma sqlite_works_tries:
  assumes "sqlite_works os"
  shows "fst (sqlite_ok os s)" "fst (sqlite_tries os n s)"
proof -
  show ok: "fst (sqlite_ok os s)" for s :: "'a sys"
    using assms by (auto simp: sqlite_works_def sqlite_ok_def ext_def split: prod.splits dest: spec [of _ "world s"])
  show "fst (sqlite_tries os n s)"
  proof (induction n arbitrary: s)
    case (Suc n)
    then show ?case using ok [of s] by (auto split: prod.split)
  qed simp
qed

lemma statement_works:
  assumes "sqlite_works os" "stmt ps (tbl (db s)) \<noteq> None"
  shows "fst (run_statement os stmt ps s) \<noteq> None"
proof -
  obtain a t where 1: "sqlite_tries os (Suc (length ps)) s = (a, t)" by fastforce
  obtain b u where 2: "sqlite_ok os t = (b, u)" by fastforce
  have ok: "a" "b" using sqlite_works_tries [OF assms(1)] 1 2 by (metis fst_conv)+
  have d: "db u = db s" using sqlite_tries_frame [OF 1] sqlite_ok_frame [OF 2] by simp
  show ?thesis
    using assms(2) by (simp add: run_statement_def 1 2 ok d split: option.split del: sqlite_tries.simps)
qed

lemma delete_works:
  assumes "sqlite_works os" "db_conn (db s)" "lookup (tbl (db s)) (h, p, u, v) \<noteq> None"
  shows "fst (tumgrd_db_delete_node os h p u v s) = 0"
proof -
  obtain rc s' where d: "tumgrd_db_delete_node os h p u v s = (rc, s')" by fastforce
  have "fst (run_statement os sql_delete [SqlText h, SqlInt p, SqlText u, SqlText v] s) \<noteq> None"
    by (rule statement_works [OF assms(1)]) (simp add: sql_delete_def Let_def)
  then have "rc \<noteq> - 1" using d assms(2)
    by (auto simp: tumgrd_db_delete_node_def split: prod.splits option.splits if_splits)
  with delete_outcome [OF d] assms(3) d show ?thesis by auto
qed

lemma lookup_filter_key:
  "lookup (filter (\<lambda>r. pk r \<noteq> k) t) k' = (if k' = k then None else lookup t k')"
  by (induction t) auto

lemma filter_inv: "table_inv t \<Longrightarrow> table_inv (filter P t)"
  by (auto simp: table_inv_def distinct_map inj_on_def)

lemma grow_array_frame [frame]:
  "grow_array os n cap s = (r, s') \<Longrightarrow> db s' = db s \<and> rt s' = rt s"
  by (auto simp: grow_array_def Let_def split: if_splits prod.splits dest!: ext_frame)

lemma list_rows_outcome:
  assumes "list_rows os rows cap arr s = (r, s')"
  shows "db s' = db s \<and> rt s' = rt s \<and>
    (\<forall>ns. r = Some ns \<longrightarrow>
       (\<exists>ms. ns = arr @ ms \<and> list_all2 (\<lambda>q m. \<exists>s s'. row_to_node os q s = (m, s')) rows ms))"
  using assms
proof (induction rows arbitrary: cap arr s)
  case Nil
  then show ?case by (auto split: prod.splits if_splits dest!: sqlite_ok_frame)
next
  case (Cons q rows)
  obtain ok s1 where 1: "sqlite_ok os s = (ok, s1)" by fastforce
  obtain g cap' s2 where 2: "grow_array os (length arr) cap s1 = ((g, cap'), s2)"
    by (metis surj_pair)
  obtain n s3 where 3: "row_to_node os q s2 = (n, s3)" by fastforce
  have fr: "db s1 = db s" "rt s1 = rt s" "db s2 = db s" "rt s2 = rt s" "db s3 = db s" "rt s3 = rt s"
    using sqlite_ok_frame [OF 1] row_to_node_frame [OF 3] grow_array_frame [OF 2] by auto
  show ?case
  proof (cases "ok \<and> g")
    case True
    with Cons.prems have "list_rows os rows cap' (arr @ [n]) s3 = (r, s')"
      by (simp add: 1 2 3)
    from Cons.IH [OF this] fr 3 show ?thesis by (auto 4 4)
  next
    case False
    with Cons.prems have "r = None \<and> (s' = s1 \<or> s' = s2)"
      by (cases ok) (auto simp: 1 2 3)
    with fr show ?thesis by auto
  qed
qed

text \<open>What \<open>tumgrd_db_list_nodes\<close> relies on: a scan delivers each row of the table once.\<close>

definition scan_complete :: "'w os \<Rightarrow> bool" where
  "scan_complete os \<longleftrightarrow> (\<forall>t w rows w'. os_scan os t w = (rows, w') \<longrightarrow> mset rows = mset t)"

lemma list_nodes_outcome:
  assumes "tumgrd_db_list_nodes os s = ((rc, ns), s')"
  shows "db s' = db s \<and> rt s' = rt s \<and>
    (rc = - 1 \<and> ns = [] \<or>
     rc = 0 \<and> (\<exists>rows. (scan_complete os \<longrightarrow> mset rows = mset (tbl (db s))) \<and>
       list_all2 (\<lambda>q m. \<exists>s s'. row_to_node os q s = (m, s')) (order_rows rows) ns))"
proof (cases "db_conn (db s)")
  case False
  with assms show ?thesis by (simp add: tumgrd_db_list_nodes_def)
next
  case True
  obtain ok s1 where 1: "sqlite_ok os s = (ok, s1)" by fastforce
  obtain rows s2 where 2: "ext (os_scan os (tbl (db s1))) s1 = (rows, s2)" by fastforce
  obtain r s3 where 3: "list_rows os (order_rows rows) 0 [] s2 = (r, s3)" by fastforce
  have "scan_complete os \<longrightarrow> mset rows = mset (tbl (db s))"
    using 2 sqlite_ok_frame [OF 1] by (auto simp: scan_complete_def ext_result)
  with assms True 1 2 3 sqlite_ok_frame [OF 1] ext_frame [OF 2] list_rows_outcome [OF 3]
  show ?thesis by (auto simp: tumgrd_db_list_nodes_def split: if_splits option.splits)
qed

section \<open>Properties of the store\<close>

text \<open>The nodes that a row can hold without loss.\<close>

definition node_storable :: "tumgrd_node \<Rightarrow> bool" where
  "node_storable n \<longleftrightarrow> node_wf n \<and>
     - 2147483648 \<le> n_server_port n \<and> n_server_port n < 2147483648 \<and>
     - 2147483648 \<le> n_client_port n \<and> n_client_port n < 2147483648 \<and>
     - 2147483648 \<le> n_rotation_state n \<and> n_rotation_state n < 2147483648 \<and>
     - 2147483648 \<le> n_memlimit n \<and> n_memlimit n < 2147483648 \<and>
     (n_has_memlimit n \<or> n_memlimit n = 0) \<and> clamp_lifetime (n_lifetime n) = n_lifetime n"

lemma column_text_nonempty:
  "length v < k \<Longrightarrow> column_text (nonempty_or_null (Some v)) k = v"
  by (auto simp: nonempty_or_null_Some column_text_def cstr)

lemma column_int_stored:
  "- 2147483648 \<le> x \<Longrightarrow> x < 2147483648 \<Longrightarrow> column_int (Some x) = x"
  by (simp add: column_int_def column_int64_def to_int32_id)

lemma excluded_row_to_node:
  assumes "node_storable n" "row_to_node os (excluded_row n True ca lu) s = (m, s')"
  shows "m = n\<lparr>n_created_at := ca, n_last_updated := lu, n_last_applied_at := n_last_applied_at m,
     n_ip_check_url := (if n_ip_check_url n = [] then TUMGRD_DEFAULT_IP_CHECK_URL else n_ip_check_url n),
     n_status := (if n_status n = [] then TUMGRD_STATUS_ACTIVE else n_status n)\<rparr>"
proof -
  have url: "column_text (Some (if n_ip_check_url n = [] then TUMGRD_DEFAULT_IP_CHECK_URL
        else n_ip_check_url n)) 256 =
      (if n_ip_check_url n = [] then TUMGRD_DEFAULT_IP_CHECK_URL else n_ip_check_url n)"
    using assms(1)
    by (intro column_text_Some_id) (simp add: node_storable_def node_wf_def TUMGRD_DEFAULT_IP_CHECK_URL_def)
  have st: "column_text (Some (if n_status n = [] then TUMGRD_STATUS_ACTIVE else n_status n)) 32 =
      (if n_status n = [] then TUMGRD_STATUS_ACTIVE else n_status n)"
    using assms(1)
    by (intro column_text_Some_id) (simp add: node_storable_def node_wf_def TUMGRD_STATUS_ACTIVE_def)
  have i64: "column_int64 (Some x) = x" for x by (simp add: column_int64_def)
  note f = row_to_node_fields [OF assms(2)]
  show ?thesis
    using assms(1) unfolding node_storable_def node_wf_def
    by (cases "n_has_memlimit n"; intro tumgrd_node.equality)
       (simp_all add: f excluded_row_def column_text_nonempty column_text_Some_id column_int_stored
          i64 url st split del: if_split)
qed


text \<open>
  C23: Storing a node whose key is already present never disturbs a rotation in progress:
  the stored key, the pending key and the rotation state of the row stay as they were,
  whatever key the new node carries, and so does the time of the last application.
\<close>

theorem upsert_keeps_rotation:
  assumes "tumgrd_db_upsert_node os n sl s = (0, s')"
    and "lookup (tbl (db s)) (node_key n) = Some r" "rotating r"
  shows "\<exists>r'. lookup (tbl (db s')) (node_key n) = Some r' \<and> c_xor_key r' = c_xor_key r \<and>
    c_xor_key_pending r' = c_xor_key_pending r \<and> c_rotation_state r' = c_rotation_state r \<and>
    c_last_applied_at r' = c_last_applied_at r"
proof -
  obtain ca lu where "db s' = (db s)\<lparr>tbl := merge_row (excluded_row n sl ca lu) (tbl (db s))\<rparr>"
    using upsert_outcome [OF assms(1)] by auto
  then have "lookup (tbl (db s')) (node_key n) = Some (conflict_update (excluded_row n sl ca lu) r)"
    using assms(2) by (simp add: merge_row_lookup excluded_row_pk)
  with assms(3) show ?thesis by (simp add: conflict_update_def rotating_def)
qed

text \<open>
  C26: The database rejects a node whose client port is already used by another node of the
  same server and IP family: the call fails and the table does not change.
\<close>

theorem upsert_rejects_port_conflict:
  assumes "r \<in> set (tbl (db s))" "pk r \<noteq> node_key n"
    and "uk r = (n_server_host n, n_server_port n, n_client_port n, n_ip_version n)"
  shows "\<exists>s'. tumgrd_db_upsert_node os n sl s = (- 1, s') \<and> db s' = db s"
proof -
  have "port_conflict (excluded_row n sl ca lu) (tbl (db s))" for ca lu
    using assms
    by (auto simp: port_conflict_def excluded_row_pk excluded_row_uk intro!: bexI [of _ r])
  then show ?thesis
    by (cases "tumgrd_db_upsert_node os n sl s") (auto dest!: upsert_outcome)
qed

text \<open>
  Deletion removes exactly the row with the given key. The code 1 means that there was
  no such row.
\<close>

theorem delete_node_correct:
  assumes "tumgrd_db_delete_node os h p u v s = (rc, s')" "rc \<noteq> - 1"
  shows "lookup (tbl (db s')) k = (if k = (h, p, u, v) then None else lookup (tbl (db s)) k) \<and>
    (rc = 0 \<longleftrightarrow> lookup (tbl (db s)) (h, p, u, v) \<noteq> None) \<and> (rc = 0 \<or> rc = 1)"
  using delete_outcome [OF assms(1)] assms(2) by (auto simp: lookup_filter_key)

text \<open>
  C25: A successful \<open>tumgrd_db_list_nodes\<close> returns one node per row of the table, in the
  order of server host, server port and uid.
\<close>

theorem list_nodes_complete_sorted:
  assumes "scan_complete os" "tumgrd_db_list_nodes os s = ((0, ns), s')"
    and "\<forall>r \<in> set (tbl (db s)). row_wf r"
  shows "mset (map node_key ns) = mset (map pk (tbl (db s))) \<and>
    sorted (map (\<lambda>n. (n_server_host n, n_server_port n, n_uid n)) ns)"
proof -
  obtain rows where m: "mset rows = mset (tbl (db s))"
    and l: "list_all2 (\<lambda>q m. \<exists>s s'. row_to_node os q s = (m, s')) (order_rows rows) ns"
    using list_nodes_outcome [OF assms(2)] assms(1) by auto
  have "set (order_rows rows) = set (tbl (db s))"
    using m by (simp add: order_rows_def) (metis set_mset_mset)
  then have wf: "\<forall>q \<in> set (order_rows rows). row_wf q" using assms(3) by simp
  have keys: "map node_key ns = map pk (order_rows rows)"
    using l wf
    by (auto simp: list_all2_conv_all_nth list_eq_iff_nth_eq row_to_node_key)
  have "map (\<lambda>n. (n_server_host n, n_server_port n, n_uid n)) ns =
      map (\<lambda>(h, p, u, v). (h, p, u)) (map node_key ns)"
    by (simp add: node_key_def)
  also have "\<dots> = map (\<lambda>r. (c_server_host r, c_server_port r, c_uid r)) (order_rows rows)"
    by (simp add: keys pk_def)
  finally have "sorted (map (\<lambda>n. (n_server_host n, n_server_port n, n_uid n)) ns)"
    by (simp add: order_rows_def)
  moreover have "mset (map node_key ns) = mset (map pk (tbl (db s)))"
    using m by (simp add: keys order_rows_def)
  ultimately show ?thesis by simp
qed

text \<open>
  C24: Only one rotation can be started: \<open>tumgrd_db_begin_rotation\<close> succeeds only on a row
  at rest, records the new key as both current and pending key, and a second start on the
  result fails without touching the table.
\<close>

theorem begin_rotation_exclusive:
  assumes "table_inv (tbl (db s))" "st \<noteq> 0"
    and "tumgrd_db_begin_rotation os h p u v key st now s = (0, s')"
  shows "(\<exists>r. lookup (tbl (db s)) (h, p, u, v) = Some r \<and> c_rotation_state r = Some 0 \<and>
      lookup (tbl (db s')) (h, p, u, v) = Some (r\<lparr>c_xor_key := Some key, c_xor_key_pending := Some key,
        c_rotation_state := Some st, c_last_updated := Some now\<rparr>)) \<and>
    (\<exists>s''. tumgrd_db_begin_rotation os h p u v key' st' now' s' = (- 1, s'') \<and> db s'' = db s')"
proof -
  obtain r where r: "lookup (tbl (db s)) (h, p, u, v) = Some r" "c_rotation_state r = Some 0"
      "lookup (tbl (db s')) (h, p, u, v) = Some (start_rotation key st now r)"
    using begin_rotation.success_hits_row [OF assms(3,1)] by blast
  have inv: "table_inv (tbl (db s'))"
    using begin_rotation.keeps_table_inv [OF assms(3,1)] .
  obtain rc s'' where again: "tumgrd_db_begin_rotation os h p u v key' st' now' s' = (rc, s'')"
    by fastforce
  have "rc \<noteq> 0"
    using begin_rotation.success_hits_row [of os h p u v key' st' now' s' s''] again inv r assms(2)
    by (auto simp: start_rotation_def)
  then have "rc = - 1 \<and> db s'' = db s'"
    using begin_rotation.result_code [OF again] begin_rotation.failure [OF again] inv
    by (auto simp: table_inv_def)
  with r again show ?thesis by (auto simp: start_rotation_def)
qed

section \<open>Every operation keeps the table consistent\<close>

text \<open>One step of the store: any call of an operation of \<open>db.c\<close> that can change it.\<close>

inductive db_step :: "'w os \<Rightarrow> 'w sys \<Rightarrow> 'w sys \<Rightarrow> bool" for os where
  upsert: "tumgrd_db_upsert_node os n sl s = (rc, s') \<Longrightarrow> node_wf n \<Longrightarrow>
     1 \<le> n_server_port n \<Longrightarrow> n_server_port n \<le> 65535 \<Longrightarrow> 1 \<le> n_client_port n \<Longrightarrow>
     n_client_port n \<le> 65535 \<Longrightarrow>
     (lookup (tbl (db s)) (node_key n) = None \<Longrightarrow> n_rotation_state n = 0 \<and> n_xor_key_pending n = []) \<Longrightarrow>
     db_step os s s'"
| delete: "tumgrd_db_delete_node os h p u v s = (rc, s') \<Longrightarrow> db_step os s s'"
| runtime: "tumgrd_db_update_runtime os h p u v ip st ts s = (rc, s') \<Longrightarrow> length st < 32 \<Longrightarrow>
     db_step os s s'"
| applied: "tumgrd_db_update_applied os h p u v ts s = (rc, s') \<Longrightarrow> db_step os s s'"
| begin_rot: "tumgrd_db_begin_rotation os h p u v key TUMGRD_ROTATION_PENDING_REMOTE now s = (rc, s') \<Longrightarrow>
     key \<noteq> [] \<Longrightarrow> length key < 129 \<Longrightarrow> db_step os s s'"
| complete_rot: "tumgrd_db_complete_rotation os h p u v ts s = (rc, s') \<Longrightarrow> db_step os s s'"
| move_rot: "tumgrd_db_update_rotation_state os h p u v st s = (rc, s') \<Longrightarrow> db_step os s s'"
| replace_rot: "tumgrd_db_replace_rotation os h p u v key now s = (rc, s') \<Longrightarrow>
     key \<noteq> [] \<Longrightarrow> length key < 129 \<Longrightarrow> db_step os s s'"
| clear_rot: "tumgrd_db_clear_rotation os h p u v s = (rc, s') \<Longrightarrow> db_step os s s'"

text \<open>
  A change of one row by \<open>f\<close>, guarded by \<open>g\<close>, keeps \<open>db_ok\<close> if \<open>f\<close> keeps good rows good.
\<close>

context keyed_update
begin

lemma keeps_db_ok:
  assumes "upd os s = (rc, s')" "db_ok (tbl (db s))"
    and "\<And>r. g r \<Longrightarrow> row_wf r \<Longrightarrow> rotation_ok r \<Longrightarrow> row_wf (f r) \<and> rotation_ok (f r)"
  shows "db_ok (tbl (db s'))"
proof -
  have "\<forall>r \<in> set (upd_rows k g f (tbl (db s))). row_wf r \<and> rotation_ok r"
    using assms(2,3) by (auto simp: upd_rows_def db_ok_def)
  with effect [OF assms(1)] keeps_table_inv [OF assms(1)] assms(2) show ?thesis
    by (auto simp: db_ok_def)
qed

end

lemma move_rotation_ok:
  assumes "tumgrd_db_update_rotation_state os h p u v st s = (rc, s')" "db_ok (tbl (db s))"
  shows "db_ok (tbl (db s'))"
proof (cases "st = 1 \<or> st = 2")
  case True
  show ?thesis
    by (rule update_rotation_state.keeps_db_ok [OF assms])
       (use True in \<open>auto simp: move_rotation_def row_wf_def rotation_ok_def\<close>)
next
  case False
  then have "s' = s" using assms(1)
    by (auto simp: tumgrd_db_update_rotation_state_def rotation_states split: if_splits)
  with assms(2) show ?thesis by simp
qed

lemma excluded_row_wf:
  assumes "node_wf n" "1 \<le> n_server_port n" "n_server_port n \<le> 65535" "1 \<le> n_client_port n"
    "n_client_port n \<le> 65535"
  shows "row_wf (excluded_row n sl ca lu)"
  using assms
  by (simp add: row_wf_def excluded_row_def node_wf_def the_default_def nonempty_or_null_Some
      TUMGRD_STATUS_ACTIVE_def)

lemma excluded_row_rotation_ok:
  "n_rotation_state n = 0 \<Longrightarrow> n_xor_key_pending n = [] \<Longrightarrow> rotation_ok (excluded_row n sl ca lu)"
  by (simp add: rotation_ok_def excluded_row_def nonempty_or_null_Some the_default_def)

lemma upsert_success:
  assumes "tumgrd_db_upsert_node os n sl s = (0, s')"
  shows "\<exists>ca lu. \<not> port_conflict (excluded_row n sl ca lu) (tbl (db s)) \<and>
    tbl (db s') = merge_row (excluded_row n sl ca lu) (tbl (db s))"
proof -
  obtain ca lu where "\<not> port_conflict (excluded_row n sl ca lu) (tbl (db s))"
    and d: "db s' = (db s)\<lparr>tbl := merge_row (excluded_row n sl ca lu) (tbl (db s))\<rparr>"
    using upsert_outcome [OF assms] by auto
  moreover from d have "tbl (db s') = merge_row (excluded_row n sl ca lu) (tbl (db s))" by simp
  ultimately show ?thesis by blast
qed

lemma upsert_db_ok:
  assumes up: "tumgrd_db_upsert_node os n sl s = (rc, s')" and ok: "db_ok (tbl (db s))"
    and wf: "node_wf n" "1 \<le> n_server_port n" "n_server_port n \<le> 65535" "1 \<le> n_client_port n"
      "n_client_port n \<le> 65535"
    and new: "lookup (tbl (db s)) (node_key n) = None \<Longrightarrow> n_rotation_state n = 0 \<and> n_xor_key_pending n = []"
  shows "db_ok (tbl (db s'))"
proof (cases "rc = 0")
  case False
  with upsert_outcome [OF up] ok show ?thesis by auto
next
  case True
  then obtain ca lu where no: "\<not> port_conflict (excluded_row n sl ca lu) (tbl (db s))"
    and t: "tbl (db s') = merge_row (excluded_row n sl ca lu) (tbl (db s))"
    using upsert_success up by blast
  let ?e = "excluded_row n sl ca lu"
  have e: "row_wf ?e" using wf by (rule excluded_row_wf)
  have "row_wf r \<and> rotation_ok r" if r: "r \<in> set (merge_row ?e (tbl (db s)))" for r
  proof -
    have "rotation_ok ?e" if "pk ?e \<notin> pk ` set (tbl (db s))"
      using new that by (auto simp: excluded_row_pk lookup_None_iff intro!: excluded_row_rotation_ok)
    with merge_row_mem [OF r] ok e show ?thesis
      by (auto simp: db_ok_def conflict_update_wf conflict_update_rotation)
  qed
  with merge_row_inv [OF _ no] ok t show ?thesis by (simp add: db_ok_def)
qed

lemma delete_db_ok:
  "tumgrd_db_delete_node os h p u v s = (rc, s') \<Longrightarrow> db_ok (tbl (db s)) \<Longrightarrow> db_ok (tbl (db s'))"
  by (drule delete_outcome) (auto simp: db_ok_def filter_inv)

text \<open>
  C21: Every operation of the store keeps the table consistent: at most one row per key, no
  two rows with the same server, IP family and client port, every text within its buffer,
  ports in range, and a rotation in progress always carrying one non-empty key as both
  current and pending key.
\<close>

theorem db_step_keeps_db_ok:
  assumes "db_step os s s'" "db_ok (tbl (db s))"
  shows "db_ok (tbl (db s'))"
  using assms(1)
proof (cases rule: db_step.cases)
  case (upsert n sl rc)
  show ?thesis by (rule upsert_db_ok [OF upsert(1) assms(2) upsert(2-7)])
next
  case (delete h p u v rc)
  then show ?thesis using assms(2) by (rule delete_db_ok)
next
  case (runtime h p u v ip st ts rc)
  show ?thesis
    by (rule update_runtime.keeps_db_ok [OF runtime(1) assms(2)])
       (use runtime(2) in \<open>auto simp: set_runtime_def row_wf_def rotation_ok_def the_default_def\<close>)
next
  case (applied h p u v ts rc)
  show ?thesis
    by (rule update_applied.keeps_db_ok [OF applied assms(2)])
       (auto simp: set_applied_def row_wf_def rotation_ok_def)
next
  case (begin_rot h p u v key now rc)
  show ?thesis
    by (rule begin_rotation.keeps_db_ok [OF begin_rot(1) assms(2)])
       (use begin_rot(2,3) in \<open>auto simp: start_rotation_def row_wf_def rotation_ok_def the_default_def
          rotation_states\<close>)
next
  case (complete_rot h p u v ts rc)
  show ?thesis
    by (rule complete_rotation.keeps_db_ok [OF complete_rot assms(2)])
       (auto simp: finish_rotation_def row_wf_def rotation_ok_def the_default_def)
next
  case (move_rot h p u v st rc)
  then show ?thesis using assms(2) by (rule move_rotation_ok)
next
  case (replace_rot h p u v key now rc)
  show ?thesis
    by (rule replace_rotation.keeps_db_ok [OF replace_rot(1) assms(2)])
       (use replace_rot(2,3) in \<open>auto simp: start_rotation_def row_wf_def rotation_ok_def the_default_def
          rotation_states\<close>)
next
  case (clear_rot h p u v rc)
  show ?thesis
    by (rule clear_rotation.keeps_db_ok [OF clear_rot assms(2)])
       (auto simp: reset_rotation_def row_wf_def rotation_ok_def the_default_def)
qed
section \<open>Schema migration\<close>

lemma migrate_if_ok:
  assumes "migrate_if (\<not> List.member names col) os col fill s = (ok, s')" ok
    and "set names \<subseteq> set (db_columns (db s))"
  shows "set (db_columns (db s')) = insert col (set (db_columns (db s))) \<and>
    tbl (db s') = (if List.member names col \<or> col \<in> set (db_columns (db s)) then tbl (db s)
                   else map fill (tbl (db s)))"
  using assms
  by (auto simp: migrate_if_def migrate_add_column_def split: if_splits prod.splits
      dest!: sqlite_ok_frame)

text \<open>What the migration does to an old row, given the columns its table had.\<close>

definition migrated :: "string list \<Rightarrow> row \<Rightarrow> row" where
  "migrated names r =
     (let r = (if List.member names ''lifetime'' then r else r\<lparr>c_lifetime := Some 0\<rparr>);
          r = (if List.member names ''last_applied_at'' then r
               else sql_backfill (r\<lparr>c_last_applied_at := Some 0\<rparr>));
          r = (if List.member names ''rotation_state'' then r else r\<lparr>c_rotation_state := Some 0\<rparr>)
      in if List.member names ''xor_key_pending'' then r else r\<lparr>c_xor_key_pending := Some []\<rparr>)"

lemma init_schema_existing:
  assumes "tumgrd_db_init_schema os s = (0, s')" "db_columns (db s) \<noteq> []"
  shows "set (db_columns (db s')) = set (db_columns (db s)) \<union>
      {''lifetime'', ''last_applied_at'', ''rotation_state'', ''xor_key_pending''} \<and>
    tbl (db s') = map (migrated (db_columns (db s))) (tbl (db s))"
proof -
  define names where "names = db_columns (db s)"
  define fill where "fill s = (if List.member names ''last_applied_at'' then s
      else s\<lparr>db := (db s)\<lparr>tbl := map sql_backfill (tbl (db s))\<rparr>\<rparr>)" for s :: "'a sys"
  define refill where "refill s = (if List.member names ''last_applied_at'' then (True, s)
      else sqlite_ok os s)" for s
  obtain o1 s1 where 1: "sqlite_ok os s = (o1, s1)" by fastforce
  have d1: "db s1 = db s" using sqlite_ok_frame [OF 1] by simp
  obtain o2 s2 where 2: "sqlite_tries os (Suc (Suc (length names))) s1 = (o2, s2)" by fastforce
  have d2: "db s2 = db s" using sqlite_tries_frame [OF 2] d1 by simp
  obtain o3 s3 where 3: "migrate_if (\<not> List.member names ''lifetime'') os ''lifetime''
      (\<lambda>r. r\<lparr>c_lifetime := Some 0\<rparr>) s2 = (o3, s3)" by fastforce
  obtain o4 s4 where 4: "migrate_if (\<not> List.member names ''last_applied_at'') os ''last_applied_at''
      (\<lambda>r. r\<lparr>c_last_applied_at := Some 0\<rparr>) s3 = (o4, s4)" by fastforce
  obtain o5 s5 where 5: "refill s4 = (o5, s5)" by fastforce
  obtain o6 s6 where 6: "migrate_if (\<not> List.member names ''rotation_state'') os ''rotation_state''
      (\<lambda>r. r\<lparr>c_rotation_state := Some 0\<rparr>) (fill s5) = (o6, s6)" by fastforce
  obtain o7 s7 where 7: "migrate_if (\<not> List.member names ''xor_key_pending'') os ''xor_key_pending''
      (\<lambda>r. r\<lparr>c_xor_key_pending := Some []\<rparr>) s6 = (o7, s7)" by fastforce
  have conn: "db_conn (db s)" by (rule ccontr) (use assms(1) in \<open>simp add: tumgrd_db_init_schema_def\<close>)
  have o1 by (rule ccontr) (use assms(1) conn 1 in \<open>simp add: tumgrd_db_init_schema_def\<close>)
  have o2
    by (rule ccontr) (use assms conn 1 2 d1 \<open>o1\<close> in
      \<open>simp add: tumgrd_db_init_schema_def names_def del: sqlite_tries.simps\<close>)
  note pre = conn \<open>o1\<close> \<open>o2\<close>
  have "tumgrd_db_init_schema os s =
    (if \<not> o3 then (- 1, s3) else if \<not> o4 then (- 1, s4) else
     let s5' = (if o5 \<and> \<not> List.member names ''last_applied_at''
                then s5\<lparr>db := (db s5)\<lparr>tbl := map sql_backfill (tbl (db s5))\<rparr>\<rparr> else s5)
     in if \<not> o5 then (- 1, s5')
     else let (ok, s) = migrate_if (\<not> List.member names ''rotation_state'') os ''rotation_state''
                 (\<lambda>r. r\<lparr>c_rotation_state := Some 0\<rparr>) s5'
          in if \<not> ok then (- 1, s)
             else let (ok, s) = migrate_if (\<not> List.member names ''xor_key_pending'') os ''xor_key_pending''
                       (\<lambda>r. r\<lparr>c_xor_key_pending := Some []\<rparr>) s
                  in (if ok then 0 else - 1, s))"
    using assms(2) 1 2 3 4 5 pre d1 unfolding tumgrd_db_init_schema_def refill_def names_def Let_def
    by (simp del: sqlite_tries.simps split del: if_split cong: if_cong)
  then have oks: "o3" "o4" "o5" "o6" "o7" "s7 = s'"
    using assms(1) 6 7 unfolding fill_def Let_def by (auto split: if_splits)
  have d5: "db s5 = db s4" using 5 by (auto simp: refill_def split: if_splits dest: sqlite_ok_frame)
  let ?N = "set names"
  have c3: "set (db_columns (db s3)) = insert ''lifetime'' ?N"
    and t3: "tbl (db s3) = (if ''lifetime'' \<in> ?N then tbl (db s)
      else map (\<lambda>r. r\<lparr>c_lifetime := Some 0\<rparr>) (tbl (db s)))"
    using migrate_if_ok [OF 3 oks(1)] by (simp_all add: names_def d2)
  have c4: "set (db_columns (db s4)) = insert ''last_applied_at'' (insert ''lifetime'' ?N)"
    and t4: "tbl (db s4) = (if ''last_applied_at'' \<in> ?N then tbl (db s3)
      else map (\<lambda>r. r\<lparr>c_last_applied_at := Some 0\<rparr>) (tbl (db s3)))"
    using migrate_if_ok [OF 4 oks(2)] by (simp_all add: c3 subset_insertI)
  have c6: "set (db_columns (db s6)) =
      insert ''rotation_state'' (insert ''last_applied_at'' (insert ''lifetime'' ?N))"
    and t6: "tbl (db s6) = (let t = (if ''last_applied_at'' \<in> ?N then tbl (db s4) else map sql_backfill (tbl (db s4)))
      in if ''rotation_state'' \<in> ?N then t else map (\<lambda>r. r\<lparr>c_rotation_state := Some 0\<rparr>) t)"
    using migrate_if_ok [OF 6 oks(4)]
    by (cases "''last_applied_at'' \<in> ?N"; simp add: c4 d5 fill_def subset_insertI subset_insertI2)+
  have c7: "set (db_columns (db s')) = insert ''xor_key_pending''
      (insert ''rotation_state'' (insert ''last_applied_at'' (insert ''lifetime'' ?N)))"
    and t7: "tbl (db s') = (if ''xor_key_pending'' \<in> ?N then tbl (db s6)
      else map (\<lambda>r. r\<lparr>c_xor_key_pending := Some []\<rparr>) (tbl (db s6)))"
    using migrate_if_ok [OF 7 oks(5)] by (simp_all add: c6 oks(6) [symmetric] subset_insertI subset_insertI2)
  have "tbl (db s') = map (migrated names) (tbl (db s))"
    unfolding t7 t6 t4 t3 Let_def migrated_def
    by (simp add: comp_def)
  with c7 show ?thesis by (auto simp: names_def)
qed


section \<open>The properties on concrete data\<close>

text \<open>The store properties on the concrete node and row.\<close>

lemma demo_node_storable: "node_storable demo_node"
  by (simp add: node_storable_def node_wf_def demo_node_def zero_node_def clamp_lifetime_def lifetime_bounds)

lemma demo_ext [simp]:
  "ext (os_sqlite demo_os) s = (None, s)" "ext (os_time demo_os) s = (1700000000, s)"
  "ext (os_alloc demo_os) s = (True, s)" "ext (os_scan demo_os t) s = (t, s)"
  by (simp_all add: ext_def demo_os_def)

lemma demo_sqlite [simp]: "sqlite_ok demo_os s = (True, s)" "now_unix demo_os s = (1700000000, s)"
  by (simp_all add: sqlite_ok_def now_unix_def)

lemma demo_tries [simp]: "sqlite_tries demo_os n s = (True, s)"
  by (induction n) simp_all

lemma demo_run_statement:
  "run_statement demo_os stmt ps s =
    (case stmt ps (tbl (db s)) of None \<Rightarrow> (None, s)
     | Some (t, n) \<Rightarrow> (Some n, s\<lparr>db := (db s)\<lparr>tbl := t\<rparr>\<rparr>))"
  by (simp add: run_statement_def del: sqlite_tries.simps)

lemmas demo_data = demo_sys_def demo_node_def zero_node_def demo_row_def demo_rotating_def pk_def uk_def

lemma demo_upsert: "fst (tumgrd_db_upsert_node demo_os demo_node True (demo_sys [])) = 0"
  by (simp add: tumgrd_db_upsert_node_def demo_run_statement sql_upsert_def insert_row_def numeral_nat
      demo_data Let_def)


theorem upsert_keeps_rotation_witness:
  "\<exists>r'. lookup (tbl (db (snd (tumgrd_db_upsert_node demo_os (demo_node\<lparr>n_xor_key := ''beef''\<rparr>) True
      (demo_sys [demo_rotating]))))) (''vpn.example'', 4433, ''alice'', ''v4'') = Some r' \<and>
    c_xor_key r' = Some ''00ff'' \<and> c_rotation_state r' = Some 1"
proof -
  let ?n = "demo_node\<lparr>n_xor_key := ''beef''\<rparr>"
  let ?r = "tumgrd_db_upsert_node demo_os ?n True (demo_sys [demo_rotating])"
  have "fst ?r = 0"
    by (simp add: tumgrd_db_upsert_node_def demo_run_statement sql_upsert_def insert_row_def numeral_nat
        demo_data Let_def the_default_def)
  then have 1: "?r = (0, snd ?r)" by (simp add: prod_eq_iff)
  have k: "node_key ?n = (''vpn.example'', 4433, ''alice'', ''v4'')"
    by (simp add: node_key_def demo_node_def zero_node_def)
  have 2: "lookup (tbl (db (demo_sys [demo_rotating]))) (node_key ?n) = Some demo_rotating"
    by (simp add: k demo_sys_def pk_def demo_rotating_def demo_row_def)
  have 3: "rotating demo_rotating" by (simp add: rotating_def demo_rotating_def)
  have "c_xor_key demo_rotating = Some ''00ff''" "c_rotation_state demo_rotating = Some 1"
    by (simp_all add: demo_rotating_def demo_row_def)
  with upsert_keeps_rotation [OF 1 2 3] k show ?thesis by auto
qed

theorem upsert_rejects_port_conflict_witness:
  "\<exists>s'. tumgrd_db_upsert_node demo_os (demo_node\<lparr>n_uid := ''bob''\<rparr>) True (demo_sys [demo_row]) = (- 1, s') \<and>
    db s' = db (demo_sys [demo_row])"
  by (rule upsert_rejects_port_conflict [of demo_row])
     (simp_all add: demo_sys_def demo_row_def demo_node_def zero_node_def node_key_def pk_def uk_def)

theorem delete_node_correct_witness:
  "fst (tumgrd_db_delete_node demo_os ''vpn.example'' 4433 ''alice'' ''v4'' (demo_sys [demo_row])) = 0 \<and>
   lookup (tbl (db (snd (tumgrd_db_delete_node demo_os ''vpn.example'' 4433 ''alice'' ''v4''
     (demo_sys [demo_row]))))) (''vpn.example'', 4433, ''alice'', ''v4'') = None"
proof -
  let ?r = "tumgrd_db_delete_node demo_os ''vpn.example'' 4433 ''alice'' ''v4'' (demo_sys [demo_row])"
  have rc: "fst ?r = 0"
    by (simp add: tumgrd_db_delete_node_def demo_run_statement sql_delete_eq demo_data)
  then have "?r = (0, snd ?r)" by (simp add: prod_eq_iff)
  from delete_node_correct [OF this, of "(''vpn.example'', 4433, ''alice'', ''v4'')"] rc show ?thesis by simp
qed

lemma demo_scan_complete: "scan_complete demo_os"
  by (auto simp: scan_complete_def demo_os_def)

definition demo_row2 :: row where
  "demo_row2 = demo_row\<lparr>c_uid := ''Zoe'', c_client_port := 5001\<rparr>"

theorem list_nodes_complete_sorted_witness:
  "\<exists>ns. fst (tumgrd_db_list_nodes demo_os (demo_sys [demo_row, demo_row2])) = (0, ns) \<and>
    mset (map node_key ns) = {#pk demo_row, pk demo_row2#} \<and>
    sorted (map (\<lambda>n. (n_server_host n, n_server_port n, n_uid n)) ns)"
proof -
  let ?s = "demo_sys [demo_row, demo_row2]"
  obtain rc ns s' where r: "tumgrd_db_list_nodes demo_os ?s = ((rc, ns), s')" by (metis surj_pair)
  have "fst (fst (tumgrd_db_list_nodes demo_os ?s)) = 0"
    by (simp add: tumgrd_db_list_nodes_def demo_sys_def order_rows_def grow_array_def Let_def
        split: prod.splits)
  with r have 2: "tumgrd_db_list_nodes demo_os ?s = ((0, ns), s')" by simp
  have 3: "\<forall>r \<in> set (tbl (db ?s)). row_wf r"
    by (simp add: demo_sys_def demo_row_def demo_row2_def row_wf_def the_default_def)
  from list_nodes_complete_sorted [OF demo_scan_complete 2 3] 2 show ?thesis by (simp add: demo_sys_def)
qed

lemma demo_db_ok: "db_ok [demo_row]"
  by (simp add: db_ok_def table_inv_def row_wf_def rotation_ok_def demo_row_def the_default_def)

theorem begin_rotation_exclusive_witness:
  "\<exists>s' s''. tumgrd_db_begin_rotation demo_os ''vpn.example'' 4433 ''alice'' ''v4'' ''beef'' 1 1700000000
      (demo_sys [demo_row]) = (0, s') \<and>
    tumgrd_db_begin_rotation demo_os ''vpn.example'' 4433 ''alice'' ''v4'' ''cafe'' 1 1700000001 s' = (- 1, s'')"
proof -
  let ?r = "tumgrd_db_begin_rotation demo_os ''vpn.example'' 4433 ''alice'' ''v4'' ''beef'' 1 1700000000
      (demo_sys [demo_row])"
  have "fst ?r = 0"
    by (simp add: tumgrd_db_begin_rotation_def demo_run_statement sql_begin_rotation_def sql_update_def
        numeral_nat demo_data)
  then have 1: "?r = (0, snd ?r)" by (simp add: prod_eq_iff)
  have "table_inv (tbl (db (demo_sys [demo_row])))"
    using demo_db_ok by (simp add: db_ok_def demo_sys_def)
  from begin_rotation_exclusive [OF this _ 1, of "''cafe''" 1 1700000001] 1 show ?thesis
    by (metis zero_neq_one)
qed

theorem db_step_keeps_db_ok_witness:
  "db_ok (tbl (db (snd (tumgrd_db_begin_rotation demo_os ''vpn.example'' 4433 ''alice'' ''v4'' ''beef''
     TUMGRD_ROTATION_PENDING_REMOTE 1700000000 (demo_sys [demo_row])))))"
  by (rule db_step_keeps_db_ok [OF db_step.begin_rot]) (auto simp: demo_sys_def demo_db_ok intro: surjective_pairing)


end
