(* ===== verification/Tumgrd_Runner.thy ===== *)
theory Tumgrd_Runner
  imports Tumgrd_Db
begin

text \<open>
  \<open>src/src/runner.c\<close>: running \<open>tuctl_client\<close> and \<open>ktuctl\<close> under a deadline.

  Time passes in \<open>tick\<close>, which stands before every system call and before every read of
  the flag \<open>g_watchdog_timed_out\<close>: the outside world decides how much of a running alarm
  is left there, and an expired alarm runs the handler at that point, or stays pending while
  SIGALRM is blocked. A system call that would block for ever (\<^const>\<open>Block\<close>) is woken by
  an armed and unblocked alarm with \<open>EINTR\<close>; without one the call never returns, which is
  the value \<^const>\<open>None\<close> of the definitions below. The exception is \<open>posix_spawnp\<close>, which no
  alarm wakes: see there.

  Logging, \<open>close\<close> and the destruction of the spawn attributes have no other effect than
  the one shown, and the buffers of \<open>exec_with_stdio\<close> are returned with its result.
\<close>

section \<open>The watchdog\<close>

definition watchdog_alarm_handler :: "'w sys \<Rightarrow> 'w sys" where
  "watchdog_alarm_handler s =
     s\<lparr>rt := (rt s)\<lparr>watchdog_timed_out := True, alarm_in := Some TUMGRD_SUBPROC_TIMEOUT_RETRY_S\<rparr>\<rparr>"

definition tumgrd_runner_install_watchdog :: "'w os \<Rightarrow> 'w sys \<Rightarrow> 'w sys" where
  "tumgrd_runner_install_watchdog os s =
     (let (rc, s) = ext (os_sigaction os) s
      in if rc < 0 then s\<lparr>rt := (rt s)\<lparr>watchdog_usable := False\<rparr>\<rparr>
         else s\<lparr>rt := (rt s)\<lparr>watchdog_usable := True\<rparr>\<rparr>)"

text \<open>\<open>alarm(n)\<close>, where 0 cancels the alarm.\<close>

definition alarm :: "nat \<Rightarrow> 'w sys \<Rightarrow> 'w sys" where
  "alarm n s = s\<lparr>rt := (rt s)\<lparr>alarm_in := (if n = 0 then None else Some n)\<rparr>\<rparr>"

text \<open>SIGALRM is generated: it runs the handler unless it is blocked.\<close>

definition raise_sigalrm :: "'w sys \<Rightarrow> 'w sys" where
  "raise_sigalrm s =
     (let s = s\<lparr>rt := (rt s)\<lparr>alarm_in := None\<rparr>\<rparr>
      in if sigalrm_blocked (rt s) then s\<lparr>rt := (rt s)\<lparr>sigalrm_pending := True\<rparr>\<rparr>
         else watchdog_alarm_handler s)"

definition tick :: "'w os \<Rightarrow> 'w sys \<Rightarrow> 'w sys" where
  "tick os s =
     (case alarm_in (rt s) of None \<Rightarrow> s
      | Some n \<Rightarrow>
          let (left, s) = ext (os_alarm_ticks os n) s
          in if left = 0 then raise_sigalrm s
             else s\<lparr>rt := (rt s)\<lparr>alarm_in := Some (min left n)\<rparr>\<rparr>)"

text \<open>\<open>sigprocmask(SIG_BLOCK, {SIGALRM}, old)\<close>\<close>

definition watchdog_mask_signal :: "'w sys \<Rightarrow> bool \<times> 'w sys" where
  "watchdog_mask_signal s = (sigalrm_blocked (rt s), s\<lparr>rt := (rt s)\<lparr>sigalrm_blocked := True\<rparr>\<rparr>)"

text \<open>\<open>sigprocmask(SIG_SETMASK, old, NULL)\<close>: a pending signal is delivered.\<close>

definition restore_mask :: "bool \<Rightarrow> 'w sys \<Rightarrow> 'w sys" where
  "restore_mask old s =
     (let s = s\<lparr>rt := (rt s)\<lparr>sigalrm_blocked := old\<rparr>\<rparr>
      in if \<not> old \<and> sigalrm_pending (rt s)
         then watchdog_alarm_handler (s\<lparr>rt := (rt s)\<lparr>sigalrm_pending := False\<rparr>\<rparr>) else s)"

text \<open>SIGALRM is pending at most once: \<open>sigtimedwait\<close> takes it and then fails.\<close>

definition watchdog_discard_pending :: "'w sys \<Rightarrow> 'w sys" where
  "watchdog_discard_pending s = s\<lparr>rt := (rt s)\<lparr>sigalrm_pending := False\<rparr>\<rparr>"

definition watchdog_arm :: "'w os \<Rightarrow> 'w sys \<Rightarrow> 'w sys" where
  "watchdog_arm os s =
     (let (old, s) = watchdog_mask_signal (tick os s);
          s = alarm 0 (tick os s);
          s = watchdog_discard_pending s;
          s = s\<lparr>rt := (rt s)\<lparr>watchdog_timed_out := False\<rparr>\<rparr>;
          s = (if watchdog_usable (rt s) then alarm TUMGRD_SUBPROC_TIMEOUT_S s else s)
      in restore_mask old s)"

definition watchdog_disarm :: "'w os \<Rightarrow> 'w sys \<Rightarrow> 'w sys" where
  "watchdog_disarm os s =
     (let (old, s) = watchdog_mask_signal (tick os s);
          s = alarm 0 (tick os s);
          s = watchdog_discard_pending s
      in restore_mask old s)"

text \<open>A system call that a signal can interrupt.\<close>

definition interruptible ::
  "'w os \<Rightarrow> ('w \<Rightarrow> 'a sysret \<times> 'w) \<Rightarrow> 'w sys \<Rightarrow> ((errno + 'a) \<times> 'w sys) option" where
  "interruptible os f s =
     (let (r, s) = ext f (tick os s)
      in case r of
           Ret a \<Rightarrow> Some (Inr a, s)
         | Err e \<Rightarrow> Some (Inl e, s)
         | Block \<Rightarrow>
             if alarm_in (rt s) \<noteq> None \<and> \<not> sigalrm_blocked (rt s)
             then Some (Inl EINTR, raise_sigalrm s) else None)"

text \<open>\<open>kill\<close> with SIGKILL: a negative target is a process group.\<close>

definition kill :: "'w os \<Rightarrow> int \<Rightarrow> 'w sys \<Rightarrow> 'w sys" where
  "kill os target s =
     (let (_, s) = ext (os_kill os target) s
      in s\<lparr>rt := (rt s)\<lparr>kills := (target, child (rt s)) # kills (rt s)\<rparr>\<rparr>)"

text \<open>\<open>waitpid(pid, status, 0)\<close>: when it returns \<open>pid\<close>, or fails with \<open>ECHILD\<close>, the child is gone.\<close>

definition waitpid ::
  "'w os \<Rightarrow> int \<Rightarrow> 'w sys \<Rightarrow> ((errno + wait_status) \<times> 'w sys) option" where
  "waitpid os pid s =
     do { (r, s) \<leftarrow> interruptible os (os_waitpid os pid) s;
          case r of
            Inr st \<Rightarrow> Some (r, s\<lparr>rt := (rt s)\<lparr>child := Reaped pid (Some st)\<rparr>\<rparr>)
          | Inl e \<Rightarrow>
              Some (r, if e = ECHILD then s\<lparr>rt := (rt s)\<lparr>child := Reaped pid None\<rparr>\<rparr> else s) }"

partial_function (option) reap_killed :: "'w os \<Rightarrow> int \<Rightarrow> 'w sys \<Rightarrow> (unit \<times> 'w sys) option" where
  "reap_killed os pid s =
     do { (r, s) \<leftarrow> waitpid os pid s;
          if r = Inl EINTR then reap_killed os pid (kill os pid s) else Some ((), s) }"

definition watchdog_check :: "'w os \<Rightarrow> int \<Rightarrow> 'w sys \<Rightarrow> (int \<times> 'w sys) option" where
  "watchdog_check os pid s =
     (let s = tick os s
      in if \<not> watchdog_timed_out (rt s) then Some (0, s)
         else if pid > 0 then
           do { (_, s) \<leftarrow> reap_killed os pid (kill os (- pid) s); Some (- 1, s) }
         else Some (- 1, s))"

section \<open>Small functions\<close>

definition sanitize_comment :: "string nullable \<Rightarrow> nat \<Rightarrow> string" where
  "sanitize_comment src dst_len =
     (case src of None \<Rightarrow> []
      | Some src \<Rightarrow>
          trim_inplace (map (\<lambda>c. if c = CHR 0x0A \<or> c = CHR 0x0D then CHR '' '' else c)
                          (take (dst_len - 1) src)))"

definition ip_version_flag :: "string nullable \<Rightarrow> string nullable" where
  "ip_version_flag ip_version =
     (if ip_version = None \<or> ip_version = Some [] then None
      else if streqcase ip_version (Some ''4'') \<or> streqcase ip_version (Some ''ipv4'') \<or>
              streqcase ip_version (Some ''-4'') then Some ''-4''
      else if streqcase ip_version (Some ''6'') \<or> streqcase ip_version (Some ''ipv6'') \<or>
              streqcase ip_version (Some ''-6'') then Some ''-6''
      else None)"

partial_function (option) read_all_loop ::
  "'w os \<Rightarrow> int \<Rightarrow> nat \<Rightarrow> string \<Rightarrow> 'w sys \<Rightarrow> ((int \<times> string) \<times> 'w sys) option" where
  "read_all_loop os fd buf_len buf s =
     do { (r, s) \<leftarrow> interruptible os (os_read os fd (buf_len - 1 - length buf)) s;
          case r of
            Inl e \<Rightarrow>
              (let s = tick os s
               in if e = EINTR \<and> \<not> watchdog_timed_out (rt s) then read_all_loop os fd buf_len buf s
                  else Some ((- 1, buf), s))
          | Inr bs \<Rightarrow>
              if bs = [] then Some ((0, buf), s)
              else if length (buf @ bs) \<ge> buf_len - 1 then Some ((0, buf @ bs), s)
              else read_all_loop os fd buf_len (buf @ bs) s }"

definition read_all_fd ::
  "'w os \<Rightarrow> int \<Rightarrow> nat \<Rightarrow> 'w sys \<Rightarrow> ((int \<times> string) \<times> 'w sys) option" where
  "read_all_fd os fd buf_len s =
     (if buf_len = 0 then Some ((- 1, []), s) else read_all_loop os fd buf_len [] s)"

fun log_args :: "nat \<Rightarrow> bool \<Rightarrow> string list \<Rightarrow> string" where
  "log_args off sensitive_next [] = []"
| "log_args off sensitive_next (a # argv) =
     (if off < 2048 - 32 then
        let t = (if sensitive_next then '' ****'' else CHR '' '' # a)
        in t @ log_args (off + length t) (strcasecmp_eq a ''psk'' \<or> strcasecmp_eq a ''xor'') argv
      else [])"

definition log_argv :: "string \<Rightarrow> string list \<Rightarrow> string" where
  "log_argv tag argv =
     (let head = ''[runner] '' @ tag @ '' exec:''
      in take 2047 (head @ log_args (length head) False argv))"

section \<open>Pipes\<close>

definition set_cloexec :: "'w os \<Rightarrow> int \<Rightarrow> 'w sys \<Rightarrow> int \<times> 'w sys" where
  "set_cloexec os fd s =
     (let (flags, s) = ext (os_fdflags os fd) s
      in if flags < 0 then (- 1, s) else ext (os_fdflags os fd) s)"

definition prepare_pipe_end :: "'w os \<Rightarrow> int \<Rightarrow> 'w sys \<Rightarrow> (int \<times> int) \<times> 'w sys" where
  "prepare_pipe_end os fd s =
     (if fd < 3 then
        let (newfd, s) = ext (os_dupfd os fd) s
        in if newfd < 0 then ((- 1, fd), s)
           else ((0, newfd), close_fd fd (fd_opened newfd s))
      else let (rc, s) = set_cloexec os fd s in ((rc, fd), s))"

text \<open>The pairs \<open>stdin_pipe\<close>, \<open>stdout_pipe\<close> and \<open>stderr_pipe\<close>, -1 for a descriptor not open.\<close>

record stdio_pipes =
  in_r :: int
  in_w :: int
  out_r :: int
  out_w :: int
  err_r :: int
  err_w :: int

text \<open>\<open>pipe(p)\<close> and \<open>prepare_pipe_end\<close> of both ends, leaving at the first failure.\<close>

definition open_pipe :: "'w os \<Rightarrow> 'w sys \<Rightarrow> (int \<times> int \<times> int) \<times> 'w sys" where
  "open_pipe os s =
     (let (p, s) = ext (os_pipe os) s
      in case p of None \<Rightarrow> ((- 1, - 1, - 1), s)
         | Some (r, w) \<Rightarrow>
             let s = fd_opened w (fd_opened r s);
                 ((rc, r), s) = prepare_pipe_end os r s
             in if rc < 0 then ((rc, r, w), s)
                else let ((rc, w), s) = prepare_pipe_end os w s in ((rc, r, w), s))"

definition open_pipes :: "'w os \<Rightarrow> 'w sys \<Rightarrow> (int \<times> stdio_pipes) \<times> 'w sys" where
  "open_pipes os s =
     (let p = \<lparr>in_r = - 1, in_w = - 1, out_r = - 1, out_w = - 1, err_r = - 1, err_w = - 1\<rparr>;
          ((rc, r, w), s) = open_pipe os s;
          p = p\<lparr>in_r := r, in_w := w\<rparr>
      in if rc < 0 then ((rc, p), s)
         else
           let ((rc, r, w), s) = open_pipe os s;
               p = p\<lparr>out_r := r, out_w := w\<rparr>
           in if rc < 0 then ((rc, p), s)
              else
                let ((rc, r, w), s) = open_pipe os s;
                    p = p\<lparr>err_r := r, err_w := w\<rparr>
                in ((if rc < 0 then rc else 0, p), s))"

definition close_if_open :: "int \<Rightarrow> 'w sys \<Rightarrow> 'w sys" where
  "close_if_open fd s = (if fd \<ge> 0 then close_fd fd s else s)"

definition close_pipes :: "stdio_pipes \<Rightarrow> 'w sys \<Rightarrow> 'w sys" where
  "close_pipes p s =
     close_if_open (err_w p) (close_if_open (err_r p) (close_if_open (out_w p)
       (close_if_open (out_r p) (close_if_open (in_w p) (close_if_open (in_r p) s)))))"

section \<open>exec_with_stdio\<close>

text \<open>
  The calls that build the file actions and the spawn attributes (initialisation, three
  \<open>adddup2\<close>, initialisation, \<open>setsigdefault\<close>, \<open>setpgroup\<close>, \<open>setflags\<close>), each of which
  returns 0 or a positive error code.
\<close>

fun spawn_attr_calls :: "'w os \<Rightarrow> nat \<Rightarrow> 'w sys \<Rightarrow> int \<times> 'w sys" where
  "spawn_attr_calls os 0 s = (0, s)"
| "spawn_attr_calls os (Suc n) s =
     (let (e, s) = ext (os_spawn_attr os) s
      in if - e < 0 then (- e, s) else spawn_attr_calls os n s)"

definition TUMGRD_MEMLIMIT_ENV_EQ :: string where
  "TUMGRD_MEMLIMIT_ENV_EQ = ''TUTUICMPTUNNEL_PWHASH_MEMLIMIT=''"

definition child_envp :: "string list \<Rightarrow> int \<Rightarrow> string list" where
  "child_envp environ memlimit =
     filter (\<lambda>e. \<not> is_prefix TUMGRD_MEMLIMIT_ENV_EQ e) environ @
     [snprintf_s 64 (TUMGRD_MEMLIMIT_ENV_EQ @ show_nat (nat (memlimit mod 2 ^ 32)))]"

definition build_envp :: "'w os \<Rightarrow> bool \<Rightarrow> int \<Rightarrow> 'w sys \<Rightarrow> (int \<times> string list) \<times> 'w sys" where
  "build_envp os has_memlimit memlimit s =
     (if \<not> has_memlimit then ((0, os_environ os), s)
      else
        let (ok, s) = ext (os_alloc os) s
        in if \<not> ok then ((neg_ENOMEM, []), s)
           else
             let (ok, s) = ext (os_alloc os) s
             in if \<not> ok then ((neg_ENOMEM, []), s)
                else ((0, child_envp (os_environ os) memlimit), s))"

text \<open>
  The one window that the watchdog does not cover: while the child execs, the parent waits in
  \<open>vfork\<close>, where SIGALRM does not interrupt it. A kernel that never ends this wait answers \<open>None\<close>,
  and then the call does not return, whatever the alarm does.
\<close>

definition posix_spawnp ::
  "'w os \<Rightarrow> string list \<Rightarrow> string list \<Rightarrow> 'w sys \<Rightarrow> ((int + int) \<times> 'w sys) option" where
  "posix_spawnp os argv envp s =
     (let (r, s) = ext (os_spawnp os argv envp) (tick os s)
      in case r of
           None \<Rightarrow> None
         | Some (Inl e) \<Rightarrow> Some (Inl e, s)
         | Some (Inr pid) \<Rightarrow>
             Some (Inr pid, s\<lparr>rt := (rt s)\<lparr>child := Alive pid, spawns :=
                \<lparr>sp_argv = argv, sp_envp = envp, sp_db = tbl (db s), sp_stdin = []\<rparr> # spawns (rt s)\<rparr>\<rparr>))"

text \<open>What the current child got on its standard input.\<close>

definition child_got :: "string \<Rightarrow> 'w sys \<Rightarrow> 'w sys" where
  "child_got bs s =
     s\<lparr>rt := (rt s)\<lparr>spawns := (case spawns (rt s) of [] \<Rightarrow> []
       | e # es \<Rightarrow> e\<lparr>sp_stdin := sp_stdin e @ bs\<rparr> # es)\<rparr>\<rparr>"

partial_function (option) feed_stdin ::
  "'w os \<Rightarrow> int \<Rightarrow> string \<Rightarrow> 'w sys \<Rightarrow> (unit \<times> 'w sys) option" where
  "feed_stdin os fd data s =
     (if data = [] then Some ((), s)
      else
        let s = tick os s
        in if watchdog_timed_out (rt s) then Some ((), s)
           else
             do { (r, s) \<leftarrow> interruptible os (os_write os fd data) s;
                  case r of
                    Inr n \<Rightarrow> feed_stdin os fd (drop n data) (child_got (take n data) s)
                  | Inl e \<Rightarrow>
                      (let s = tick os s
                       in if e = EINTR \<and> \<not> watchdog_timed_out (rt s) then feed_stdin os fd data s
                          else Some ((), s)) })"

datatype wait_outcome = WaitDone wait_status | WaitTimeout | WaitFailed

partial_function (option) wait_child ::
  "'w os \<Rightarrow> int \<Rightarrow> 'w sys \<Rightarrow> (wait_outcome \<times> 'w sys) option" where
  "wait_child os pid s =
     do { (r, s) \<leftarrow> waitpid os pid s;
          case r of
            Inr status \<Rightarrow> Some (WaitDone status, s)
          | Inl e \<Rightarrow>
              if e = EINTR then
                let s = tick os s
                in if watchdog_timed_out (rt s)
                   then do { (_, s) \<leftarrow> watchdog_check os pid s; Some (WaitTimeout, s) }
                   else wait_child os pid s
              else Some (WaitFailed, s) }"

text \<open>Reading one of the output pipes, if there is a buffer for it.\<close>

definition drain ::
  "'w os \<Rightarrow> int \<Rightarrow> nat \<Rightarrow> 'w sys \<Rightarrow> ((int \<times> string) \<times> 'w sys) option" where
  "drain os fd buf_len s = (if buf_len > 0 then read_all_fd os fd buf_len s else Some ((0, []), s))"

type_synonym exec_result = "int \<times> stdio_pipes \<times> string \<times> string"

text \<open>From the wait to \<open>err_cleanup\<close>.\<close>

definition exec_wait :: "'w os \<Rightarrow> int \<Rightarrow> 'w sys \<Rightarrow> (int \<times> 'w sys) option" where
  "exec_wait os pid s =
     do { (w, s) \<leftarrow> wait_child os pid s;
          case w of
            WaitTimeout \<Rightarrow> Some (- 1, s)
          | WaitFailed \<Rightarrow> Some (- 1, s)
          | WaitDone status \<Rightarrow>
              do { (rc, s) \<leftarrow> watchdog_check os (- 1) s;
                   if rc < 0 then Some (rc, s)
                   else if status \<noteq> Exited 0 then Some (- 1, s)
                   else Some (0, s) } }"

text \<open>From the spawned child to \<open>err_cleanup\<close>.\<close>

definition exec_child ::
  "'w os \<Rightarrow> int \<Rightarrow> stdio_pipes \<Rightarrow> string nullable \<Rightarrow> nat \<Rightarrow> nat \<Rightarrow> 'w sys
   \<Rightarrow> (exec_result \<times> 'w sys) option" where
  "exec_child os pid p stdin_data stdout_buf_len stderr_buf_len s =
     do { (rc, s) \<leftarrow> watchdog_check os pid s;
          if rc < 0 then Some ((rc, p, [], []), s) else
     do { let s = close_fd (err_w p) (close_fd (out_w p) (close_fd (in_r p) s));
          let p = p\<lparr>in_r := - 1, out_w := - 1, err_w := - 1\<rparr>;
          (_, s) \<leftarrow> feed_stdin os (in_w p) (the_default [] stdin_data) s;
          let s = close_fd (in_w p) s;
          let p = p\<lparr>in_w := - 1\<rparr>;
          (rc, s) \<leftarrow> watchdog_check os pid s;
          if rc < 0 then Some ((rc, p, [], []), s) else
     do { ((_, stdout_buf), s) \<leftarrow> drain os (out_r p) stdout_buf_len s;
          let s = close_fd (out_r p) s;
          let p = p\<lparr>out_r := - 1\<rparr>;
          (rc, s) \<leftarrow> watchdog_check os pid s;
          if rc < 0 then Some ((rc, p, stdout_buf, []), s) else
     do { ((_, stderr_buf), s) \<leftarrow> drain os (err_r p) stderr_buf_len s;
          let s = close_fd (err_r p) s;
          let p = p\<lparr>err_r := - 1\<rparr>;
          (rc, s) \<leftarrow> watchdog_check os pid s;
          if rc < 0 then Some ((rc, p, stdout_buf, stderr_buf), s) else
     do { (rc, s) \<leftarrow> exec_wait os pid s;
          Some ((rc, p, stdout_buf, stderr_buf), s) } } } } }"

text \<open>From the armed watchdog to \<open>err_cleanup\<close>.\<close>

definition exec_body ::
  "'w os \<Rightarrow> string list \<Rightarrow> string nullable \<Rightarrow> bool \<Rightarrow> int \<Rightarrow> nat \<Rightarrow> nat \<Rightarrow> 'w sys
   \<Rightarrow> (exec_result \<times> 'w sys) option" where
  "exec_body os argv stdin_data has_memlimit memlimit stdout_buf_len stderr_buf_len s =
     (let ((rc, p), s) = open_pipes os s
      in if rc < 0 then Some ((rc, p, [], []), s)
         else
           let (rc, s) = spawn_attr_calls os 8 s
           in if rc < 0 then Some ((rc, p, [], []), s)
              else
                let ((rc, envp), s) = build_envp os has_memlimit memlimit s
                in if rc < 0 then Some ((rc, p, [], []), s)
                   else
                     do { (r, s) \<leftarrow> posix_spawnp os argv envp s;
                          case r of Inl e \<Rightarrow> Some ((- 1, p, [], []), s)
                          | Inr pid \<Rightarrow>
                              exec_child os pid p stdin_data stdout_buf_len stderr_buf_len s })"

definition exec_with_stdio ::
  "'w os \<Rightarrow> string list \<Rightarrow> string nullable \<Rightarrow> bool \<Rightarrow> int \<Rightarrow> nat \<Rightarrow> nat \<Rightarrow> 'w sys
   \<Rightarrow> ((int \<times> string \<times> string) \<times> 'w sys) option" where
  "exec_with_stdio os argv stdin_data has_memlimit memlimit stdout_buf_len stderr_buf_len s =
     (if argv = [] then Some ((- 1, [], []), s)
      else
        do { let s = watchdog_arm os s;
             ((err, p, stdout_buf, stderr_buf), s) \<leftarrow>
               exec_body os argv stdin_data has_memlimit memlimit stdout_buf_len stderr_buf_len s;
             let s = watchdog_disarm os s;
             let s = (if err = 0 then s\<lparr>rt := (rt s)\<lparr>watchdog_timed_out := False\<rparr>\<rparr> else s);
             Some ((err, stdout_buf, stderr_buf), close_pipes p s) })"

section \<open>The external tools\<close>

definition tuctl_argv :: "tumgrd_node \<Rightarrow> string list" where
  "tuctl_argv node =
     [''tuctl_client''] @
     (case ip_version_flag (Some (n_ip_version node)) of None \<Rightarrow> [] | Some f \<Rightarrow> [f]) @
     [''max-retries'', ''1'', ''psk'', n_psk node, ''server'', n_server_host node, ''server-port'',
      snprintf_s 16 (show_int (n_server_port node)), ''script'', ''-'']"

definition run_tuctl_script ::
  "'w os \<Rightarrow> tumgrd_node \<Rightarrow> string \<Rightarrow> string \<Rightarrow> 'w sys \<Rightarrow> (int \<times> 'w sys) option" where
  "run_tuctl_script os node script success_marker s =
     do { ((rc, stdout_buf, stderr_buf), s) \<leftarrow>
            exec_with_stdio os (tuctl_argv node) (Some script) (n_has_memlimit node) (n_memlimit node)
              2048 2048 s;
          let stdout_buf = trim_inplace (cstr_of stdout_buf);
          let stderr_buf = trim_inplace (cstr_of stderr_buf);
          if rc \<noteq> 0 then Some (- 1, s)
          else if success_marker \<noteq> [] \<and> strstr stdout_buf success_marker = None \<and>
                  strstr stderr_buf success_marker = None then Some (- 1, s)
          else Some (0, s) }"

definition run_ktuctl :: "'w os \<Rightarrow> string list \<Rightarrow> 'w sys \<Rightarrow> (int \<times> 'w sys) option" where
  "run_ktuctl os argv s =
     do { ((rc, stdout_buf, stderr_buf), s) \<leftarrow> exec_with_stdio os argv None False 0 1024 1024 s;
          Some (rc, s) }"

definition server_add_script :: "tumgrd_node \<Rightarrow> string \<Rightarrow> string" where
  "server_add_script node address =
     (let comment = sanitize_comment (Some (n_client_comment node)) 256;
          comment_suffix = (if comment \<noteq> [] then snprintf_s 280 ('' comment '' @ comment) else []);
          xor_suffix = (if n_xor_key node \<noteq> [] then snprintf_s 140 ('' xor '' @ n_xor_key node) else [])
      in ''server-add uid '' @ n_uid node @ '' port '' @ show_int (n_client_port node) @
         '' address '' @ address @ xor_suffix @ comment_suffix @ [CHR 0x0A])"

text \<open>
  The script with the detected address, the only one or the fallback. \<open>asprintf\<close> fails
  without memory; then \<open>try2\<close> leaves with -1.
\<close>

definition server_add_detected :: "'w os \<Rightarrow> tumgrd_node \<Rightarrow> string \<Rightarrow> 'w sys \<Rightarrow> (int \<times> 'w sys) option" where
  "server_add_detected os node ip s =
     (let (ok, s) = ext (os_alloc os) s
      in if \<not> ok then Some (- 1, s)
         else do { (rc, s) \<leftarrow> run_tuctl_script os node (server_add_script node ip) ''server updated:'' s;
                   Some (if rc < 0 then rc else 0, s) })"

definition tumgrd_runner_server_add ::
  "'w os \<Rightarrow> tumgrd_node \<Rightarrow> tumgrd_config nullable \<Rightarrow> string nullable \<Rightarrow> 'w sys
   \<Rightarrow> (int \<times> 'w sys) option" where
  "tumgrd_runner_server_add os node cfg current_ip s =
     (case current_ip of None \<Rightarrow> Some (- 1, s)
      | Some ip \<Rightarrow>
          if ip = [] then Some (- 1, s)
          else if (case cfg of None \<Rightarrow> False | Some c \<Rightarrow> cfg_use_client_ip c) then
            let (ok, s) = ext (os_alloc os) s
            in if \<not> ok then Some (- 1, s)
               else do { (rc, s) \<leftarrow> run_tuctl_script os node (server_add_script node ''@client_ip@'')
                                      ''server updated:'' s;
                         if rc = 0 then Some (0, s)
                         else if watchdog_timed_out (rt s) then Some (- 1, s)
                         else server_add_detected os node ip s }
          else server_add_detected os node ip s)"

definition server_del_script :: "tumgrd_node \<Rightarrow> string" where
  "server_del_script node = ''server-del uid '' @ n_uid node @ [CHR 0x0A]"

definition tumgrd_runner_server_del ::
  "'w os \<Rightarrow> tumgrd_node \<Rightarrow> 'w sys \<Rightarrow> (int \<times> 'w sys) option" where
  "tumgrd_runner_server_del os node s =
     (let (ok, s) = ext (os_alloc os) s
      in if \<not> ok then Some (- 1, s)
         else do { (rc, s) \<leftarrow> run_tuctl_script os node (server_del_script node) ''server deleted:'' s;
                   Some (if rc < 0 then rc else 0, s) })"

definition client_add_argv :: "tumgrd_node \<Rightarrow> string list" where
  "client_add_argv node =
     [''ktuctl''] @
     (case ip_version_flag (Some (n_ip_version node)) of None \<Rightarrow> [] | Some f \<Rightarrow> [f]) @
     [''client-add'', ''address'', n_server_host node, ''port'',
      snprintf_s 16 (show_int (n_client_port node)), ''uid'', n_uid node] @
     (if n_description node \<noteq> [] then [''comment'', n_description node] else []) @
     (if n_xor_key node \<noteq> [] then [''xor'', n_xor_key node] else [])"

definition tumgrd_runner_client_add ::
  "'w os \<Rightarrow> tumgrd_node \<Rightarrow> 'w sys \<Rightarrow> (int \<times> 'w sys) option" where
  "tumgrd_runner_client_add os node s = run_ktuctl os (client_add_argv node) s"

definition client_del_argv :: "tumgrd_node \<Rightarrow> string list" where
  "client_del_argv node =
     [''ktuctl''] @
     (case ip_version_flag (Some (n_ip_version node)) of None \<Rightarrow> [] | Some f \<Rightarrow> [f]) @
     [''client-del'', ''address'', n_server_host node, ''uid'', n_uid node]"

definition tumgrd_runner_client_del ::
  "'w os \<Rightarrow> tumgrd_node \<Rightarrow> 'w sys \<Rightarrow> (int \<times> 'w sys) option" where
  "tumgrd_runner_client_del os node s = run_ktuctl os (client_del_argv node) s"

definition tumgrd_runner_reset_local_client ::
  "'w os \<Rightarrow> tumgrd_node \<Rightarrow> 'w sys \<Rightarrow> (int \<times> 'w sys) option" where
  "tumgrd_runner_reset_local_client os node s =
     do { (_, s) \<leftarrow> tumgrd_runner_client_del os node s;
          if watchdog_timed_out (rt s) then Some (- 1, s) else tumgrd_runner_client_add os node s }"

section \<open>What the calls of the runner leave alone\<close>

text \<open>
  \<open>settled s s'\<close>: database, watchdog configuration, started children and their input are as
  before, a raised deadline flag stays raised and a running alarm keeps running.
  \<open>calm s s'\<close>: moreover no signal was sent and the child was not reaped; \<open>quiet\<close> adds that the
  descriptors are the same. \<open>guards pid s s'\<close>: moreover signals may have been sent, but only to the child
  \<open>pid\<close> and its group while it was alive; \<open>supervises\<close> adds that the descriptors are the same.
\<close>

definition settled :: "'w sys \<Rightarrow> 'w sys \<Rightarrow> bool" where
  "settled s s' \<longleftrightarrow> db s' = db s \<and> watchdog_usable (rt s') = watchdog_usable (rt s) \<and>
     sigalrm_blocked (rt s') = sigalrm_blocked (rt s) \<and> spawns (rt s') = spawns (rt s) \<and>
     (watchdog_timed_out (rt s) \<longrightarrow> watchdog_timed_out (rt s')) \<and>
     (\<not> sigalrm_blocked (rt s) \<longrightarrow> alarm_in (rt s) \<noteq> None \<longrightarrow> alarm_in (rt s') \<noteq> None)"

definition calm :: "'w sys \<Rightarrow> 'w sys \<Rightarrow> bool" where
  "calm s s' \<longleftrightarrow> settled s s' \<and> child (rt s') = child (rt s) \<and> kills (rt s') = kills (rt s)"

definition quiet :: "'w sys \<Rightarrow> 'w sys \<Rightarrow> bool" where
  "quiet s s' \<longleftrightarrow> settled s s' \<and> child (rt s') = child (rt s) \<and> kills (rt s') = kills (rt s) \<and>
     open_fds (rt s') = open_fds (rt s)"

text \<open>A signal to the child itself or to its process group, sent while it was not reaped.\<close>

definition safe_kill :: "int \<Rightarrow> int \<times> child_state \<Rightarrow> bool" where
  "safe_kill pid k \<longleftrightarrow> (fst k = pid \<or> fst k = - pid) \<and> snd k = Alive pid"

definition guards :: "int \<Rightarrow> 'w sys \<Rightarrow> 'w sys \<Rightarrow> bool" where
  "guards pid s s' \<longleftrightarrow> settled s s' \<and>
     (\<exists>ks. kills (rt s') = ks @ kills (rt s) \<and> list_all (safe_kill pid) ks)"

definition supervises :: "int \<Rightarrow> 'w sys \<Rightarrow> 'w sys \<Rightarrow> bool" where
  "supervises pid s s' \<longleftrightarrow> guards pid s s' \<and> open_fds (rt s') = open_fds (rt s)"

lemma settled_refl [simp]: "settled s s"
  by (simp add: settled_def)

lemma settled_trans: "settled s t \<Longrightarrow> settled t u \<Longrightarrow> settled s u"
  by (simp add: settled_def)

lemma calm_refl [simp]: "calm s s"
  by (simp add: calm_def)

lemma calm_trans [trans]: "calm s t \<Longrightarrow> calm t u \<Longrightarrow> calm s u"
  unfolding calm_def using settled_trans by auto

lemma quiet_calm: "quiet s s' \<Longrightarrow> calm s s'"
  by (simp add: quiet_def calm_def)

lemma quiet_refl [simp]: "quiet s s"
  by (simp add: quiet_def)

lemma quiet_trans [trans]: "quiet s t \<Longrightarrow> quiet t u \<Longrightarrow> quiet s u"
  unfolding quiet_def using settled_trans by auto

lemma quiet_supervises: "quiet s s' \<Longrightarrow> supervises pid s s'"
  by (simp add: quiet_def supervises_def guards_def)

lemma calm_guards: "calm s s' \<Longrightarrow> guards pid s s'"
  by (simp add: calm_def guards_def)

lemma supervises_refl [simp]: "supervises pid s s"
  by (simp add: supervises_def guards_def)

lemma guards_trans [trans]:
  assumes "guards pid s t" "guards pid t u"
  shows "guards pid s u"
proof -
  obtain ks ls where "kills (rt t) = ks @ kills (rt s)" "list_all (safe_kill pid) ks"
    "kills (rt u) = ls @ kills (rt t)" "list_all (safe_kill pid) ls"
    using assms by (auto simp: guards_def)
  then have "kills (rt u) = (ls @ ks) @ kills (rt s)" "list_all (safe_kill pid) (ls @ ks)" by auto
  moreover have "settled s u" using assms settled_trans by (auto simp: guards_def)
  ultimately show ?thesis unfolding guards_def by blast
qed

lemma supervises_trans [trans]: "supervises pid s t \<Longrightarrow> supervises pid t u \<Longrightarrow> supervises pid s u"
  unfolding supervises_def using guards_trans by auto

lemma supervises_guards: "supervises pid s s' \<Longrightarrow> guards pid s s'"
  by (simp add: supervises_def)

lemma close_fd_guards: "guards pid s (close_fd fd s)"
  by (simp add: guards_def settled_def close_fd_def)

lemma quiet_child: "quiet s s' \<Longrightarrow> child (rt s') = child (rt s)"
  by (simp add: quiet_def)

lemma quiet_flag: "quiet s s' \<Longrightarrow> watchdog_timed_out (rt s) \<Longrightarrow> watchdog_timed_out (rt s')"
  by (simp add: quiet_def settled_def)

lemma raise_sigalrm_quiet: "quiet s (raise_sigalrm s)"
  by (simp add: raise_sigalrm_def watchdog_alarm_handler_def Let_def quiet_def settled_def)

lemma ext_quiet: "ext f s = (a, s') \<Longrightarrow> quiet s s'"
  by (drule ext_frame) (simp add: quiet_def settled_def)

lemma tick_quiet: "quiet s (tick os s)"
proof (cases "alarm_in (rt s)")
  case None
  then show ?thesis by (simp add: tick_def)
next
  case (Some n)
  obtain l s' where e: "ext (os_alarm_ticks os n) s = (l, s')" by fastforce
  have "quiet s' (s'\<lparr>rt := (rt s')\<lparr>alarm_in := Some (min l n)\<rparr>\<rparr>)"
    by (simp add: quiet_def settled_def)
  with Some e ext_quiet [OF e] raise_sigalrm_quiet [of s'] show ?thesis
    by (auto simp: tick_def intro: quiet_trans)
qed

lemma interruptible_quiet: "rsat (interruptible os f s) (\<lambda>_ s'. quiet s s')"
proof -
  obtain r s' where e: "ext f (tick os s) = (r, s')" by fastforce
  have "quiet s s'" using tick_quiet ext_quiet [OF e] by (rule quiet_trans)
  then show ?thesis
    using raise_sigalrm_quiet [of s'] quiet_trans
    by (cases r) (auto simp: interruptible_def e rsat_def)
qed

lemma kill_supervises:
  "child (rt s) = Alive pid \<Longrightarrow> target = pid \<or> target = - pid \<Longrightarrow>
   supervises pid s (kill os target s) \<and> child (rt (kill os target s)) = child (rt s)"
  by (auto simp: kill_def supervises_def guards_def settled_def safe_kill_def split: prod.splits dest!: ext_frame)

lemma waitpid_supervises:
  "rsat (waitpid os pid s) (\<lambda>r s'. supervises pid s s' \<and>
     (child (rt s') = (case r of Inr st \<Rightarrow> Reaped pid (Some st)
        | Inl e \<Rightarrow> if e = ECHILD then Reaped pid None else child (rt s))))"
proof -
  have "quiet s s' \<Longrightarrow> supervises pid s (s'\<lparr>rt := (rt s')\<lparr>child := c\<rparr>\<rparr>)" for s' c
    by (auto simp: quiet_def supervises_def guards_def settled_def)
  then show ?thesis
    unfolding waitpid_def
    by (intro vcg rsat_conseq [OF interruptible_quiet]) (auto dest: quiet_child simp: quiet_supervises)
qed

lemma reap_killed_supervises:
  assumes "reap_killed os pid s = Some (u, s')" "child (rt s) = Alive pid"
  shows "supervises pid s s'"
proof -
  let ?P = "\<lambda>os pid s (u, s'). child (rt s) = Alive pid \<longrightarrow> supervises pid s s'"
  have "?P os pid s (u, s')"
  proof (rule reap_killed.raw_induct [where P = ?P, OF _ assms(1)])
    fix rec :: "'w os \<Rightarrow> int \<Rightarrow> 'w sys \<Rightarrow> (unit \<times> 'w sys) option"
      and os :: "'w os" and pid and s :: "'w sys" and res
    assume IH: "\<And>os pid s y. rec os pid s = Some y \<Longrightarrow> ?P os pid s y"
      and eq: "do { (r, s) \<leftarrow> waitpid os pid s;
          if r = Inl EINTR then rec os pid (kill os pid s) else Some ((), s) } = Some res"
    have rec: "rsat (rec os pid t) (\<lambda>_ s'. supervises pid t s')" if "child (rt t) = Alive pid" for t
      using IH [of os pid t] that by (auto simp: rsat_def)
    have "rsat (do { (r, s) \<leftarrow> waitpid os pid s;
          if r = Inl EINTR then rec os pid (kill os pid s) else Some ((), s) })
        (\<lambda>_ s'. supervises pid s s')" if "child (rt s) = Alive pid"
    proof (intro vcg rsat_conseq [OF waitpid_supervises], goal_cases)
      case (1 a t r t')
      with that have alive: "child (rt t') = Alive pid" and sup: "supervises pid s t'" by auto
      have k: "supervises pid s (kill os pid t')" and "child (rt (kill os pid t')) = Alive pid"
        using kill_supervises [OF alive, of pid os] supervises_trans [OF sup] alive by auto
      then show ?case by (intro rsat_conseq [OF rec]) (auto intro: supervises_trans [OF k])
    qed auto
    with eq show "?P os pid s res" by (auto dest: rsatD)
  qed
  with assms(2) show ?thesis by simp
qed

lemma supervises_flag: "supervises pid s s' \<Longrightarrow> watchdog_timed_out (rt s) \<Longrightarrow> watchdog_timed_out (rt s')"
  by (simp add: supervises_def guards_def settled_def)

lemma watchdog_check_supervises:
  assumes "0 < pid \<Longrightarrow> child (rt s) = Alive pid"
  shows "rsat (watchdog_check os pid s) (\<lambda>rc s'. supervises pid s s' \<and> (rc = 0 \<or> rc = - 1) \<and>
     (rc = 0 \<or> pid \<le> 0 \<longrightarrow> quiet s s') \<and> (rc = - 1 \<longrightarrow> watchdog_timed_out (rt s')))"
proof -
  let ?s = "tick os s"
  note q = tick_quiet [of s os]
  show ?thesis
  proof (cases "watchdog_timed_out (rt ?s) \<and> 0 < pid")
    case False
    then have "watchdog_check os pid s = Some (if watchdog_timed_out (rt ?s) then - 1 else 0, ?s)"
      by (auto simp: watchdog_check_def Let_def)
    with False q show ?thesis by (auto simp: rsat_def quiet_supervises)
  next
    case True
    then have alive: "child (rt ?s) = Alive pid" using assms quiet_child [OF q] by simp
    have k: "supervises pid ?s (kill os (- pid) ?s)" "child (rt (kill os (- pid) ?s)) = Alive pid"
      using kill_supervises [OF alive, of "- pid" os] alive by auto
    have "rsat (reap_killed os pid (kill os (- pid) ?s)) (\<lambda>_ s'. supervises pid s s' \<and>
        watchdog_timed_out (rt s'))"
    proof (rule rsatI)
      fix u s' assume "reap_killed os pid (kill os (- pid) ?s) = Some (u, s')"
      then have r: "supervises pid ?s s'"
        using reap_killed_supervises k supervises_trans by blast
      then show "supervises pid s s' \<and> watchdog_timed_out (rt s')"
        using True supervises_flag [OF r] supervises_trans [OF quiet_supervises [OF q] r] by blast
    qed
    then show ?thesis
      using True unfolding watchdog_check_def Let_def
      by (auto intro!: vcg elim!: rsat_conseq)
  qed
qed

lemma read_all_loop_quiet: "rsat (read_all_loop os fd n buf s) (\<lambda>_ s'. quiet s s')"
proof (rule rsatI)
  fix a s' assume eq: "read_all_loop os fd n buf s = Some (a, s')"
  let ?P = "\<lambda>os fd n buf s (a, s'). quiet s s'"
  have "?P os fd n buf s (a, s')"
  proof (rule read_all_loop.raw_induct [where P = ?P, OF _ eq])
    fix rec :: "'w os \<Rightarrow> int \<Rightarrow> nat \<Rightarrow> string \<Rightarrow> 'w sys \<Rightarrow> ((int \<times> string) \<times> 'w sys) option"
      and os :: "'w os" and fd n buf and s :: "'w sys" and res
    let ?body = "do { (r, s) \<leftarrow> interruptible os (os_read os fd (n - 1 - length buf)) s;
          case r of
            Inl e \<Rightarrow>
              (let s = tick os s
               in if e = EINTR \<and> \<not> watchdog_timed_out (rt s) then rec os fd n buf s
                  else Some ((- 1, buf), s))
          | Inr bs \<Rightarrow>
              if bs = [] then Some ((0, buf), s)
              else if length (buf @ bs) \<ge> n - 1 then Some ((0, buf @ bs), s)
              else rec os fd n (buf @ bs) s }"
    assume IH: "\<And>os fd n buf s y. rec os fd n buf s = Some y \<Longrightarrow> ?P os fd n buf s y"
      and eq: "?body = Some res"
    have rec: "quiet s t \<Longrightarrow> rsat (rec os fd n b t) (\<lambda>_ s'. quiet s s')" for b t
      using IH [of os fd n b t] quiet_trans by (fastforce simp: rsat_def)
    have "rsat ?body (\<lambda>_ s'. quiet s s')"
      by (intro vcg rsat_conseq [OF interruptible_quiet] rec) (auto intro: quiet_trans [OF _ tick_quiet])
    with eq show "?P os fd n buf s res" by (auto dest: rsatD)
  qed
  then show "quiet s s'" by simp
qed

lemma read_all_fd_quiet: "rsat (read_all_fd os fd n s) (\<lambda>_ s'. quiet s s')"
  unfolding read_all_fd_def by (intro vcg read_all_loop_quiet) simp_all

lemma child_got_Nil [simp]: "child_got [] s = s"
  by (cases "spawns (rt s)") (simp_all add: child_got_def)

lemma child_got_append: "child_got b (child_got a s) = child_got (a @ b) s"
  by (cases "spawns (rt s)") (simp_all add: child_got_def)

lemma child_got_quiet: "quiet s s' \<Longrightarrow> quiet (child_got d s) (child_got d s')"
  by (simp add: quiet_def settled_def child_got_def)

lemma child_got_guards: "guards pid s s' \<Longrightarrow> guards pid (child_got d s) (child_got d s')"
  by (simp add: guards_def settled_def child_got_def)

lemma child_got_simps [simp]:
  "child (rt (child_got d s)) = child (rt s)" "open_fds (rt (child_got d s)) = open_fds (rt s)"
  "kills (rt (child_got d s)) = kills (rt s)"
  "db (child_got d s) = db s"
  by (simp_all add: child_got_def)

text \<open>The child gets a prefix of the data.\<close>

lemma feed_stdin_quiet:
  "rsat (feed_stdin os fd data s) (\<lambda>_ s'. \<exists>n. quiet (child_got (take n data) s) s')"
proof (rule rsatI)
  fix a s' assume eq: "feed_stdin os fd data s = Some (a, s')"
  let ?Q = "\<lambda>data s s'. \<exists>n. quiet (child_got (take n data) s) s'"
  let ?P = "\<lambda>os fd data s (a, s'). ?Q data s s'"
  have "?P os fd data s (a, s')"
  proof (rule feed_stdin.raw_induct [where P = ?P, OF _ eq])
    fix rec :: "'w os \<Rightarrow> int \<Rightarrow> string \<Rightarrow> 'w sys \<Rightarrow> (unit \<times> 'w sys) option"
      and os :: "'w os" and fd data and s :: "'w sys" and res
    let ?body = "if data = [] then Some ((), s)
      else
        let s = tick os s
        in if watchdog_timed_out (rt s) then Some ((), s)
           else
             do { (r, s) \<leftarrow> interruptible os (os_write os fd data) s;
                  case r of
                    Inr n \<Rightarrow> rec os fd (drop n data) (child_got (take n data) s)
                  | Inl e \<Rightarrow>
                      (let s = tick os s
                       in if e = EINTR \<and> \<not> watchdog_timed_out (rt s) then rec os fd data s
                          else Some ((), s)) }"
    assume IH: "\<And>os fd data s y. rec os fd data s = Some y \<Longrightarrow> ?P os fd data s y"
      and eq: "?body = Some res"
    have stay: "quiet s t \<Longrightarrow> ?Q data s t" for t
      by (intro exI [of _ 0]) simp
    have retry: "rsat (rec os fd data t) (\<lambda>_ s'. ?Q data s s')" if "quiet s t" for t
    proof (rule rsatI)
      fix a s' assume "rec os fd data t = Some (a, s')"
      then obtain n where "quiet (child_got (take n data) t) s'" using IH by fastforce
      then show "?Q data s s'" using child_got_quiet [OF that] quiet_trans by blast
    qed
    have more: "rsat (rec os fd (drop k data) (child_got (take k data) t)) (\<lambda>_ s'. ?Q data s s')"
      if "quiet s t" for t k
    proof (rule rsatI)
      fix a s' assume "rec os fd (drop k data) (child_got (take k data) t) = Some (a, s')"
      then obtain n where "quiet (child_got (take n (drop k data)) (child_got (take k data) t)) s'"
        using IH by fastforce
      moreover have "take k data @ take n (drop k data) = take (k + n) data"
        by (simp add: take_add)
      ultimately have "quiet (child_got (take (k + n) data) t) s'" by (simp add: child_got_append)
      then show "?Q data s s'" using child_got_quiet [OF that] quiet_trans by blast
    qed
    have "rsat ?body (\<lambda>_ s'. ?Q data s s')"
      by (intro vcg rsat_conseq [OF interruptible_quiet] retry more stay)
         (auto intro: quiet_trans [OF tick_quiet] quiet_trans tick_quiet)
    with eq show "?P os fd data s res" by (auto dest: rsatD)
  qed
  then show "\<exists>n. quiet (child_got (take n data) s) s'" by simp
qed

lemma supervises_quiet: "supervises pid s t \<Longrightarrow> quiet t u \<Longrightarrow> supervises pid s u"
  using quiet_supervises supervises_trans by blast

lemma wait_child_supervises:
  assumes "child (rt s) = Alive pid"
  shows "rsat (wait_child os pid s) (\<lambda>w s'. supervises pid s s' \<and>
     (\<forall>st. w = WaitDone st \<longrightarrow> child (rt s') = Reaped pid (Some st)))"
proof (rule rsatI)
  fix w s' assume eq: "wait_child os pid s = Some (w, s')"
  let ?Q = "\<lambda>pid s w s'. supervises pid s s' \<and>
     (\<forall>st. w = WaitDone st \<longrightarrow> child (rt s') = Reaped pid (Some st))"
  let ?P = "\<lambda>os pid s (w, s'). child (rt s) = Alive pid \<longrightarrow> ?Q pid s w s'"
  have "?P os pid s (w, s')"
  proof (rule wait_child.raw_induct [where P = ?P, OF _ eq])
    fix rec :: "'w os \<Rightarrow> int \<Rightarrow> 'w sys \<Rightarrow> (wait_outcome \<times> 'w sys) option"
      and os :: "'w os" and pid and s :: "'w sys" and res
    let ?body = "do { (r, s) \<leftarrow> waitpid os pid s;
          case r of
            Inr status \<Rightarrow> Some (WaitDone status, s)
          | Inl e \<Rightarrow>
              if e = EINTR then
                let s = tick os s
                in if watchdog_timed_out (rt s)
                   then do { (_, s) \<leftarrow> watchdog_check os pid s; Some (WaitTimeout, s) }
                   else rec os pid s
              else Some (WaitFailed, s) }"
    assume IH: "\<And>os pid s y. rec os pid s = Some y \<Longrightarrow> ?P os pid s y"
      and eq: "?body = Some res"
    have rec: "rsat (rec os pid t) (\<lambda>w s'. ?Q pid s w s')"
      if "supervises pid s t" "child (rt t) = Alive pid" for t
      using IH [of os pid t] that supervises_trans by (fastforce simp: rsat_def)
    have check: "rsat (watchdog_check os pid t) (\<lambda>_ s'. supervises pid s s')"
      if "supervises pid s t" "child (rt t) = Alive pid" for t
    proof (rule rsat_conseq [OF watchdog_check_supervises])
      fix rc u
      assume "supervises pid t u \<and> (rc = 0 \<or> rc = - 1) \<and> (rc = 0 \<or> pid \<le> 0 \<longrightarrow> quiet t u) \<and>
        (rc = - 1 \<longrightarrow> watchdog_timed_out (rt u))"
      then show "supervises pid s u" using supervises_trans [OF that(1)] by blast
    qed (rule that(2))
    have "rsat ?body (\<lambda>w s'. ?Q pid s w s')" if "child (rt s) = Alive pid"
      using that
      by (intro vcg rsat_conseq [OF waitpid_supervises] rec rsat_conseq [OF check])
         (auto intro: supervises_trans quiet_supervises tick_quiet simp: quiet_child [OF tick_quiet])
    with eq show "?P os pid s res" by (auto dest: rsatD)
  qed
  with assms show "?Q pid s w s'" by simp
qed

lemma exec_wait_supervises:
  assumes "child (rt s) = Alive pid"
  shows "rsat (exec_wait os pid s) (\<lambda>rc s'. supervises pid s s' \<and>
     (rc = 0 \<longrightarrow> child (rt s') = Reaped pid (Some (Exited 0))))"
proof -
  have check: "rsat (watchdog_check os (- 1) t) (\<lambda>rc s'. (rc = 0 \<or> rc = - 1) \<and>
      supervises pid s s' \<and> child (rt s') = child (rt t))" if "supervises pid s t" for t
    by (rule rsat_conseq [OF watchdog_check_supervises])
       (use that in \<open>auto simp: quiet_child intro: supervises_quiet\<close>)
  have "rsat (exec_wait os pid s) (\<lambda>rc s'. supervises pid s s' \<and>
     (rc = 0 \<longrightarrow> child (rt s') = Reaped pid (Some (Exited 0))))"
    unfolding exec_wait_def
  proof (intro vcg rsat_conseq [OF wait_child_supervises [OF assms]], goal_cases)
    case (1 a t w t')
    show ?case
    proof (cases w)
      case (WaitDone st)
      with 1 have "supervises pid s t'" "child (rt t') = Reaped pid (Some st)" by auto
      with WaitDone show ?thesis
        by (simp, intro vcg rsat_conseq [OF check]) auto
    qed (use 1 in \<open>auto intro: vcg\<close>)
  qed
  then show ?thesis .
qed

section \<open>Descriptors\<close>

text \<open>The descriptors of the pipes that are still open.\<close>

definition live :: "stdio_pipes \<Rightarrow> int multiset" where
  "live p = mset (filter (\<lambda>fd. 0 \<le> fd) [in_r p, in_w p, out_r p, out_w p, err_r p, err_w p])"

abbreviation fds :: "'w sys \<Rightarrow> int multiset" where
  "fds s \<equiv> mset (open_fds (rt s))"

lemma fds_close [simp]: "fds (close_fd fd s) = fds s - {#fd#}"
  by (simp add: close_fd_def)

lemma fds_opened [simp]: "fds (fd_opened fd s) = add_mset fd (fds s)"
  by (simp add: fd_opened_def)

lemma child_close [simp]: "child (rt (close_fd fd s)) = child (rt s)"
  by (simp add: close_fd_def)

lemma watchdog_check_guards:
  assumes alive: "child (rt s) = Alive pid"
  shows "rsat (watchdog_check os pid s) (\<lambda>rc u. guards pid s u \<and> fds u = fds s \<and>
      (rc = 0 \<or> rc = - 1) \<and> (rc = 0 \<longrightarrow> child (rt u) = Alive pid))"
proof (rule rsat_conseq [OF watchdog_check_supervises])
  fix rc u
  assume a: "supervises pid s u \<and> (rc = 0 \<or> rc = - 1) \<and> (rc = 0 \<or> pid \<le> 0 \<longrightarrow> quiet s u) \<and>
    (rc = - 1 \<longrightarrow> watchdog_timed_out (rt u))"
  then have "rc = 0 \<longrightarrow> child (rt u) = Alive pid" using quiet_child alive by metis
  with a show "guards pid s u \<and> fds u = fds s \<and> (rc = 0 \<or> rc = - 1) \<and>
      (rc = 0 \<longrightarrow> child (rt u) = Alive pid)" by (simp add: supervises_def)
qed (rule alive)

lemma exec_child_outcome:
  assumes alive: "child (rt s) = Alive pid" and fds: "fds s = base + live p"
    and pos: "0 \<le> in_r p" "0 \<le> in_w p" "0 \<le> out_r p" "0 \<le> out_w p" "0 \<le> err_r p" "0 \<le> err_w p"
  shows "rsat (exec_child os pid p data n m s) (\<lambda>(rc, p', so, se) s'.
     (\<exists>k. guards pid (child_got (take k (the_default [] data)) s) s') \<and> fds s' = base + live p' \<and>
     (rc = 0 \<longrightarrow> child (rt s') = Reaped pid (Some (Exited 0))))"
proof -
  define G where "G t \<longleftrightarrow> (\<exists>k. guards pid (child_got (take k (the_default [] data)) s) t)" for t
  have G0: "G s" unfolding G_def by (intro exI [of _ 0]) (simp add: guards_def)
  have G_sup: "G u" if "G t" "supervises pid t u" for t u
    using that supervises_guards guards_trans unfolding G_def by blast
  have G_close: "G (close_fd fd t)" if "G t" for fd t
    using that close_fd_guards guards_trans unfolding G_def by blast
  have check: "rsat (watchdog_check os pid t) (\<lambda>rc u. G u \<and> fds u = fds t \<and> (rc = 0 \<or> rc = - 1) \<and>
      (rc = 0 \<longrightarrow> child (rt u) = Alive pid))" if "G t" "child (rt t) = Alive pid" for t
  proof (rule rsat_conseq [OF watchdog_check_guards [OF that(2)]])
    fix rc u
    assume a: "guards pid t u \<and> fds u = fds t \<and> (rc = 0 \<or> rc = - 1) \<and>
      (rc = 0 \<longrightarrow> child (rt u) = Alive pid)"
    with that(1) have "G u" using guards_trans unfolding G_def by blast
    with a show "G u \<and> fds u = fds t \<and> (rc = 0 \<or> rc = - 1) \<and>
      (rc = 0 \<longrightarrow> child (rt u) = Alive pid)" by blast
  qed
  have read: "rsat (drain os fd k t) (\<lambda>_ u. G u \<and> fds u = fds t \<and> child (rt u) = child (rt t))"
    if "G t" for t k fd
    unfolding drain_def
  proof (intro vcg rsat_conseq [OF read_all_fd_quiet])
    fix u assume q: "quiet t u"
    then show "G u \<and> fds u = fds t \<and> child (rt u) = child (rt t)"
      using G_sup [OF that quiet_supervises [OF q]] by (simp add: quiet_def)
  qed (use that in simp)
  have wait: "rsat (exec_wait os pid t) (\<lambda>rc u. G u \<and> fds u = fds t \<and>
      (rc = 0 \<longrightarrow> child (rt u) = Reaped pid (Some (Exited 0))))" if "G t" "child (rt t) = Alive pid" for t
  proof (rule rsat_conseq [OF exec_wait_supervises [OF that(2)]])
    fix rc u
    assume a: "supervises pid t u \<and> (rc = 0 \<longrightarrow> child (rt u) = Reaped pid (Some (Exited 0)))"
    then have "G u" using G_sup [OF that(1)] by blast
    with a show "G u \<and> fds u = fds t \<and> (rc = 0 \<longrightarrow> child (rt u) = Reaped pid (Some (Exited 0)))"
      by (simp add: supervises_def)
  qed
  have feed: "rsat (feed_stdin os fd (the_default [] data) t) (\<lambda>_ u. G u \<and> fds u = fds t \<and>
      child (rt u) = child (rt t))" if "guards pid s t" for t fd
  proof (rule rsat_conseq [OF feed_stdin_quiet])
    fix u' :: unit and u
    assume "\<exists>k. quiet (child_got (take k (the_default [] data)) t) u"
    then obtain k where q: "quiet (child_got (take k (the_default [] data)) t) u" ..
    have "guards pid (child_got (take k (the_default [] data)) s) u"
      using child_got_guards [OF that] supervises_guards [OF quiet_supervises [OF q]]
      by (rule guards_trans)
    with q show "G u \<and> fds u = fds t \<and> child (rt u) = child (rt t)"
      unfolding G_def by (auto simp: quiet_def)
  qed
  have close: "guards pid s t \<Longrightarrow> guards pid s (close_fd fd t)" for fd t
    by (rule guards_trans [OF _ close_fd_guards])
  have G_guards: "guards pid s t \<Longrightarrow> G t" for t
    unfolding G_def by (intro exI [of _ 0]) simp
  have l: "live p = {#in_r p, in_w p, out_r p, out_w p, err_r p, err_w p#}"
    using pos by (simp add: live_def)
  have "rsat (exec_child os pid p data n m s) (\<lambda>(rc, p', so, se) t. G t \<and> fds t = base + live p' \<and>
     (rc = 0 \<longrightarrow> child (rt t) = Reaped pid (Some (Exited 0))))"
    unfolding exec_child_def Let_def
    by (intro vcg rsat_conseq [OF watchdog_check_guards [OF alive]] rsat_conseq [OF feed]
          rsat_conseq [OF check] rsat_conseq [OF read] rsat_conseq [OF wait])
       (auto simp: fds G_guards close G_close l live_def pos)
  then show ?thesis unfolding G_def .
qed

text \<open>\<open>pipe\<close> returns descriptors, which are not negative.\<close>

definition pipe_fds_ok :: "'w os \<Rightarrow> bool" where
  "pipe_fds_ok os \<longleftrightarrow> (\<forall>w r t w'. os_pipe os w = (Some (r, t), w') \<longrightarrow> 0 \<le> r \<and> 0 \<le> t)"

lemma ext_fds: "ext f s = (a, s') \<Longrightarrow> calm s s' \<and> fds s' = fds s"
  using ext_quiet [of f s a s'] by (auto simp: quiet_def calm_def)

lemma fd_moves_calm: "calm s (fd_opened fd s)" "calm s (close_fd fd s)"
  by (simp_all add: calm_def settled_def fd_opened_def close_fd_def)

lemma prepare_pipe_end_outcome:
  assumes "prepare_pipe_end os fd s = ((rc, fd'), s')" "fds s = add_mset fd M" "0 \<le> fd"
  shows "calm s s' \<and> 0 \<le> fd' \<and> fds s' = add_mset fd' M"
proof (cases "fd < 3")
  case True
  obtain nfd t where e: "ext (os_dupfd os fd) s = (nfd, t)" by fastforce
  note q = ext_fds [OF e]
  have "calm s (close_fd fd (fd_opened nfd t))"
    using q fd_moves_calm(1) [of t nfd] fd_moves_calm(2) [of "fd_opened nfd t" fd] calm_trans by blast
  with True assms e q show ?thesis by (auto simp: prepare_pipe_end_def split: if_splits)
next
  case False
  obtain fl t where e: "ext (os_fdflags os fd) s = (fl, t)" by fastforce
  obtain rc2 u where e2: "ext (os_fdflags os fd) t = (rc2, u)" by fastforce
  from False assms e e2 ext_fds [OF e] ext_fds [OF e2] show ?thesis
    by (auto simp: prepare_pipe_end_def set_cloexec_def split: if_splits intro: calm_trans)
qed

lemma open_pipe_outcome:
  assumes "open_pipe os s = ((rc, r, w), s')" "pipe_fds_ok os"
  shows "calm s s'" "fds s' = fds s + mset (filter (\<lambda>fd. 0 \<le> fd) [r, w])"
    "rc < 0 \<or> 0 \<le> r \<and> 0 \<le> w"
proof -
  obtain p t where e: "ext (os_pipe os) s = (p, t)" by fastforce
  note q = ext_fds [OF e]
  have "calm s s' \<and> fds s' = fds s + mset (filter (\<lambda>fd. 0 \<le> fd) [r, w]) \<and> (rc < 0 \<or> 0 \<le> r \<and> 0 \<le> w)"
  proof (cases p)
    case None
    with assms e q show ?thesis by (auto simp: open_pipe_def)
  next
    case (Some ab)
    obtain a b where p: "p = Some (a, b)" using Some by (cases ab) auto
    then have pos: "0 \<le> a" "0 \<le> b" using e assms(2) by (auto simp: pipe_fds_ok_def ext_result)
    let ?t = "fd_opened b (fd_opened a t)"
    have t: "calm s ?t" "fds ?t = add_mset a (add_mset b (fds s))"
      using calm_trans [OF calm_trans [OF conjunct1 [OF q] fd_moves_calm(1)] fd_moves_calm(1)] q
      by auto
    obtain rc1 a' u where e1: "prepare_pipe_end os a ?t = ((rc1, a'), u)" by (metis surj_pair)
    note u = prepare_pipe_end_outcome [OF e1 t(2) pos(1)]
    obtain rc2 b' v where e2: "prepare_pipe_end os b u = ((rc2, b'), v)" by (metis surj_pair)
    have "fds u = add_mset b (add_mset a' (fds s))" using u by (simp add: add_mset_commute)
    note v = prepare_pipe_end_outcome [OF e2 this pos(2)]
    from assms(1) p e e1 e2 u v pos calm_trans [OF t(1)] calm_trans show ?thesis
      by (auto simp: open_pipe_def add_mset_commute split: if_splits)
  qed
  then show "calm s s'" "fds s' = fds s + mset (filter (\<lambda>fd. 0 \<le> fd) [r, w])"
    "rc < 0 \<or> 0 \<le> r \<and> 0 \<le> w" by blast+
qed

lemma open_pipes_outcome:
  assumes "open_pipes os s = ((rc, p), s')" "pipe_fds_ok os"
  shows "calm s s' \<and> fds s' = fds s + live p \<and> (rc < 0 \<or>
    0 \<le> in_r p \<and> 0 \<le> in_w p \<and> 0 \<le> out_r p \<and> 0 \<le> out_w p \<and> 0 \<le> err_r p \<and> 0 \<le> err_w p)"
proof -
  obtain rc1 a b s1 where 1: "open_pipe os s = ((rc1, a, b), s1)" by (metis surj_pair)
  obtain rc2 c d s2 where 2: "open_pipe os s1 = ((rc2, c, d), s2)" by (metis surj_pair)
  obtain rc3 e f s3 where 3: "open_pipe os s2 = ((rc3, e, f), s3)" by (metis surj_pair)
  note o1 = open_pipe_outcome [OF 1 assms(2)]
  note o2 = open_pipe_outcome [OF 2 assms(2)]
  note o3 = open_pipe_outcome [OF 3 assms(2)]
  note c2 = calm_trans [OF o1(1) o2(1)]
  note c3 = calm_trans [OF c2 o3(1)]
  show ?thesis
  proof (cases "rc1 < 0")
    case True
    then have "p = \<lparr>in_r = a, in_w = b, out_r = - 1, out_w = - 1, err_r = - 1, err_w = - 1\<rparr>"
      "s' = s1" "rc = rc1" using assms(1) 1 by (simp_all add: open_pipes_def)
    with True o1(1,2) show ?thesis by (simp add: live_def)
  next
    case F1: False
    show ?thesis
    proof (cases "rc2 < 0")
      case True
      with F1 have "p = \<lparr>in_r = a, in_w = b, out_r = c, out_w = d, err_r = - 1, err_w = - 1\<rparr>"
        "s' = s2" "rc = rc2" using assms(1) 1 2 by (simp_all add: open_pipes_def)
      with True c2 o1(2) o2(2) show ?thesis by (simp add: live_def)
    next
      case False
      with F1 have "p = \<lparr>in_r = a, in_w = b, out_r = c, out_w = d, err_r = e, err_w = f\<rparr>"
        "s' = s3" "rc = (if rc3 < 0 then rc3 else 0)" using assms(1) 1 2 3 by (simp_all add: open_pipes_def)
      with F1 False c3 o1(2,3) o2(2,3) o3(2,3) show ?thesis
        by (cases "rc3 < 0") (simp_all add: live_def)
    qed
  qed
qed

lemma close_pipes_outcome:
  assumes "fds s = base + live p"
  shows "fds (close_pipes p s) = base" "calm s (close_pipes p s)"
proof -
  have f: "fds (close_if_open fd t) = fds t - mset (filter (\<lambda>fd. 0 \<le> fd) [fd])" for fd t
    by (simp add: close_if_open_def)
  have c: "calm t (close_if_open fd t)" for fd t
    by (simp add: close_if_open_def fd_moves_calm)
  show "fds (close_pipes p s) = base"
    unfolding close_pipes_def f assms live_def by simp
  show "calm s (close_pipes p s)"
    unfolding close_pipes_def by (intro calm_trans [OF _ c] calm_refl)
qed

section \<open>One run of an external tool\<close>

text \<open>
  \<open>ran os argv data hm ml s s'\<close>: one child was started with \<open>argv\<close> and the environment for
  the memory limit, got a prefix of \<open>data\<close> on its standard input, and was never signalled
  after it had been reaped.
\<close>

definition run_envp :: "'w os \<Rightarrow> bool \<Rightarrow> int \<Rightarrow> string list" where
  "run_envp os hm ml = (if hm then child_envp (os_environ os) ml else os_environ os)"

definition ran ::
  "'w os \<Rightarrow> string list \<Rightarrow> string \<Rightarrow> bool \<Rightarrow> int \<Rightarrow> int \<Rightarrow> 'w sys \<Rightarrow> 'w sys \<Rightarrow> bool" where
  "ran os argv data hm ml pid s s' \<longleftrightarrow>
     (\<exists>k. spawns (rt s') = \<lparr>sp_argv = argv, sp_envp = run_envp os hm ml, sp_db = tbl (db s),
        sp_stdin = take k data\<rparr> # spawns (rt s)) \<and>
     (\<exists>ks. kills (rt s') = ks @ kills (rt s) \<and> list_all (safe_kill pid) ks)"

definition same_config :: "'w sys \<Rightarrow> 'w sys \<Rightarrow> bool" where
  "same_config s s' \<longleftrightarrow> db s' = db s \<and> watchdog_usable (rt s') = watchdog_usable (rt s) \<and>
     sigalrm_blocked (rt s') = sigalrm_blocked (rt s)"

definition no_run :: "'w sys \<Rightarrow> 'w sys \<Rightarrow> bool" where
  "no_run s s' \<longleftrightarrow> spawns (rt s') = spawns (rt s) \<and>
     kills (rt s') = kills (rt s)"

lemma calm_no_run: "calm s s' \<Longrightarrow> no_run s s' \<and> same_config s s'"
  by (simp add: calm_def settled_def no_run_def same_config_def)

lemma spawn_attr_calls_quiet: "spawn_attr_calls os n s = (rc, s') \<Longrightarrow> quiet s s'"
proof (induction n arbitrary: s)
  case (Suc n)
  obtain e t where e: "ext (os_spawn_attr os) s = (e, t)" by fastforce
  with Suc ext_quiet [OF e] show ?case by (auto split: if_splits intro: quiet_trans)
qed simp

lemma build_envp_outcome:
  assumes "build_envp os hm ml s = ((rc, envp), s')"
  shows "quiet s s' \<and> (rc < 0 \<or> envp = run_envp os hm ml)"
proof -
  obtain a t where 1: "ext (os_alloc os) s = (a, t)" by fastforce
  obtain b u where 2: "ext (os_alloc os) t = (b, u)" by fastforce
  from assms 1 2 ext_quiet [OF 1] quiet_trans [OF ext_quiet [OF 1] ext_quiet [OF 2]] show ?thesis
    by (auto simp: build_envp_def run_envp_def neg_ENOMEM_def split: if_splits)
qed

lemma posix_spawnp_outcome:
  assumes "posix_spawnp os argv envp s = Some (r, s')"
  shows "(\<exists>e. r = Inl e) \<and> quiet s s' \<or>
    (\<exists>pid t. r = Inr pid \<and> quiet s t \<and> s' = t\<lparr>rt := (rt t)\<lparr>child := Alive pid, 
       spawns := \<lparr>sp_argv = argv, sp_envp = envp, sp_db = tbl (db t), sp_stdin = []\<rparr> # spawns (rt t)\<rparr>\<rparr>)"
proof -
  obtain q t where e: "ext (os_spawnp os argv envp) (tick os s) = (q, t)" by fastforce
  have "quiet s t" using quiet_trans [OF tick_quiet ext_quiet [OF e]] .
  with assms e show ?thesis by (auto simp: posix_spawnp_def split: option.splits sum.splits)
qed

lemma exec_body_outcome:
  assumes "pipe_fds_ok os"
  shows "rsat (exec_body os argv data hm ml n m s) (\<lambda>(rc, p, so, se) s'. same_config s s' \<and>
    fds s' = fds s + live p \<and>
    (rc \<noteq> 0 \<and> no_run s s' \<or>
     (\<exists>pid. ran os argv (the_default [] data) hm ml pid s s' \<and>
        (rc = 0 \<longrightarrow> child (rt s') = Reaped pid (Some (Exited 0))))))"
proof -
  obtain rc1 p s1 where 1: "open_pipes os s = ((rc1, p), s1)" by (metis surj_pair)
  obtain rc2 s2 where 2: "spawn_attr_calls os 8 s1 = (rc2, s2)" by fastforce
  obtain rc3 envp s3 where 3: "build_envp os hm ml s2 = ((rc3, envp), s3)" by (metis surj_pair)
  note p = open_pipes_outcome [OF 1 assms]
  have c1: "calm s s1" and f1: "fds s1 = fds s + live p" using p by auto
  have q2: "quiet s1 s2" by (rule spawn_attr_calls_quiet [OF 2])
  have q3: "quiet s1 s3" using quiet_trans [OF q2] build_envp_outcome [OF 3] by blast
  have early: "rsat (Some ((rc, p, [], []), t)) (\<lambda>(rc, p, so, se) s'. same_config s s' \<and>
      fds s' = fds s + live p \<and> (rc \<noteq> 0 \<and> no_run s s' \<or>
     (\<exists>pid. ran os argv (the_default [] data) hm ml pid s s' \<and>
        (rc = 0 \<longrightarrow> child (rt s') = Reaped pid (Some (Exited 0))))))" if "quiet s1 t" "rc < 0" for rc :: int and t
  proof -
    have "calm s t" using calm_trans [OF c1 quiet_calm [OF that(1)]] .
    then show ?thesis
      using calm_no_run [of s t] that f1 by (auto simp: rsat_def quiet_def)
  qed
  show ?thesis
  proof (cases "rc1 < 0 \<or> rc2 < 0 \<or> rc3 < 0")
    case True
    then show ?thesis
      using early [of s1 rc1] early [of s2 rc2] early [of s3 rc3] q2 q3
      by (auto simp: exec_body_def 1 2 3 simp del: spawn_attr_calls.simps)
  next
    case False
    then have envp: "envp = run_envp os hm ml" using build_envp_outcome [OF 3] by auto
    show ?thesis
    proof (cases "posix_spawnp os argv envp s3 = None")
      case True
      with False show ?thesis by (simp add: exec_body_def 1 2 3)
    next
      case spawned: False
      then obtain r s4 where 4: "posix_spawnp os argv envp s3 = Some (r, s4)" by auto
      from False have body: "exec_body os argv data hm ml n m s =
          (case r of Inl e \<Rightarrow> Some ((- 1, p, [], []), s4) | Inr pid \<Rightarrow> exec_child os pid p data n m s4)"
        by (simp add: exec_body_def 1 2 3 4)
      show ?thesis
      proof (cases r)
        case (Inl e)
        with posix_spawnp_outcome [OF 4] have "quiet s3 s4" by auto
        with early [of s4 "- 1"] quiet_trans [OF q3] Inl body show ?thesis by simp
      next
        case (Inr pid)
        with posix_spawnp_outcome [OF 4] obtain t where t: "quiet s3 t" and
          s4: "s4 = t\<lparr>rt := (rt t)\<lparr>child := Alive pid, 
           spawns := \<lparr>sp_argv = argv, sp_envp = envp, sp_db = tbl (db t), sp_stdin = []\<rparr> # spawns (rt t)\<rparr>\<rparr>" by auto
        have ct: "calm s t" using calm_trans [OF c1 quiet_calm [OF quiet_trans [OF q3 t]]] .
        have "fds s4 = fds s + live p" using f1 quiet_trans [OF q3 t] by (simp add: s4 quiet_def)
        moreover have "child (rt s4) = Alive pid" by (simp add: s4)
        ultimately have out: "rsat (exec_child os pid p data n m s4) (\<lambda>(rc, p', so, se) s'.
           (\<exists>k. guards pid (child_got (take k (the_default [] data)) s4) s') \<and> fds s' = fds s + live p' \<and>
           (rc = 0 \<longrightarrow> child (rt s') = Reaped pid (Some (Exited 0))))"
          using False p by (intro exec_child_outcome) auto
        have "same_config s u \<and> ran os argv (the_default [] data) hm ml pid s u"
          if "guards pid (child_got (take k (the_default [] data)) s4) u" for k u
          using that calm_no_run [OF ct]
          by (auto simp: guards_def settled_def same_config_def ran_def no_run_def s4 child_got_def envp)
        then show ?thesis
          unfolding body Inr by (simp, intro rsat_conseq [OF out]) (auto split: prod.splits)
      qed
    qed
  qed
qed

lemma watchdog_arm_calm: "same_config s (watchdog_arm os s) \<and> no_run s (watchdog_arm os s) \<and>
   fds (watchdog_arm os s) = fds s"
proof -
  have t: "same_config s (tick os s)" "no_run s (tick os s)" "fds (tick os s) = fds s" for s
    using tick_quiet [of s os] calm_no_run [OF quiet_calm [OF tick_quiet [of s os]]] by (auto simp: quiet_def)
  let ?a = "tick os s" and ?b = "tick os ((tick os s)\<lparr>rt := (rt (tick os s))\<lparr>sigalrm_blocked := True\<rparr>\<rparr>)"
  have b: "db ?b = db s" "watchdog_usable (rt ?b) = watchdog_usable (rt s)" "fds ?b = fds s"
    "spawns (rt ?b) = spawns (rt s)" "kills (rt ?b) = kills (rt s)"
    using t [of "?a\<lparr>rt := (rt ?a)\<lparr>sigalrm_blocked := True\<rparr>\<rparr>"] t [of s]
    by (simp_all add: same_config_def no_run_def)
  have "sigalrm_blocked (rt ?a) = sigalrm_blocked (rt s)" using t [of s] by (simp add: same_config_def)
  with b show ?thesis
    by (auto simp: watchdog_arm_def watchdog_mask_signal_def alarm_def watchdog_discard_pending_def
        restore_mask_def same_config_def no_run_def Let_def)
qed

lemma watchdog_disarm_calm:
  "same_config s (watchdog_disarm os s) \<and> no_run s (watchdog_disarm os s) \<and>
   fds (watchdog_disarm os s) = fds s \<and> child (rt (watchdog_disarm os s)) = child (rt s) \<and>
   alarm_in (rt (watchdog_disarm os s)) = None \<and> \<not> sigalrm_pending (rt (watchdog_disarm os s))"
proof -
  have t: "same_config s (tick os s)" "no_run s (tick os s)" "fds (tick os s) = fds s"
    "child (rt (tick os s)) = child (rt s)" for s
    using tick_quiet [of s os] calm_no_run [OF quiet_calm [OF tick_quiet [of s os]]] by (auto simp: quiet_def)
  let ?a = "tick os s" and ?b = "tick os ((tick os s)\<lparr>rt := (rt (tick os s))\<lparr>sigalrm_blocked := True\<rparr>\<rparr>)"
  have b: "db ?b = db s" "watchdog_usable (rt ?b) = watchdog_usable (rt s)" "fds ?b = fds s"
    "spawns (rt ?b) = spawns (rt s)" "kills (rt ?b) = kills (rt s)"
    "child (rt ?b) = child (rt s)"
    using t [of "?a\<lparr>rt := (rt ?a)\<lparr>sigalrm_blocked := True\<rparr>\<rparr>"] t [of s]
    by (simp_all add: same_config_def no_run_def)
  have "sigalrm_blocked (rt ?a) = sigalrm_blocked (rt s)" using t [of s] by (simp add: same_config_def)
  with b show ?thesis
    by (auto simp: watchdog_disarm_def watchdog_mask_signal_def alarm_def watchdog_discard_pending_def
        restore_mask_def same_config_def no_run_def Let_def)
qed

text \<open>Everything the callers rely on of one call of \<open>exec_with_stdio\<close>.\<close>

definition exec_effect ::
  "'w os \<Rightarrow> string list \<Rightarrow> string \<Rightarrow> bool \<Rightarrow> int \<Rightarrow> int \<Rightarrow> 'w sys \<Rightarrow> 'w sys \<Rightarrow> bool" where
  "exec_effect os argv data hm ml rc s s' \<longleftrightarrow> same_config s s' \<and> fds s' = fds s \<and>
     alarm_in (rt s') = None \<and> \<not> sigalrm_pending (rt s') \<and>
     (rc \<noteq> 0 \<and> no_run s s' \<or>
      (\<exists>pid. ran os argv data hm ml pid s s' \<and>
         (rc = 0 \<longrightarrow> child (rt s') = Reaped pid (Some (Exited 0)) \<and> \<not> watchdog_timed_out (rt s'))))"

lemma exec_with_stdio_effect:
  assumes "pipe_fds_ok os" "argv \<noteq> []"
  shows "rsat (exec_with_stdio os argv data hm ml n m s)
    (\<lambda>(rc, so, se) s'. exec_effect os argv (the_default [] data) hm ml rc s s')"
proof -
  have arm: "same_config s (watchdog_arm os s)" "no_run s (watchdog_arm os s)"
    "fds (watchdog_arm os s) = fds s" using watchdog_arm_calm [of s os] by auto
  have fin: "exec_effect os argv (the_default [] data) hm ml rc s (close_pipes p
      (if rc = 0 then (watchdog_disarm os t)\<lparr>rt := (rt (watchdog_disarm os t))\<lparr>watchdog_timed_out := False\<rparr>\<rparr>
       else watchdog_disarm os t))"
    if "same_config (watchdog_arm os s) t" "fds t = fds (watchdog_arm os s) + live p"
      and out: "rc \<noteq> 0 \<and> no_run (watchdog_arm os s) t \<or>
       (\<exists>pid. ran os argv (the_default [] data) hm ml pid (watchdog_arm os s) t \<and>
        (rc = 0 \<longrightarrow> child (rt t) = Reaped pid (Some (Exited 0))))" for rc :: int and p t
  proof -
    let ?d = "watchdog_disarm os t"
    let ?e = "if rc = 0 then ?d\<lparr>rt := (rt ?d)\<lparr>watchdog_timed_out := False\<rparr>\<rparr> else ?d"
    note d = watchdog_disarm_calm [of t os]
    have e: "same_config t ?e" "no_run t ?e" "fds ?e = fds s + live p" "child (rt ?e) = child (rt t)"
      "alarm_in (rt ?e) = None" "\<not> sigalrm_pending (rt ?e)" "rc = 0 \<longrightarrow> \<not> watchdog_timed_out (rt ?e)"
      using d that(2) arm(3) by (simp_all add: same_config_def no_run_def)
    have c: "close_pipes p u = u\<lparr>rt := (rt u)\<lparr>open_fds := open_fds (rt (close_pipes p u))\<rparr>\<rparr>"
      for u :: "'a sys"
      by (simp add: close_pipes_def close_if_open_def close_fd_def)
    have f: "fds (close_pipes p ?e) = fds s" by (rule close_pipes_outcome(1) [OF e(3)])
    have k: "same_config t (close_pipes p ?e)" "no_run t (close_pipes p ?e)"
      "child (rt (close_pipes p ?e)) = child (rt t)" "alarm_in (rt (close_pipes p ?e)) = None"
      "\<not> sigalrm_pending (rt (close_pipes p ?e))"
      "rc = 0 \<longrightarrow> \<not> watchdog_timed_out (rt (close_pipes p ?e))"
      using e by (subst c, simp add: same_config_def no_run_def)+
    have "same_config s (close_pipes p ?e)" using k(1) that(1) arm(1) by (simp add: same_config_def)
    with out k f arm show ?thesis
      unfolding exec_effect_def by (auto simp: ran_def no_run_def same_config_def)
  qed
  show ?thesis
    unfolding exec_with_stdio_def Let_def
    using assms by (auto intro!: vcg rsat_conseq [OF exec_body_outcome] fin)
qed

section \<open>The contract of the tool operations\<close>

text \<open>
  What the reconciler relies on of an operation that runs external tools: the database and
  the descriptors stay as they are, every child was started on the database of the call
  with an argument list and input satisfying \<open>P\<close>, and no signal was sent to a reaped child.
\<close>

definition tool_effect :: "(string list \<Rightarrow> string \<Rightarrow> bool) \<Rightarrow> 'w sys \<Rightarrow> 'w sys \<Rightarrow> bool" where
  "tool_effect P s s' \<longleftrightarrow> same_config s s' \<and> fds s' = fds s \<and>
     (\<exists>es. spawns (rt s') = es @ spawns (rt s) \<and>
        list_all (\<lambda>e. P (sp_argv e) (sp_stdin e) \<and> sp_db e = tbl (db s)) es) \<and>
     (\<exists>ks. kills (rt s') = ks @ kills (rt s) \<and> list_all (\<lambda>k. \<exists>pid. safe_kill pid k) ks)"

lemma tool_effect_refl [simp]: "tool_effect P s s"
  by (simp add: tool_effect_def same_config_def)

lemma tool_effect_trans [trans]:
  assumes "tool_effect P s t" "tool_effect P t u"
  shows "tool_effect P s u"
proof -
  from assms(1) obtain es ks where 1: "spawns (rt t) = es @ spawns (rt s)"
    "list_all (\<lambda>e. P (sp_argv e) (sp_stdin e) \<and> sp_db e = tbl (db s)) es"
    "kills (rt t) = ks @ kills (rt s)" "list_all (\<lambda>k. \<exists>pid. safe_kill pid k) ks"
    by (auto simp: tool_effect_def)
  from assms(2) obtain fs ls where 2: "spawns (rt u) = fs @ spawns (rt t)"
    "list_all (\<lambda>e. P (sp_argv e) (sp_stdin e) \<and> sp_db e = tbl (db t)) fs"
    "kills (rt u) = ls @ kills (rt t)" "list_all (\<lambda>k. \<exists>pid. safe_kill pid k) ls"
    by (auto simp: tool_effect_def)
  have d: "db t = db s" using assms(1) by (simp add: tool_effect_def same_config_def)
  have "spawns (rt u) = (fs @ es) @ spawns (rt s)"
    "list_all (\<lambda>e. P (sp_argv e) (sp_stdin e) \<and> sp_db e = tbl (db s)) (fs @ es)"
    "kills (rt u) = (ls @ ks) @ kills (rt s)" "list_all (\<lambda>k. \<exists>pid. safe_kill pid k) (ls @ ks)"
    using 1 2 d by simp_all
  moreover have "same_config s u" "fds u = fds s"
    using assms by (auto simp: tool_effect_def same_config_def)
  ultimately show ?thesis unfolding tool_effect_def by blast
qed

lemma tool_effect_mono:
  assumes "tool_effect P s t" "\<And>a i. P a i \<Longrightarrow> Q a i"
  shows "tool_effect Q s t"
  using assms by (auto simp: tool_effect_def list_all_iff)

lemma calm_tool: "calm s s' \<Longrightarrow> fds s' = fds s \<Longrightarrow> tool_effect P s s'"
  by (simp add: calm_def settled_def tool_effect_def same_config_def)

lemma ext_tool: "ext f s = (a, s') \<Longrightarrow> tool_effect P s s'"
  using ext_fds [of f s a s'] calm_tool by blast

lemma exec_effect_tool:
  assumes "exec_effect os argv data hm ml rc s s'" "\<And>k. P argv (take k data)"
  shows "tool_effect P s s'"
proof (cases "no_run s s'")
  case True
  with assms(1) show ?thesis by (simp add: exec_effect_def no_run_def tool_effect_def)
next
  case False
  with assms(1) obtain pid where "ran os argv data hm ml pid s s'" by (auto simp: exec_effect_def)
  then obtain k ks where "spawns (rt s') = [\<lparr>sp_argv = argv, sp_envp = run_envp os hm ml,
      sp_db = tbl (db s), sp_stdin = take k data\<rparr>] @ spawns (rt s)"
    "kills (rt s') = ks @ kills (rt s)" "list_all (safe_kill pid) ks"
    by (auto simp: ran_def)
  moreover from this(3) have "list_all (\<lambda>k. \<exists>pid. safe_kill pid k) ks" by (auto simp: list_all_iff)
  moreover have "same_config s s'" "fds s' = fds s" using assms(1) by (auto simp: exec_effect_def)
  ultimately show ?thesis using assms(2) unfolding tool_effect_def by fastforce
qed

section \<open>Every run returns\<close>

text \<open>
  The window that no deadline covers: the exec of a local binary ends, with success or an error.
\<close>

definition spawn_returns :: "'w os \<Rightarrow> bool" where
  "spawn_returns os \<longleftrightarrow> (\<forall>argv envp w w'. os_spawnp os argv envp w \<noteq> (None, w'))"

lemma posix_spawnp_returns: "spawn_returns os \<Longrightarrow> posix_spawnp os argv envp s \<noteq> None"
  by (auto simp: posix_spawnp_def spawn_returns_def ext_def split: prod.split option.split sum.split)

text \<open>
  What the deadline relies on of the kernel. \<open>rank\<close> bounds how often system calls are
  interrupted by other signals or write nothing: each such call lowers it. \<open>dead\<close> says that
  the child has got SIGKILL: then \<open>waitpid\<close> does not block for ever. No call of the
  supervision loop raises the rank or revives a killed child. Nothing is assumed of how
  long \<open>read\<close>, \<open>write\<close> and the wait for a live child take: they may block for ever.
\<close>

definition kernel_keeps :: "('w \<Rightarrow> nat) \<Rightarrow> ('w \<Rightarrow> bool) \<Rightarrow> ('w \<Rightarrow> 'a \<times> 'w) \<Rightarrow> bool" where
  "kernel_keeps rank dead f \<longleftrightarrow>
     (\<forall>w a w'. f w = (a, w') \<longrightarrow> rank w' \<le> rank w \<and> (dead w \<longrightarrow> dead w'))"

definition kernel_live :: "('w \<Rightarrow> nat) \<Rightarrow> ('w \<Rightarrow> bool) \<Rightarrow> 'w os \<Rightarrow> bool" where
  "kernel_live rank dead os \<longleftrightarrow>
     spawn_returns os \<and>
     (\<forall>n. kernel_keeps rank dead (os_alarm_ticks os n)) \<and>
     (\<forall>pid. kernel_keeps rank dead (os_kill os pid)) \<and>
     (\<forall>fd n. kernel_keeps rank dead (os_read os fd n)) \<and>
     (\<forall>fd bs. kernel_keeps rank dead (os_write os fd bs)) \<and>
     (\<forall>pid. kernel_keeps rank dead (os_waitpid os pid)) \<and>
     (\<forall>fd n w w'. os_read os fd n w = (Err EINTR, w') \<longrightarrow> rank w' < rank w) \<and>
     (\<forall>fd bs w w'. os_write os fd bs w = (Err EINTR, w') \<or> bs \<noteq> [] \<and> os_write os fd bs w = (Ret 0, w')
        \<longrightarrow> rank w' < rank w) \<and>
     (\<forall>pid w w'. os_waitpid os pid w = (Err EINTR, w') \<longrightarrow> rank w' < rank w) \<and>
     (\<forall>pid w w'. os_waitpid os pid w = (Block, w') \<longrightarrow> \<not> dead w) \<and>
     (\<forall>pid w r w'. 0 < pid \<longrightarrow> os_kill os pid w = (r, w') \<longrightarrow> dead w')"

definition armed :: "'w sys \<Rightarrow> bool" where
  "armed s \<longleftrightarrow> alarm_in (rt s) \<noteq> None \<and> \<not> sigalrm_blocked (rt s)"

lemma settled_armed: "settled s s' \<Longrightarrow> armed s \<Longrightarrow> armed s'"
  by (simp add: settled_def armed_def)

lemma quiet_armed: "quiet s s' \<Longrightarrow> armed s \<Longrightarrow> armed s'"
  using settled_armed by (auto simp: quiet_def)

lemma guards_armed: "guards pid s s' \<Longrightarrow> armed s \<Longrightarrow> armed s'"
  using settled_armed by (auto simp: guards_def)

lemma tick_world:
  assumes "kernel_live rank dead os"
  shows "rank (world (tick os s)) \<le> rank (world s)" "dead (world s) \<Longrightarrow> dead (world (tick os s))"
proof -
  have "rank (world (tick os s)) \<le> rank (world s) \<and> (dead (world s) \<longrightarrow> dead (world (tick os s)))"
  proof (cases "alarm_in (rt s)")
    case None
    then show ?thesis by (simp add: tick_def)
  next
    case (Some n)
    obtain l w where e: "os_alarm_ticks os n (world s) = (l, w)" by fastforce
    then have "rank w \<le> rank (world s) \<and> (dead (world s) \<longrightarrow> dead w)"
      using assms by (auto simp: kernel_live_def kernel_keeps_def)
    with Some e show ?thesis
      by (auto simp: tick_def ext_def raise_sigalrm_def watchdog_alarm_handler_def Let_def)
  qed
  then show "rank (world (tick os s)) \<le> rank (world s)"
    "dead (world s) \<Longrightarrow> dead (world (tick os s))" by auto
qed

text \<open>An armed alarm makes every blocking call return: with \<open>EINTR\<close> and the flag raised.\<close>

lemma interruptible_armed:
  assumes "armed s" "kernel_live rank dead os" "kernel_keeps rank dead f"
  shows "\<exists>r s'. interruptible os f s = Some (r, s') \<and> armed s' \<and>
    rank (world s') \<le> rank (world s) \<and> (dead (world s) \<longrightarrow> dead (world s')) \<and>
    (\<forall>e. r = Inl e \<longrightarrow> (\<exists>w. f (world (tick os s)) = (Err e, w) \<and> world s' = w) \<or>
       e = EINTR \<and> watchdog_timed_out (rt s') \<and> (\<exists>w. f (world (tick os s)) = (Block, w))) \<and>
    (\<forall>a. r = Inr a \<longrightarrow> (\<exists>w. f (world (tick os s)) = (Ret a, w) \<and> world s' = w))"
proof -
  obtain r w where e: "f (world (tick os s)) = (r, w)" by fastforce
  have a: "armed (tick os s)" by (rule quiet_armed [OF tick_quiet assms(1)])
  have le: "rank w \<le> rank (world s)" "dead (world s) \<longrightarrow> dead w"
    using assms(3) e tick_world [OF assms(2), of s] unfolding kernel_keeps_def by fastforce+
  from a e le show ?thesis
    by (cases r) (auto simp: interruptible_def ext_def armed_def raise_sigalrm_def
        watchdog_alarm_handler_def Let_def)
qed

lemma read_all_loop_returns:
  assumes "kernel_live rank dead os" "armed s"
  shows "read_all_loop os fd n buf s \<noteq> None"
  using assms(2)
proof (induction "(rank (world s), n - length buf)" arbitrary: s buf
    rule: wf_induct_rule [OF wf_lex_prod [OF wf_less_than wf_less_than]])
  case 1
  have k: "kernel_keeps rank dead (os_read os fd (n - 1 - length buf))"
    using assms(1) by (simp add: kernel_live_def)
  obtain r t where i: "interruptible os (os_read os fd (n - 1 - length buf)) s = Some (r, t)"
    and a: "armed t" "rank (world t) \<le> rank (world s)"
    and l: "\<And>e. r = Inl e \<Longrightarrow> (\<exists>w. os_read os fd (n - 1 - length buf) (world (tick os s)) = (Err e, w) \<and>
       world t = w) \<or> watchdog_timed_out (rt t)"
    using interruptible_armed [OF 1(2) assms(1) k] by blast
  note tw = tick_world [OF assms(1)]
  show ?case
  proof (cases r)
    case (Inl e)
    have again: "read_all_loop os fd n buf (tick os t) \<noteq> None"
      if "e = EINTR" "\<not> watchdog_timed_out (rt (tick os t))"
    proof -
      have "\<not> watchdog_timed_out (rt t)" using that(2) quiet_flag [OF tick_quiet] by blast
      then have "rank (world t) < rank (world (tick os s))"
        using l [OF Inl] that(1) assms(1) by (auto simp: kernel_live_def)
      with tw(1) [of s] tw(1) [of t] have "rank (world (tick os t)) < rank (world s)" by linarith
      then show ?thesis by (intro 1(1)) (auto intro: quiet_armed [OF tick_quiet a(1)])
    qed
    then show ?thesis by (subst read_all_loop.simps) (auto simp: i [simplified] Inl Let_def)
  next
    case (Inr bs)
    have "read_all_loop os fd n (buf @ bs) t \<noteq> None" if "bs \<noteq> []" "\<not> n - 1 \<le> length (buf @ bs)"
    proof (rule 1(1))
      have "0 < length bs" using that(1) by (cases bs) simp_all
      then have "n - length (buf @ bs) < n - length buf" using that(2) unfolding length_append by arith
      with a show "((rank (world t), n - length (buf @ bs)), rank (world s), n - length buf)
          \<in> less_than <*lex*> less_than" by auto
    qed (rule a(1))
    then show ?thesis by (subst read_all_loop.simps) (auto simp: i [simplified] Inr Let_def)
  qed
qed

lemma feed_stdin_returns:
  assumes "kernel_live rank dead os" "armed s"
  shows "feed_stdin os fd data s \<noteq> None"
  using assms(2)
proof (induction "(rank (world s), length data)" arbitrary: s data
    rule: wf_induct_rule [OF wf_lex_prod [OF wf_less_than wf_less_than]])
  case 1
  let ?s = "tick os s"
  note tw = tick_world [OF assms(1)]
  have k: "kernel_keeps rank dead (os_write os fd data)"
    using assms(1) by (simp add: kernel_live_def)
  obtain r t where i: "interruptible os (os_write os fd data) ?s = Some (r, t)"
    and a: "armed t" "rank (world t) \<le> rank (world ?s)"
    and l: "\<And>e. r = Inl e \<Longrightarrow> (\<exists>w. os_write os fd data (world (tick os ?s)) = (Err e, w) \<and>
       world t = w) \<or> watchdog_timed_out (rt t)"
    and g: "\<And>m. r = Inr m \<Longrightarrow> os_write os fd data (world (tick os ?s)) = (Ret m, world t)"
    using interruptible_armed [OF quiet_armed [OF tick_quiet 1(2)] assms(1) k] by blast
  have less: "rank (world (tick os ?s)) \<le> rank (world s)" using tw(1) order_trans by blast
  show ?case
  proof (cases r)
    case (Inl e)
    have again: "feed_stdin os fd data (tick os t) \<noteq> None"
      if "e = EINTR" "\<not> watchdog_timed_out (rt (tick os t))"
    proof -
      have "\<not> watchdog_timed_out (rt t)" using that(2) quiet_flag [OF tick_quiet] by blast
      then have "rank (world t) < rank (world (tick os ?s))"
        using l [OF Inl] that(1) assms(1) by (auto simp: kernel_live_def)
      with less tw(1) [of t] have "rank (world (tick os t)) < rank (world s)" by linarith
      then show ?thesis by (intro 1(1)) (auto intro: quiet_armed [OF tick_quiet a(1)])
    qed
    then show ?thesis by (subst feed_stdin.simps) (auto simp: i Inl Let_def)
  next
    case (Inr m)
    have w: "armed (child_got d t)" "world (child_got d t) = world t" for d
      using a(1) by (simp_all add: armed_def child_got_def)
    have "feed_stdin os fd (drop m data) (child_got (take m data) t) \<noteq> None" if "data \<noteq> []"
    proof (cases "m = 0")
      case True
      then have "rank (world t) < rank (world (tick os ?s))"
        using g [OF Inr] assms(1) that by (auto simp: kernel_live_def)
      then show ?thesis using less by (intro 1(1)) (auto simp: w)
    next
      case False
      with that a(2) tw(1) [of s] show ?thesis by (intro 1(1)) (auto simp: w)
    qed
    then show ?thesis by (subst feed_stdin.simps) (auto simp: i Inr Let_def)
  qed
qed

lemma waitpid_armed:
  assumes "armed s" "kernel_live rank dead os"
  shows "\<exists>r s'. waitpid os pid s = Some (r, s') \<and> armed s' \<and>
    rank (world s') \<le> rank (world s) \<and> (dead (world s) \<longrightarrow> dead (world s')) \<and>
    (r = Inl EINTR \<longrightarrow> rank (world s') < rank (world s) \<or>
       watchdog_timed_out (rt s') \<and> \<not> dead (world s))"
proof -
  have k: "kernel_keeps rank dead (os_waitpid os pid)" using assms(2) by (simp add: kernel_live_def)
  obtain r t where i: "interruptible os (os_waitpid os pid) s = Some (r, t)"
    and a: "armed t" "rank (world t) \<le> rank (world s)" "dead (world s) \<longrightarrow> dead (world t)"
    and l: "\<And>e. r = Inl e \<Longrightarrow> (\<exists>w. os_waitpid os pid (world (tick os s)) = (Err e, w) \<and> world t = w) \<or>
       e = EINTR \<and> watchdog_timed_out (rt t) \<and> (\<exists>w. os_waitpid os pid (world (tick os s)) = (Block, w))"
    using interruptible_armed [OF assms k] by blast
  note tw = tick_world [OF assms(2), of s]
  have *: "rank (world t) < rank (world s) \<or> watchdog_timed_out (rt t) \<and> \<not> dead (world s)"
    if "r = Inl EINTR"
  proof -
    have "rank w < rank (world (tick os s))" if "os_waitpid os pid (world (tick os s)) = (Err EINTR, w)" for w
      using that assms(2) by (simp add: kernel_live_def)
    moreover have "\<not> dead (world (tick os s))" if "os_waitpid os pid (world (tick os s)) = (Block, w)" for w
      using that assms(2) unfolding kernel_live_def by blast
    ultimately show ?thesis using l [OF that] tw by fastforce
  qed
  show ?thesis
  proof (cases r)
    case (Inl e)
    let ?t = "if e = ECHILD then t\<lparr>rt := (rt t)\<lparr>child := Reaped pid None\<rparr>\<rparr> else t"
    have "waitpid os pid s = Some (r, ?t)" by (simp add: waitpid_def i Inl)
    moreover have "armed ?t" "world ?t = world t" "watchdog_timed_out (rt ?t) = watchdog_timed_out (rt t)"
      using a(1) by (simp_all add: armed_def)
    ultimately show ?thesis using a * by metis
  next
    case (Inr st)
    let ?t = "t\<lparr>rt := (rt t)\<lparr>child := Reaped pid (Some st)\<rparr>\<rparr>"
    have "waitpid os pid s = Some (r, ?t)" by (simp add: waitpid_def i Inr)
    moreover have "armed ?t" "world ?t = world t" using a(1) by (simp_all add: armed_def)
    ultimately show ?thesis using a Inr by auto
  qed
qed

lemma kill_world:
  assumes "kernel_live rank dead os"
  shows "armed (kill os target s) = armed s" "rank (world (kill os target s)) \<le> rank (world s)"
    "dead (world s) \<Longrightarrow> dead (world (kill os target s))"
    "0 < target \<Longrightarrow> dead (world (kill os target s))"
proof -
  obtain r w where e: "os_kill os target (world s) = (r, w)" by fastforce
  have k: "kernel_keeps rank dead (os_kill os target)" using assms by (simp add: kernel_live_def)
  show "armed (kill os target s) = armed s" by (simp add: kill_def ext_def e armed_def)
  show "rank (world (kill os target s)) \<le> rank (world s)"
    "dead (world s) \<Longrightarrow> dead (world (kill os target s))"
    using k e by (auto simp: kill_def ext_def kernel_keeps_def)
  show "0 < target \<Longrightarrow> dead (world (kill os target s))"
    using assms e by (auto simp: kill_def ext_def kernel_live_def)
qed

lemma reap_killed_returns:
  assumes "kernel_live rank dead os" "armed s" "0 < pid"
  shows "reap_killed os pid s \<noteq> None"
  using assms(2)
proof (induction "(if dead (world s) then 0 else (1::nat), rank (world s))" arbitrary: s
    rule: wf_induct_rule [OF wf_lex_prod [OF wf_less_than wf_less_than]])
  case 1
  obtain r t where w: "waitpid os pid s = Some (r, t)"
    and a: "armed t" "rank (world t) \<le> rank (world s)" "dead (world s) \<longrightarrow> dead (world t)"
    and i: "r = Inl EINTR \<longrightarrow> rank (world t) < rank (world s) \<or> \<not> dead (world s)"
    using waitpid_armed [OF 1(2) assms(1)] by blast
  note k = kill_world [OF assms(1)]
  have "reap_killed os pid (kill os pid t) \<noteq> None" if "r = Inl EINTR"
  proof (rule 1(1))
    have "dead (world (kill os pid t))" using k(4) assms(3) by blast
    then show "((if dead (world (kill os pid t)) then 0 else 1, rank (world (kill os pid t))),
        (if dead (world s) then 0 else (1::nat), rank (world s))) \<in> less_than <*lex*> less_than"
      using i that k(2) [of pid t] by auto
  qed (use k(1) a(1) in simp)
  then show ?case by (subst reap_killed.simps) (auto simp: w)
qed

lemma watchdog_check_returns:
  assumes "kernel_live rank dead os" "armed s"
  shows "watchdog_check os pid s \<noteq> None"
proof -
  have "reap_killed os pid (kill os (- pid) (tick os s)) \<noteq> None" if "0 < pid"
    using that assms quiet_armed [OF tick_quiet] by (intro reap_killed_returns) (auto simp: kill_world)
  then show ?thesis by (auto simp: watchdog_check_def Let_def)
qed

lemma wait_child_returns:
  assumes "kernel_live rank dead os" "armed s"
  shows "wait_child os pid s \<noteq> None"
  using assms(2)
proof (induction "rank (world s)" arbitrary: s rule: less_induct)
  case less
  obtain r t where w: "waitpid os pid s = Some (r, t)"
    and a: "armed t" "rank (world t) \<le> rank (world s)"
    and i: "r = Inl EINTR \<longrightarrow> rank (world t) < rank (world s) \<or> watchdog_timed_out (rt t)"
    using waitpid_armed [OF less(2) assms(1)] by blast
  have at: "armed (tick os t)" by (rule quiet_armed [OF tick_quiet a(1)])
  have again: "wait_child os pid (tick os t) \<noteq> None"
    if "r = Inl EINTR" "\<not> watchdog_timed_out (rt (tick os t))"
  proof (rule less(1))
    have "\<not> watchdog_timed_out (rt t)" using that(2) quiet_flag [OF tick_quiet] by blast
    with i that(1) tick_world(1) [OF assms(1), of t] show "rank (world (tick os t)) < rank (world s)"
      by auto
  qed (rule at)
  have check: "watchdog_check os pid (tick os t) \<noteq> None"
    by (rule watchdog_check_returns [OF assms(1) at])
  from again check show ?case
    by (subst wait_child.simps) (cases r; auto simp: w Let_def)
qed

lemma exec_wait_returns:
  assumes "kernel_live rank dead os" "armed s" "child (rt s) = Alive pid"
  shows "exec_wait os pid s \<noteq> None"
proof -
  obtain o1 t where w: "wait_child os pid s = Some (o1, t)"
    using wait_child_returns [OF assms(1,2)] by fastforce
  have "armed t"
    using rsatD [OF wait_child_supervises [OF assms(3)] w] guards_armed [OF supervises_guards] assms(2)
    by blast
  from watchdog_check_returns [OF assms(1) this, of "- 1"] w show ?thesis
    by (cases o1) (auto simp: exec_wait_def split: if_splits)
qed

lemma drain_returns:
  "kernel_live rank dead os \<Longrightarrow> armed s \<Longrightarrow> drain os fd n s \<noteq> None"
  using read_all_loop_returns [of rank dead os s fd n "[]"] by (simp add: drain_def read_all_fd_def)

lemma exec_child_returns:
  assumes live: "kernel_live rank dead os" and armed: "armed s" and alive: "child (rt s) = Alive pid"
  shows "exec_child os pid p data n m s \<noteq> None"
proof -
  define I where "I t \<longleftrightarrow> armed t \<and> child (rt t) = Alive pid" for t :: "'a sys"
  have I_close: "I (close_fd fd t) = I t" for fd t
    by (simp add: I_def armed_def close_fd_def)
  have check: "tsat (watchdog_check os pid t) (\<lambda>rc u. rc = - 1 \<or> rc = 0 \<and> I u)" if "I t" for t
  proof (rule tsat_iff [THEN iffD2], rule conjI)
    show "returns (watchdog_check os pid t)"
      using watchdog_check_returns [OF live] that by (simp add: I_def returns_def)
    show "rsat (watchdog_check os pid t) (\<lambda>rc u. rc = - 1 \<or> rc = 0 \<and> I u)"
      using that by (intro rsat_conseq [OF watchdog_check_guards [of t pid]])
        (auto simp: I_def intro: guards_armed)
  qed
  have feed: "tsat (feed_stdin os fd d t) (\<lambda>_ u. I u)" if "I t" for fd d t
  proof (rule tsat_iff [THEN iffD2], rule conjI)
    show "returns (feed_stdin os fd d t)"
      using feed_stdin_returns [OF live] that by (simp add: I_def returns_def)
    have "I u" if q: "quiet (child_got b t) u" for b u
    proof -
      have "armed (child_got b t)" using \<open>I t\<close> by (simp add: I_def armed_def child_got_def)
      with quiet_armed [OF q] quiet_child [OF q] \<open>I t\<close> show ?thesis by (simp add: I_def)
    qed
    then show "rsat (feed_stdin os fd d t) (\<lambda>_ u. I u)"
      by (intro rsat_conseq [OF feed_stdin_quiet]) blast
  qed
  have drain: "tsat (drain os fd k t) (\<lambda>_ u. I u)" if "I t" for fd k t
  proof (rule tsat_iff [THEN iffD2], rule conjI)
    show "returns (drain os fd k t)"
      using drain_returns [OF live] that by (simp add: I_def returns_def)
    have "I u" if q: "quiet t u" for u
      using quiet_armed [OF q] quiet_child [OF q] \<open>I t\<close> by (simp add: I_def)
    then show "rsat (drain os fd k t) (\<lambda>_ u. I u)"
      unfolding drain_def using that by (intro vcg rsat_conseq [OF read_all_fd_quiet]) auto
  qed
  have wait: "tsat (exec_wait os pid t) (\<lambda>_ _. True)" if "I t" for t
    using exec_wait_returns [OF live] that by (simp add: I_def tsat_iff returns_def rsat_def)
  have "I s" using armed alive by (simp add: I_def)
  then have "tsat (exec_child os pid p data n m s) (\<lambda>_ _. True)"
    unfolding exec_child_def Let_def
    by (intro tvcg tsat_conseq [OF check] tsat_conseq [OF feed] tsat_conseq [OF drain]
          tsat_conseq [OF wait]) (auto simp: I_close)
  then show ?thesis by (auto simp: tsat_def)
qed

lemma watchdog_arm_armed:
  assumes "watchdog_usable (rt s)" "\<not> sigalrm_blocked (rt s)"
  shows "armed (watchdog_arm os s)"
proof -
  have t: "same_config s (tick os s)" for s
    using calm_no_run [OF quiet_calm [OF tick_quiet [of s os]]] by blast
  let ?a = "tick os s" and ?b = "tick os ((tick os s)\<lparr>rt := (rt (tick os s))\<lparr>sigalrm_blocked := True\<rparr>\<rparr>)"
  have "watchdog_usable (rt ?b)" "\<not> sigalrm_blocked (rt ?a)"
    using t [of "?a\<lparr>rt := (rt ?a)\<lparr>sigalrm_blocked := True\<rparr>\<rparr>"] t [of s] assms
    by (simp_all add: same_config_def)
  then show ?thesis
    by (simp add: watchdog_arm_def watchdog_mask_signal_def alarm_def watchdog_discard_pending_def
        restore_mask_def armed_def TUMGRD_SUBPROC_TIMEOUT_S_def Let_def)
qed

lemma exec_body_returns:
  assumes live: "kernel_live rank dead os" and pipes: "pipe_fds_ok os" and armed: "armed s"
  shows "exec_body os argv data hm ml n m s \<noteq> None"
proof -
  obtain rc1 p s1 where 1: "open_pipes os s = ((rc1, p), s1)" by (metis surj_pair)
  obtain rc2 s2 where 2: "spawn_attr_calls os 8 s1 = (rc2, s2)" by fastforce
  obtain rc3 envp s3 where 3: "build_envp os hm ml s2 = ((rc3, envp), s3)" by (metis surj_pair)
  obtain r s4 where 4: "posix_spawnp os argv envp s3 = Some (r, s4)"
    using posix_spawnp_returns [of os argv envp s3] live by (auto simp: kernel_live_def)
  have "armed s1" using open_pipes_outcome [OF 1 pipes] armed settled_armed by (auto simp: calm_def)
  then have "armed s2" using spawn_attr_calls_quiet [OF 2] quiet_armed by blast
  then have a3: "armed s3" using build_envp_outcome [OF 3] quiet_armed by blast
  have "exec_child os pid p data n m s4 \<noteq> None" if r: "r = Inr pid" for pid
  proof -
    obtain t where t: "quiet s3 t" and s4: "s4 = t\<lparr>rt := (rt t)\<lparr>child := Alive pid,
       spawns := \<lparr>sp_argv = argv, sp_envp = envp, sp_db = tbl (db t), sp_stdin = []\<rparr> # spawns (rt t)\<rparr>\<rparr>"
      using posix_spawnp_outcome [OF 4] r by auto
    have "armed s4" "child (rt s4) = Alive pid"
      using quiet_armed [OF t a3] by (simp_all add: s4 armed_def)
    then show ?thesis by (rule exec_child_returns [OF live])
  qed
  with 1 2 3 4 show ?thesis
    by (cases r) (auto simp: exec_body_def simp del: spawn_attr_calls.simps)
qed

lemma exec_with_stdio_returns:
  assumes "kernel_live rank dead os" "pipe_fds_ok os" "watchdog_usable (rt s)"
    "\<not> sigalrm_blocked (rt s)"
  shows "exec_with_stdio os argv data hm ml n m s \<noteq> None"
proof -
  have "exec_body os argv data hm ml n m (watchdog_arm os s) \<noteq> None"
    by (rule exec_body_returns [OF assms(1,2) watchdog_arm_armed [OF assms(3,4)]])
  then show ?thesis by (auto simp: exec_with_stdio_def Let_def)
qed

section \<open>The tool operations keep the contract\<close>

text \<open>The last tool ran to its end, exited with 0 and was not interrupted by the deadline.\<close>

definition tool_success :: "(string list \<Rightarrow> string \<Rightarrow> bool) \<Rightarrow> 'w sys \<Rightarrow> 'w sys \<Rightarrow> bool" where
  "tool_success P s s' \<longleftrightarrow> \<not> watchdog_timed_out (rt s') \<and>
     (\<exists>pid e es. child (rt s') = Reaped pid (Some (Exited 0)) \<and> spawns (rt s') = e # es \<and>
        P (sp_argv e) (sp_stdin e) \<and> sp_db e = tbl (db s))"

definition tool_post :: "(string list \<Rightarrow> string \<Rightarrow> bool) \<Rightarrow> 'w sys \<Rightarrow> int \<Rightarrow> 'w sys \<Rightarrow> bool" where
  "tool_post P s rc s' \<longleftrightarrow> tool_effect P s s' \<and> (rc = 0 \<longrightarrow> tool_success P s s')"

lemma exec_effect_success:
  assumes "exec_effect os argv data hm ml 0 s s'" "\<And>k. P argv (take k data)"
  shows "tool_success P s s'"
  using assms by (fastforce simp: exec_effect_def ran_def tool_success_def)

lemma tool_success_trans: "tool_effect P s t \<Longrightarrow> tool_success P t u \<Longrightarrow> tool_success P s u"
  by (auto simp: tool_effect_def same_config_def tool_success_def)

lemma exec_tool_post:
  assumes "pipe_fds_ok os" "argv \<noteq> []" "\<And>k. P argv (take k (the_default [] data))"
  shows "rsat (exec_with_stdio os argv data hm ml n m s) (\<lambda>(rc, so, se) s'. tool_post P s rc s')"
  by (rule rsat_conseq [OF exec_with_stdio_effect [OF assms(1,2)]])
     (auto simp: tool_post_def intro: exec_effect_tool exec_effect_success assms(3))

locale tool_operation =
  fixes op :: "'w os \<Rightarrow> 'w sys \<Rightarrow> (int \<times> 'w sys) option"
    and P :: "string list \<Rightarrow> string \<Rightarrow> bool"
  assumes post: "pipe_fds_ok os \<Longrightarrow> rsat (op os s) (\<lambda>rc s'. tool_post P s rc s')"
    and terminates: "kernel_live rank dead os \<Longrightarrow> pipe_fds_ok os \<Longrightarrow> watchdog_usable (rt s) \<Longrightarrow>
      \<not> sigalrm_blocked (rt s) \<Longrightarrow> op os s \<noteq> None"
begin

lemma effect: "pipe_fds_ok os \<Longrightarrow> op os s = Some (rc, s') \<Longrightarrow> tool_effect P s s'"
  using post [of os s] by (auto simp: tool_post_def dest: rsatD)

lemma success: "pipe_fds_ok os \<Longrightarrow> op os s = Some (0, s') \<Longrightarrow> tool_success P s s'"
  using post [of os s] by (auto simp: tool_post_def dest: rsatD)

lemma database_unchanged: "pipe_fds_ok os \<Longrightarrow> op os s = Some (rc, s') \<Longrightarrow> db s' = db s"
  using effect by (auto simp: tool_effect_def same_config_def)

lemma no_descriptor_leak: "pipe_fds_ok os \<Longrightarrow> op os s = Some (rc, s') \<Longrightarrow> fds s' = fds s"
  using effect by (auto simp: tool_effect_def)

lemma kills_only_own_child:
  assumes "pipe_fds_ok os" "op os s = Some (rc, s')" "k \<in> set (kills (rt s'))" "k \<notin> set (kills (rt s))"
  shows "\<exists>pid. (fst k = pid \<or> fst k = - pid) \<and> snd k = Alive pid"
  using effect [OF assms(1,2)] assms(3,4) by (auto simp: tool_effect_def list_all_iff safe_kill_def)

lemma total_post:
  assumes "kernel_live rank dead os" "pipe_fds_ok os" "watchdog_usable (rt s)" "\<not> sigalrm_blocked (rt s)"
  shows "tsat (op os s) (\<lambda>rc s'. tool_post P s rc s' \<and> watchdog_usable (rt s') \<and> \<not> sigalrm_blocked (rt s'))"
proof -
  obtain rc s' where r: "op os s = Some (rc, s')" using terminates [OF assms] by fastforce
  with rsatD [OF post [OF assms(2)] r] assms(3,4) show ?thesis
    by (auto simp: tsat_def tool_post_def tool_effect_def same_config_def)
qed

end

definition is_tuctl :: "tumgrd_node \<Rightarrow> string set \<Rightarrow> string list \<Rightarrow> string \<Rightarrow> bool" where
  "is_tuctl node scripts argv input \<longleftrightarrow> argv = tuctl_argv node \<and> (\<exists>sc \<in> scripts. \<exists>k. input = take k sc)"

definition is_ktuctl :: "string list set \<Rightarrow> string list \<Rightarrow> string \<Rightarrow> bool" where
  "is_ktuctl argvs argv input \<longleftrightarrow> argv \<in> argvs \<and> input = []"

lemma argv_nonempty [simp]: "tuctl_argv node \<noteq> []" "client_add_argv node \<noteq> []" "client_del_argv node \<noteq> []"
  by (simp_all add: tuctl_argv_def client_add_argv_def client_del_argv_def)

lemma run_tuctl_post:
  assumes "pipe_fds_ok os" "sc \<in> scripts"
  shows "rsat (run_tuctl_script os node sc marker s) (\<lambda>rc s'. tool_post (is_tuctl node scripts) s rc s' \<and>
    (rc = 0 \<or> rc = - 1))"
proof -
  have P: "is_tuctl node scripts (tuctl_argv node) (take k (the_default [] (Some sc)))" for k
    using assms(2) by (auto simp: is_tuctl_def the_default_def)
  show ?thesis
    unfolding run_tuctl_script_def Let_def
    by (intro vcg rsat_conseq [OF exec_tool_post [where P = "is_tuctl node scripts" and argv = "tuctl_argv node" and
          data = "Some sc", OF assms(1) argv_nonempty(1) P]])
       (auto simp: tool_post_def)
qed

lemma run_ktuctl_post:
  assumes "pipe_fds_ok os" "argv \<in> argvs" "argv \<noteq> []"
  shows "rsat (run_ktuctl os argv s) (\<lambda>rc s'. tool_post (is_ktuctl argvs) s rc s')"
proof -
  have P: "is_ktuctl argvs argv (take k (the_default [] None))" for k
    using assms(2) by (simp add: is_ktuctl_def the_default_def)
  show ?thesis
    unfolding run_ktuctl_def
    by (intro vcg rsat_conseq [OF exec_tool_post [where P = "is_ktuctl argvs" and argv = argv and
          data = None, OF assms(1,3) P]]) auto
qed

lemma run_tuctl_returns:
  assumes "kernel_live rank dead os" "pipe_fds_ok os" "watchdog_usable (rt s)" "\<not> sigalrm_blocked (rt s)"
  shows "run_tuctl_script os node sc marker s \<noteq> None"
proof -
  obtain rc so se t where "exec_with_stdio os (tuctl_argv node) (Some sc) (n_has_memlimit node)
      (n_memlimit node) 2048 2048 s = Some ((rc, so, se), t)"
    using exec_with_stdio_returns [OF assms] by (metis not_None_eq surj_pair)
  then show ?thesis by (simp add: run_tuctl_script_def Let_def)
qed

lemma run_ktuctl_returns:
  assumes "kernel_live rank dead os" "pipe_fds_ok os" "watchdog_usable (rt s)" "\<not> sigalrm_blocked (rt s)"
  shows "run_ktuctl os argv s \<noteq> None"
proof -
  obtain rc so se t where "exec_with_stdio os argv None False 0 1024 1024 s = Some ((rc, so, se), t)"
    using exec_with_stdio_returns [OF assms] by (metis not_None_eq surj_pair)
  then show ?thesis by (simp add: run_ktuctl_def)
qed

lemma ext_same_config: "ext f s = (a, s') \<Longrightarrow> same_config s s'"
  by (drule ext_fds) (simp add: calm_no_run)

interpretation client_add: tool_operation "\<lambda>os. tumgrd_runner_client_add os node"
    "is_ktuctl {client_add_argv node}" for node
  by unfold_locales
     (simp_all add: tumgrd_runner_client_add_def run_ktuctl_post run_ktuctl_returns del: not_None_eq)

interpretation client_del: tool_operation "\<lambda>os. tumgrd_runner_client_del os node"
    "is_ktuctl {client_del_argv node}" for node
  by unfold_locales
     (simp_all add: tumgrd_runner_client_del_def run_ktuctl_post run_ktuctl_returns del: not_None_eq)

lemma tool_post_prefix:
  assumes "tool_effect P s t" "tool_post P t rc u"
  shows "tool_post P s rc u"
  using assms tool_effect_trans tool_success_trans unfolding tool_post_def by blast

lemma ext_tuctl_post:
  assumes "pipe_fds_ok os" "ext f s = (a, t)" "sc \<in> scripts"
  shows "rsat (run_tuctl_script os node sc marker t) (\<lambda>rc s'. tool_post (is_tuctl node scripts) s rc s' \<and>
    (rc = 0 \<or> rc = - 1))"
  by (rule rsat_conseq [OF run_tuctl_post [OF assms(1,3)]])
     (use tool_post_prefix [OF ext_tool [OF assms(2)]] in blast)

interpretation server_del: tool_operation "\<lambda>os. tumgrd_runner_server_del os node"
    "is_tuctl node {server_del_script node}" for node
proof unfold_locales
  fix os :: "'a os" and s :: "'a sys" and rank dead
  obtain ok t where e: "ext (os_alloc os) s = (ok, t)" by fastforce
  show "rsat (tumgrd_runner_server_del os node s) (tool_post (is_tuctl node {server_del_script node}) s)"
    if "pipe_fds_ok os"
    unfolding tumgrd_runner_server_del_def e
    using ext_tool [OF e, of "is_tuctl node {server_del_script node}"]
    by (auto intro!: vcg rsat_conseq [OF ext_tuctl_post [OF that e]] simp: tool_post_def)
  show "tumgrd_runner_server_del os node s \<noteq> None"
    if "kernel_live rank dead os" "pipe_fds_ok os" "watchdog_usable (rt s)" "\<not> sigalrm_blocked (rt s)"
  proof -
    have "run_tuctl_script os node (server_del_script node) ''server deleted:'' t \<noteq> None"
      using that ext_same_config [OF e] by (intro run_tuctl_returns) (auto simp: same_config_def)
    then show ?thesis by (auto simp: tumgrd_runner_server_del_def e)
  qed
qed

text \<open>The scripts that \<open>server_add\<close> may send: the placeholder first, then the detected address.\<close>

definition server_add_scripts :: "tumgrd_node \<Rightarrow> string nullable \<Rightarrow> string set" where
  "server_add_scripts node ip =
     {server_add_script node ''@client_ip@'', server_add_script node (the_default [] ip)}"

lemma server_add_detected_post:
  assumes "pipe_fds_ok os"
  shows "rsat (server_add_detected os node ip s)
    (tool_post (is_tuctl node (server_add_scripts node (Some ip))) s)"
proof -
  obtain ok t where e: "ext (os_alloc os) s = (ok, t)" by fastforce
  have sc: "server_add_script node ip \<in> server_add_scripts node (Some ip)"
    by (simp add: server_add_scripts_def the_default_def)
  show ?thesis
    unfolding server_add_detected_def e
    using ext_tool [OF e, of "is_tuctl node (server_add_scripts node (Some ip))"]
    by (auto intro!: vcg rsat_conseq [OF ext_tuctl_post [OF assms e sc]] simp: tool_post_def)
qed

lemma server_add_detected_returns:
  assumes "kernel_live rank dead os" "pipe_fds_ok os" "watchdog_usable (rt s)" "\<not> sigalrm_blocked (rt s)"
  shows "server_add_detected os node ip s \<noteq> None"
proof -
  obtain ok t where e: "ext (os_alloc os) s = (ok, t)" by fastforce
  have "run_tuctl_script os node (server_add_script node ip) ''server updated:'' t \<noteq> None"
    using assms ext_same_config [OF e] by (intro run_tuctl_returns) (auto simp: same_config_def)
  then show ?thesis by (auto simp: server_add_detected_def e)
qed

interpretation server_add: tool_operation "\<lambda>os. tumgrd_runner_server_add os node cfg ip"
    "is_tuctl node (server_add_scripts node ip)" for node cfg ip
proof unfold_locales
  fix os :: "'a os" and s :: "'a sys" and rank dead
  obtain ok t where e: "ext (os_alloc os) s = (ok, t)" by fastforce
  let ?P = "is_tuctl node (server_add_scripts node ip)"
  have sc: "server_add_script node ''@client_ip@'' \<in> server_add_scripts node ip"
    by (simp add: server_add_scripts_def)
  show "rsat (tumgrd_runner_server_add os node cfg ip s) (tool_post ?P s)" if pipes: "pipe_fds_ok os"
  proof -
    have det: "rsat (server_add_detected os node a u)
        (tool_post (is_tuctl node (server_add_scripts node (Some a))) s)"
      if "tool_effect (is_tuctl node (server_add_scripts node (Some a))) s u" for a u
      using server_add_detected_post [OF pipes, of node a u] tool_post_prefix [OF that]
      by (auto elim: rsat_conseq)
    show ?thesis
      unfolding tumgrd_runner_server_add_def e
      using ext_tool [OF e, of ?P]
      by (auto intro!: vcg rsat_conseq [OF ext_tuctl_post [OF pipes e sc]] det simp: tool_post_def)
  qed
  show "tumgrd_runner_server_add os node cfg ip s \<noteq> None"
    if live: "kernel_live rank dead os" "pipe_fds_ok os" "watchdog_usable (rt s)" "\<not> sigalrm_blocked (rt s)"
  proof -
    obtain rc u where r: "run_tuctl_script os node (server_add_script node ''@client_ip@'')
        ''server updated:'' t = Some (rc, u)"
      using run_tuctl_returns [of rank dead os t] live ext_same_config [OF e]
      by (fastforce simp: same_config_def)
    have "same_config t u"
      using rsatD [OF run_tuctl_post [OF live(2) sc] r] by (simp add: tool_post_def tool_effect_def)
    then have "watchdog_usable (rt u)" "\<not> sigalrm_blocked (rt u)"
      using live ext_same_config [OF e] by (auto simp: same_config_def)
    then have "server_add_detected os node a u \<noteq> None" "server_add_detected os node a s \<noteq> None" for a
      using server_add_detected_returns live by blast+
    then show ?thesis by (auto simp: tumgrd_runner_server_add_def e r split: option.splits)
  qed
qed

interpretation reset_client: tool_operation "\<lambda>os. tumgrd_runner_reset_local_client os node"
    "is_ktuctl {client_del_argv node, client_add_argv node}" for node
proof unfold_locales
  fix os :: "'a os" and s :: "'a sys" and rank dead
  let ?P = "is_ktuctl {client_del_argv node, client_add_argv node}"
  have mono: "is_ktuctl A a i \<Longrightarrow> A \<subseteq> B \<Longrightarrow> is_ktuctl B a i" for A B a i
    by (auto simp: is_ktuctl_def)
  show "rsat (tumgrd_runner_reset_local_client os node s) (tool_post ?P s)" if pipes: "pipe_fds_ok os"
  proof -
    have del: "rsat (tumgrd_runner_client_del os node s) (\<lambda>_ u. tool_effect ?P s u)"
      unfolding tumgrd_runner_client_del_def
      by (rule rsat_conseq [OF run_ktuctl_post [OF pipes, where argvs = "{client_del_argv node, client_add_argv node}"]])
         (auto simp: tool_post_def)
    have add: "rsat (tumgrd_runner_client_add os node u) (tool_post ?P s)" if "tool_effect ?P s u" for u
      unfolding tumgrd_runner_client_add_def
      by (rule rsat_conseq [OF run_ktuctl_post [OF pipes, where argvs = "{client_del_argv node, client_add_argv node}"]])
         (use tool_post_prefix [OF that] in auto)
    show ?thesis
      unfolding tumgrd_runner_reset_local_client_def
      by (intro vcg rsat_conseq [OF del] add) (auto simp: tool_post_def)
  qed
  show "tumgrd_runner_reset_local_client os node s \<noteq> None"
    if live: "kernel_live rank dead os" "pipe_fds_ok os" "watchdog_usable (rt s)" "\<not> sigalrm_blocked (rt s)"
  proof -
    obtain rc u where r: "tumgrd_runner_client_del os node s = Some (rc, u)"
      using client_del.terminates [OF live] by fastforce
    have "same_config s u" using client_del.effect [OF live(2) r] by (simp add: tool_effect_def)
    then have "tumgrd_runner_client_add os node u \<noteq> None"
      using live by (intro client_add.terminates) (auto simp: same_config_def)
    then show ?thesis by (auto simp: tumgrd_runner_reset_local_client_def r)
  qed
qed

section \<open>Buffers, scripts, environment and log\<close>

lemma read_all_loop_bound:
  assumes "read_all_loop os fd n buf s = Some ((rc, out), s')"
    and "\<And>k w bs w'. os_read os fd k w = (Ret bs, w') \<Longrightarrow> length bs \<le> k" "length buf \<le> n - 1"
  shows "length out \<le> n - 1"
proof -
  let ?P = "\<lambda>os fd n buf s ((rc, out), s'). (\<forall>k w bs w'. os_read os fd k w = (Ret bs, w') \<longrightarrow> length bs \<le> k) \<longrightarrow>
    length buf \<le> n - 1 \<longrightarrow> length out \<le> n - 1"
  have "?P os fd n buf s ((rc, out), s')"
  proof (rule read_all_loop.raw_induct [where P = ?P, OF _ assms(1)])
    fix rec :: "'a os \<Rightarrow> int \<Rightarrow> nat \<Rightarrow> string \<Rightarrow> 'a sys \<Rightarrow> ((int \<times> string) \<times> 'a sys) option"
      and os :: "'a os" and fd n buf and s :: "'a sys" and res
    let ?body = "do { (r, s) \<leftarrow> interruptible os (os_read os fd (n - 1 - length buf)) s;
          case r of
            Inl e \<Rightarrow>
              (let s = tick os s
               in if e = EINTR \<and> \<not> watchdog_timed_out (rt s) then rec os fd n buf s
                  else Some ((- 1, buf), s))
          | Inr bs \<Rightarrow>
              if bs = [] then Some ((0, buf), s)
              else if length (buf @ bs) \<ge> n - 1 then Some ((0, buf @ bs), s)
              else rec os fd n (buf @ bs) s }"
    assume IH: "\<And>os fd n buf s y. rec os fd n buf s = Some y \<Longrightarrow> ?P os fd n buf s y"
      and eq: "?body = Some res"
    have "rsat ?body (\<lambda>(rc, out) s'. length out \<le> n - 1)"
      if bound: "\<forall>k w bs w'. os_read os fd k w = (Ret bs, w') \<longrightarrow> length bs \<le> k" and buf: "length buf \<le> n - 1"
    proof -
      have rec: "rsat (rec os fd n b t) (\<lambda>(rc, out) s'. length out \<le> n - 1)" if "length b \<le> n - 1" for b t
        using IH [of os fd n b t] that bound by (fastforce simp: rsat_def)
      have got: "rsat (interruptible os (os_read os fd k) s) (\<lambda>r s'. \<forall>bs. r = Inr bs \<longrightarrow> length bs \<le> k)" for k
      proof -
        obtain r s' where e: "ext (os_read os fd k) (tick os s) = (r, s')" by fastforce
        then have "\<forall>bs. r = Ret bs \<longrightarrow> length bs \<le> k" using bound by (auto simp: ext_result)
        then show ?thesis by (cases r) (auto simp: interruptible_def e rsat_def)
      qed
      show ?thesis
        by (intro vcg rsat_conseq [OF got] rec) (use buf in auto)
    qed
    with eq show "?P os fd n buf s res" by (auto dest!: rsatD split: prod.splits)
  qed
  with assms(2,3) show ?thesis by blast
qed

text \<open>
  C38: Memory safety of \<open>read_all_fd\<close>: if \<open>read\<close> never returns more bytes than asked for, the
  bytes collected and the terminating NUL always fit the buffer.
\<close>

theorem read_all_fd_in_bounds:
  assumes "\<And>k w bs w'. os_read os fd k w = (Ret bs, w') \<Longrightarrow> length bs \<le> k" "0 < buf_len"
    and "read_all_fd os fd buf_len s = Some ((rc, buf), s')"
  shows "length buf < buf_len"
  using read_all_loop_bound [of os fd buf_len "[]" s rc buf s'] assms by (auto simp: read_all_fd_def)

text \<open>Decimal numbers contain no control characters.\<close>

lemma show_int_no_newline: "CHR 0x0A \<notin> set (show_int i)"
proof -
  have "CHR 0x0A \<notin> set (show_nat n)" for n
    using show_nat_digits [of n] by (auto simp: list_all_iff isdigit_def)
  then show ?thesis by (simp add: show_int_def)
qed

lemma sanitize_comment_chars: "c \<in> set (sanitize_comment (Some s) n) \<Longrightarrow> c \<noteq> CHR 0x0A \<and> c \<noteq> CHR 0x0D"
  using trim_inplace_set by (fastforce simp: sanitize_comment_def)

lemma safe_id_no_newline:
  assumes "is_safe_id (Some s)"
  shows "CHR 0x0A \<notin> set s"
proof
  assume "CHR 0x0A \<in> set s"
  with assms have "\<not> (of_char CHR 0x0A :: nat) < 0x20"
    unfolding is_safe_id_def list_all_iff option.case by metis
  then show False by simp
qed

text \<open>
  C36: No command injection into the server script: for a valid uid, and an address and key
  without line breaks, the script of \<open>server_add\<close> is exactly one line, whatever the
  free-text comment contains.
\<close>

theorem server_add_script_single_line:
  assumes "is_safe_id (Some (n_uid node))" "CHR 0x0A \<notin> set address" "CHR 0x0A \<notin> set (n_xor_key node)"
  shows "\<exists>line. server_add_script node address = line @ [CHR 0x0A] \<and> CHR 0x0A \<notin> set line"
proof -
  have u: "CHR 0x0A \<notin> set (n_uid node)"
    using assms(1) by (rule safe_id_no_newline)
  define comment where "comment = (if sanitize_comment (Some (n_client_comment node)) 256 \<noteq> []
    then snprintf_s 280 ('' comment '' @ sanitize_comment (Some (n_client_comment node)) 256) else [])"
  define key where "key = (if n_xor_key node \<noteq> [] then snprintf_s 140 ('' xor '' @ n_xor_key node) else [])"
  have c: "CHR 0x0A \<notin> set comment"
  proof -
    have "CHR 0x0A \<notin> set (sanitize_comment (Some (n_client_comment node)) 256)"
      using sanitize_comment_chars by blast
    then have "CHR 0x0A \<notin> set ('' comment '' @ sanitize_comment (Some (n_client_comment node)) 256)"
      by simp
    then have "CHR 0x0A \<notin> set (snprintf_s 280 ('' comment '' @ sanitize_comment (Some (n_client_comment node)) 256))"
      using set_snprintf_s by blast
    then show ?thesis by (simp add: comment_def)
  qed
  have k: "CHR 0x0A \<notin> set key"
  proof -
    have "CHR 0x0A \<notin> set ('' xor '' @ n_xor_key node)" using assms(3) by simp
    then have "CHR 0x0A \<notin> set (snprintf_s 140 ('' xor '' @ n_xor_key node))"
      using set_snprintf_s by blast
    then show ?thesis by (simp add: key_def)
  qed
  let ?line = "''server-add uid '' @ n_uid node @ '' port '' @ show_int (n_client_port node) @
    '' address '' @ address @ key @ comment"
  have "server_add_script node address = ?line @ [CHR 0x0A]"
    unfolding server_add_script_def Let_def comment_def key_def by simp
  moreover have "CHR 0x0A \<notin> set ?line"
    using u c k assms(2) show_int_no_newline [of "n_client_port node"] by simp
  ultimately show ?thesis by blast
qed

text \<open>
  The environment of a child with a memory limit defines the limit exactly once,
  whatever the daemon's own environment says.
\<close>

theorem child_envp_memlimit_once:
  "filter (is_prefix TUMGRD_MEMLIMIT_ENV_EQ) (child_envp environ m) =
     [TUMGRD_MEMLIMIT_ENV_EQ @ show_nat (nat (m mod 2 ^ 32))]"
proof -
  let ?v = "show_nat (nat (m mod 2 ^ 32))"
  have len: "length (show_nat n) \<le> k" if "n < 10 ^ k" "0 < k" for n k
    using that
  proof (induction k arbitrary: n)
    case (Suc k)
    show ?case
    proof (cases "n < 10")
      case True
      then show ?thesis by (simp add: show_nat.simps [of n])
    next
      case False
      then have "0 < k" using Suc.prems(1) by (cases k) auto
      moreover have "n div 10 < 10 ^ k" using Suc.prems(1) by (simp add: less_mult_imp_div_less mult.commute)
      ultimately show ?thesis using False Suc.IH [of "n div 10"] by (simp add: show_nat.simps [of n])
    qed
  qed simp
  have "nat (m mod 2 ^ 32) < 10 ^ 10"
    using pos_mod_bound [of "2 ^ 32" m] by (simp add: nat_less_iff)
  then have "length ?v \<le> 10" by (rule len) simp
  then have "snprintf_s 64 (TUMGRD_MEMLIMIT_ENV_EQ @ ?v) = TUMGRD_MEMLIMIT_ENV_EQ @ ?v"
    by (simp add: snprintf_s_def TUMGRD_MEMLIMIT_ENV_EQ_def)
  then show ?thesis
    by (simp add: child_envp_def is_prefix_def)
qed

text \<open>
  C37: The log line of a \<open>tuctl_client\<close> command does not show the pre-shared key: two nodes that
  differ in it only are logged alike, as long as neither of the keys, or each of them, is the
  word \<open>psk\<close> or \<open>xor\<close> in some letter case. (For such a key the argument after it is masked, too.)
\<close>

theorem log_argv_hides_psk:
  assumes "(strcasecmp_eq k1 ''psk'' \<or> strcasecmp_eq k1 ''xor'') \<longleftrightarrow> (strcasecmp_eq k2 ''psk'' \<or> strcasecmp_eq k2 ''xor'')"
  shows "log_argv tag (tuctl_argv (node\<lparr>n_psk := k1\<rparr>)) = log_argv tag (tuctl_argv (node\<lparr>n_psk := k2\<rparr>))"
proof -
  have psk: "log_args off b (''psk'' # k1 # rest) = log_args off b (''psk'' # k2 # rest)" for off b rest
    using assms by (simp add: Let_def)
  have pre: "log_args off b (pre @ ''psk'' # k1 # rest) = log_args off b (pre @ ''psk'' # k2 # rest)"
    for pre off b rest
  proof (induction pre arbitrary: off b)
    case Nil
    show ?case using psk by simp
  next
    case (Cons a pre)
    then show ?case by (simp add: Let_def)
  qed
  have tail: "\<exists>pre rest. \<forall>k. tuctl_argv (node\<lparr>n_psk := k\<rparr>) = pre @ ''psk'' # k # rest"
    by (rule exI [of _ "[''tuctl_client''] @ (case ip_version_flag (Some (n_ip_version node)) of
          None \<Rightarrow> [] | Some f \<Rightarrow> [f]) @ [''max-retries'', ''1'']"], rule exI)
       (simp add: tuctl_argv_def)
  then show ?thesis using pre by (auto simp: log_argv_def)
qed

section \<open>Properties of a run\<close>

text \<open>
  C32: \<open>exec_with_stdio\<close> signals nothing but its own child: every signal it sends, to the child
  or to the child's process group, is sent while that child has not been reaped, so the
  process number cannot belong to another process.
\<close>

theorem exec_signals_only_live_child:
  assumes "exec_with_stdio os argv data hm ml n m s = Some (r, s')" "pipe_fds_ok os" "argv \<noteq> []"
  shows "\<exists>ks pid. kills (rt s') = ks @ kills (rt s) \<and>
    list_all (\<lambda>(target, c). (target = pid \<or> target = - pid) \<and> c = Alive pid) ks"
proof -
  obtain rc so se where r: "r = (rc, so, se)" by (metis surj_pair)
  have eff: "exec_effect os argv (the_default [] data) hm ml rc s s'"
    using rsatD [OF exec_with_stdio_effect [OF assms(2,3)] assms(1)] by (simp add: r)
  show ?thesis
  proof (cases "no_run s s'")
    case True
    then show ?thesis by (intro exI [of _ "[]"]) (simp add: no_run_def)
  next
    case False
    with eff obtain pid ks where "kills (rt s') = ks @ kills (rt s)" "list_all (safe_kill pid) ks"
      by (auto simp: exec_effect_def ran_def)
    moreover from this(2) have "list_all (\<lambda>(target, c). (target = pid \<or> target = - pid) \<and> c = Alive pid) ks"
      by (auto simp: list_all_iff safe_kill_def)
    ultimately show ?thesis by blast
  qed
qed

text \<open>
  C34: \<open>exec_with_stdio\<close> cleans up on every path, errors and timeouts included: it leaks no
  descriptor, leaves neither a running alarm nor a pending SIGALRM behind, restores the
  signal mask and does not touch the database.
\<close>

theorem exec_cleans_up:
  assumes "exec_with_stdio os argv data hm ml n m s = Some (r, s')" "pipe_fds_ok os" "argv \<noteq> []"
  shows "mset (open_fds (rt s')) = mset (open_fds (rt s)) \<and> alarm_in (rt s') = None \<and>
    \<not> sigalrm_pending (rt s') \<and> sigalrm_blocked (rt s') = sigalrm_blocked (rt s) \<and> db s' = db s"
proof -
  obtain rc so se where r: "r = (rc, so, se)" by (metis surj_pair)
  show ?thesis
    using rsatD [OF exec_with_stdio_effect [OF assms(2,3)] assms(1)]
    by (simp add: r exec_effect_def same_config_def)
qed

text \<open>
  C33: \<open>exec_with_stdio\<close> reports success only for a child that it started with the given
  arguments and environment, that exited normally with code 0 and was reaped; the child got
  a prefix of the input, and the flag of the deadline is down, so that no caller can take
  the run for a timeout.
\<close>

theorem exec_success_means_exit_zero:
  assumes "exec_with_stdio os argv data hm ml n m s = Some ((0, so, se), s')" "pipe_fds_ok os" "argv \<noteq> []"
  shows "\<exists>pid e. child (rt s') = Reaped pid (Some (Exited 0)) \<and> spawns (rt s') = e # spawns (rt s) \<and>
    sp_argv e = argv \<and> sp_envp e = (if hm then child_envp (os_environ os) ml else os_environ os) \<and>
    (\<exists>k. sp_stdin e = take k (the_default [] data)) \<and> \<not> watchdog_timed_out (rt s')"
proof -
  have "exec_effect os argv (the_default [] data) hm ml 0 s s'"
    using rsatD [OF exec_with_stdio_effect [OF assms(2,3)] assms(1)] by simp
  then show ?thesis by (fastforce simp: exec_effect_def ran_def run_envp_def)
qed

text \<open>
  C35: The deadline works: with the watchdog installed, the calls that run external tools
  return, even if a tool hangs for ever without reading its input, closing its output or
  exiting. What this needs of the kernel is \<open>kernel_live\<close>: \<open>posix_spawn\<close> itself returns (the window
  in \<open>vfork\<close> that SIGALRM cannot interrupt), SIGKILL ends a process, and other signals do not
  interrupt for ever.
\<close>

theorem tool_calls_return:
  assumes "kernel_live rank dead os" "pipe_fds_ok os" "watchdog_usable (rt s)" "\<not> sigalrm_blocked (rt s)"
  shows "(\<exists>rc s'. tumgrd_runner_server_add os node cfg ip s = Some (rc, s')) \<and>
    (\<exists>rc s'. tumgrd_runner_server_del os node s = Some (rc, s')) \<and>
    (\<exists>rc s'. tumgrd_runner_reset_local_client os node s = Some (rc, s'))"
  using server_add.terminates [OF assms, of node cfg ip] server_del.terminates [OF assms, of node]
    reset_client.terminates [OF assms, of node] by (auto simp del: not_None_eq dest: not_None_eq [THEN iffD1])

section \<open>The properties on concrete data\<close>

lemma demo_pipes: "pipe_fds_ok demo_os"
  by (simp add: pipe_fds_ok_def demo_os_def)

definition demo_rank :: "nat \<Rightarrow> nat" where "demo_rank w = 0"

definition demo_dead :: "nat \<Rightarrow> bool" where "demo_dead w = True"

lemma demo_live: "kernel_live demo_rank demo_dead demo_os"
  by (simp add: kernel_live_def spawn_returns_def kernel_keeps_def demo_os_def demo_rank_def demo_dead_def)

text \<open>A world whose tools hang for ever: nothing comes out of them and they do not exit.\<close>

definition hang_os :: "bool os" where
  "hang_os = \<lparr>
     os_time = (\<lambda>w. (1700000000, w)), os_alloc = (\<lambda>w. (True, w)),
     os_mkdir = (\<lambda>_ w. (None, w)), os_open_urandom = (\<lambda>w. (7, w)),
     os_read_urandom = (\<lambda>n w. (Inr (replicate n CHR 0xAB), w)),
     os_uci_wan = (\<lambda>w. (UciNotFound, w)), os_sqlite = (\<lambda>w. (None, w)),
     os_scan = (\<lambda>t w. (t, w)), os_journal_mode = (\<lambda>w. (None, w)),
     os_alarm_ticks = (\<lambda>n w. (n, w)), os_sigaction = (\<lambda>w. (0, w)), os_environ = [],
     os_pipe = (\<lambda>w. (Some (10, 11), w)), os_dupfd = (\<lambda>_ w. (12, w)),
     os_fdflags = (\<lambda>_ w. (0, w)), os_spawn_attr = (\<lambda>w. (0, w)),
     os_spawnp = (\<lambda>_ _ w. (Some (Inr 100), False)), os_write = (\<lambda>_ _ w. (Block, w)),
     os_read = (\<lambda>_ _ w. (Block, w)),
     os_waitpid = (\<lambda>_ w. (if w then Ret (Signaled 9) else Block, w)),
     os_kill = (\<lambda>_ w. (0, True)),
     os_inet_pton4 = (\<lambda>_. False), os_inet_pton6 = (\<lambda>_. False),
     os_getaddrinfo = (\<lambda>_ _ _ w. (None, w)), os_socket = (\<lambda>_ w. (- 1, w)),
     os_setsockopt = (\<lambda>_ _ w. (0, w)), os_connect = (\<lambda>_ w. (None, w)),
     os_select = (\<lambda>w. (0, w)), os_so_error = (\<lambda>w. (0, w)),
     os_getsockname = (\<lambda>w. (None, w)),
     os_send = (\<lambda>_ w. (Block, w)), os_recv = (\<lambda>_ w. (Block, w))\<rparr>"

lemma hang_live: "kernel_live (\<lambda>_. 0) (\<lambda>killed. killed) hang_os"
  by (simp add: kernel_live_def spawn_returns_def kernel_keeps_def hang_os_def)

lemma hang_pipes: "pipe_fds_ok hang_os"
  by (simp add: pipe_fds_ok_def hang_os_def)

theorem tool_calls_return_witness:
  "\<exists>rc s'. tumgrd_runner_server_del hang_os demo_node
     \<lparr>db = db (demo_sys []), rt = rt (demo_sys []), world = False\<rparr> = Some (rc, s')"
  using tool_calls_return [OF hang_live hang_pipes,
      of "\<lparr>db = db (demo_sys []), rt = rt (demo_sys []), world = False\<rparr>" demo_node]
  by (simp add: demo_sys_def)

lemma demo_exec:
  obtains rc so se s' where "exec_with_stdio demo_os [''ktuctl''] None False 0 1024 1024 (demo_sys [])
    = Some ((rc, so, se), s')"
  using exec_with_stdio_returns [OF demo_live demo_pipes, of "demo_sys []" "[''ktuctl'']" None False 0 1024 1024]
  by (auto simp: demo_sys_def)

theorem exec_signals_only_live_child_witness:
  "\<exists>r s' ks pid. exec_with_stdio demo_os [''ktuctl''] None False 0 1024 1024 (demo_sys []) = Some (r, s') \<and>
    kills (rt s') = ks @ [] \<and>
    list_all (\<lambda>(target, c). (target = pid \<or> target = - pid) \<and> c = Alive pid) ks"
proof -
  obtain rc so se s' where e: "exec_with_stdio demo_os [''ktuctl''] None False 0 1024 1024 (demo_sys [])
    = Some ((rc, so, se), s')" by (rule demo_exec)
  have "kills (rt (demo_sys [])) = []" by (simp add: demo_sys_def)
  with exec_signals_only_live_child [OF e demo_pipes] e show ?thesis by auto
qed

theorem exec_cleans_up_witness:
  "\<exists>r s'. exec_with_stdio demo_os [''ktuctl''] None False 0 1024 1024 (demo_sys []) = Some (r, s') \<and>
    open_fds (rt s') = [] \<and> alarm_in (rt s') = None"
proof -
  obtain rc so se s' where e: "exec_with_stdio demo_os [''ktuctl''] None False 0 1024 1024 (demo_sys [])
    = Some ((rc, so, se), s')" by (rule demo_exec)
  have "open_fds (rt (demo_sys [])) = []" by (simp add: demo_sys_def)
  with exec_cleans_up [OF e demo_pipes] e show ?thesis by auto
qed

theorem server_add_script_single_line_witness:
  "\<exists>line. server_add_script demo_node ''203.0.113.7'' = line @ [CHR 0x0A] \<and> CHR 0x0A \<notin> set line"
proof (rule server_add_script_single_line)
  show "is_safe_id (Some (n_uid demo_node))" by code_simp
qed (simp_all add: demo_node_def)

theorem log_argv_hides_psk_witness:
  "log_argv ''tuctl_client'' (tuctl_argv (demo_node\<lparr>n_psk := ''secret''\<rparr>)) =
   log_argv ''tuctl_client'' (tuctl_argv (demo_node\<lparr>n_psk := ''other''\<rparr>))"
  by (rule log_argv_hides_psk) code_simp+

lemma demo_read:
  obtains rc buf s' where "read_all_fd demo_os 10 1024 ((demo_sys [])\<lparr>rt := (rt (demo_sys []))\<lparr>alarm_in := Some 90\<rparr>\<rparr>)
    = Some ((rc, buf), s')"
  using drain_returns [OF demo_live, of "(demo_sys [])\<lparr>rt := (rt (demo_sys []))\<lparr>alarm_in := Some 90\<rparr>\<rparr>" 10 1024]
  by (auto simp: demo_sys_def armed_def drain_def)

text \<open>The calls of the concrete world, for the evaluation of one whole run.\<close>

lemma demo_calls [simp]:
  "ext (os_pipe demo_os) s = (Some (10, 11), s)" "ext (os_fdflags demo_os fd) s = (0, s)"
  "ext (os_spawn_attr demo_os) s = (0, s)" "ext (os_spawnp demo_os a e) s = (Some (Inr 100), s)"
  "ext (os_alarm_ticks demo_os n) s = (n, s)" "ext (os_waitpid demo_os pid) s = (Ret (Exited 0), s)"
  "ext (os_read demo_os fd k) s =
     (Ret (if even (world s) then take k ''server updated: server deleted:'' else []),
      s\<lparr>world := Suc (world s)\<rparr>)"
  by (simp_all add: ext_def demo_os_def)

lemma demo_tick [simp]: "alarm_in (rt s) = None \<or> alarm_in (rt s) = Some 90 \<Longrightarrow> tick demo_os s = s"
  by (auto simp: tick_def)

lemma demo_pipe_end [simp]: "3 \<le> fd \<Longrightarrow> prepare_pipe_end demo_os fd s = ((0, fd), s)"
  by (simp add: prepare_pipe_end_def set_cloexec_def)

lemma demo_open_pipes: "open_pipes demo_os s =
   ((0, \<lparr>in_r = 10, in_w = 11, out_r = 10, out_w = 11, err_r = 10, err_w = 11\<rparr>),
    s\<lparr>rt := (rt s)\<lparr>open_fds := [11, 10, 11, 10, 11, 10] @ open_fds (rt s)\<rparr>\<rparr>)"
  by (simp add: open_pipes_def open_pipe_def fd_opened_def)

lemma demo_attr: "spawn_attr_calls demo_os n s = (0, s)"
  by (induction n) simp_all

lemma demo_check [simp]:
  "alarm_in (rt s) = Some 90 \<Longrightarrow> \<not> watchdog_timed_out (rt s) \<Longrightarrow> watchdog_check demo_os pid s = Some (0, s)"
  by (simp add: watchdog_check_def)

lemma demo_drain:
  "alarm_in (rt s) = Some 90 \<Longrightarrow> even (world s) \<Longrightarrow> drain demo_os fd 1024 s =
     Some ((0, ''server updated: server deleted:''), s\<lparr>world := Suc (Suc (world s))\<rparr>)"
  by (simp add: drain_def read_all_fd_def read_all_loop.simps [of demo_os] interruptible_def)

lemma demo_wait: "alarm_in (rt s) = Some 90 \<Longrightarrow> \<not> watchdog_timed_out (rt s) \<Longrightarrow>
   exec_wait demo_os pid s = Some (0, s\<lparr>rt := (rt s)\<lparr>child := Reaped pid (Some (Exited 0))\<rparr>\<rparr>)"
  by (simp add: exec_wait_def wait_child.simps [of demo_os] waitpid_def interruptible_def)

lemma demo_feed: "feed_stdin demo_os fd [] s = Some ((), s)"
  by (simp add: feed_stdin.simps)

lemma demo_arm: "watchdog_arm demo_os (demo_sys t) =
   (demo_sys t)\<lparr>rt := (rt (demo_sys t))\<lparr>alarm_in := Some 90\<rparr>\<rparr>"
  by (simp add: watchdog_arm_def watchdog_mask_signal_def demo_sys_def alarm_def
      watchdog_discard_pending_def restore_mask_def TUMGRD_SUBPROC_TIMEOUT_S_def)

theorem exec_success_means_exit_zero_witness:
  "\<exists>so se s' pid e. exec_with_stdio demo_os [''ktuctl''] None False 0 1024 1024 (demo_sys []) = Some ((0, so, se), s') \<and>
     child (rt s') = Reaped pid (Some (Exited 0)) \<and> spawns (rt s') = [e] \<and> sp_argv e = [''ktuctl'']"
proof -
  have "\<exists>so se s'. exec_with_stdio demo_os [''ktuctl''] None False 0 1024 1024 (demo_sys []) = Some ((0, so, se), s')"
    by (simp add: exec_with_stdio_def demo_arm exec_body_def demo_open_pipes demo_attr build_envp_def
        posix_spawnp_def exec_child_def demo_feed demo_drain demo_wait close_fd_def the_default_def Let_def
        del: spawn_attr_calls.simps) (simp add: demo_sys_def demo_feed demo_drain demo_wait close_fd_def
        the_default_def Let_def)
  then obtain so se s' where e: "exec_with_stdio demo_os [''ktuctl''] None False 0 1024 1024 (demo_sys [])
    = Some ((0, so, se), s')" by blast
  have "spawns (rt (demo_sys [])) = []" by (simp add: demo_sys_def)
  with exec_success_means_exit_zero [OF e demo_pipes] e show ?thesis by auto
qed

theorem read_all_fd_in_bounds_witness:
  "\<exists>rc buf s'. read_all_fd demo_os 10 1024 ((demo_sys [])\<lparr>rt := (rt (demo_sys []))\<lparr>alarm_in := Some 90\<rparr>\<rparr>)
    = Some ((rc, buf), s') \<and> length buf < 1024"
proof -
  let ?s = "(demo_sys [])\<lparr>rt := (rt (demo_sys []))\<lparr>alarm_in := Some 90\<rparr>\<rparr>"
  have "read_all_fd demo_os 10 1024 ?s =
     Some ((0, ''server updated: server deleted:''), ?s\<lparr>world := Suc (Suc (world ?s))\<rparr>)"
    using demo_drain [of ?s 10] by (simp add: drain_def) (simp add: demo_sys_def)
  from read_all_fd_in_bounds [OF _ _ this] this show ?thesis
    by (auto simp: demo_os_def split: if_splits)
qed

end
