(* ===== verification/Tumgrd_Ipdetect.thy ===== *)
theory Tumgrd_Ipdetect
  imports Tumgrd_Runner
begin

text \<open>
  \<open>src/src/ipdetect.c\<close>: finding the public address, by the source address of an outgoing
  IPv6 connection or by an HTTP request.

  \<open>inet_pton\<close>, name resolution and the socket calls belong to the outside world. A socket
  call that would block for ever returns \<open>EAGAIN\<close> if its timeout was set, and otherwise
  never returns (\<^const>\<open>None\<close>). \<open>getsockname\<close> and \<open>inet_ntop\<close> together answer whether the
  family is IPv6, the text of the address and whether it is link-local. The output buffer
  is passed in and returned, since the callers look at it after a failure too.
\<close>

section \<open>Recognising addresses\<close>

definition set_ipdetect_fwmark :: "int \<Rightarrow> 'w sys \<Rightarrow> 'w sys" where
  "set_ipdetect_fwmark mark s = s\<lparr>rt := (rt s)\<lparr>ipdetect_fwmark := mark\<rparr>\<rparr>"

definition is_ipv4 :: "'w os \<Rightarrow> string \<Rightarrow> bool" where
  "is_ipv4 os s = os_inet_pton4 os s"

definition is_ipv6 :: "'w os \<Rightarrow> string \<Rightarrow> bool" where
  "is_ipv6 os s = os_inet_pton6 os s"

definition ip_family_from_version :: "string nullable \<Rightarrow> nat" where
  "ip_family_from_version ip_version =
     (if ip_version = None \<or> ip_version = Some [] then 0
      else if streqcase ip_version (Some ''ipv4'') then 4
      else if streqcase ip_version (Some ''ipv6'') then 6
      else 0)"

definition accepts :: "'w os \<Rightarrow> nat \<Rightarrow> string \<Rightarrow> bool" where
  "accepts os family t \<longleftrightarrow>
     (family = 0 \<or> family = 4) \<and> is_ipv4 os t \<or> (family = 0 \<or> family = 6) \<and> is_ipv6 os t"

definition is_separator :: "char \<Rightarrow> bool" where
  "is_separator c \<longleftrightarrow> isspace c \<or> c = CHR 0x22 \<or> c = CHR 0x27 \<or> c = CHR ''<'' \<or> c = CHR ''>'' \<or>
     c = CHR '','' \<or> c = CHR '';''"

function extract_token :: "'w os \<Rightarrow> nat \<Rightarrow> string \<Rightarrow> string nullable" where
  "extract_token os family p =
     (let p = dropWhile is_separator p
      in if p = [] then None
         else
           let token = take 127 (takeWhile (\<lambda>c. \<not> is_separator c) p);
               p = dropWhile (\<lambda>c. \<not> is_separator c) p
           in if accepts os family token then Some token else extract_token os family p)"
  by pat_completeness auto

termination
proof (relation "measure (\<lambda>(os, family, p). length p)")
  fix os :: "'w os" and family p x xa xb
  assume x: "x = dropWhile is_separator p" and ne: "x \<noteq> []"
    and xb: "xb = dropWhile (\<lambda>c. \<not> is_separator c) x"
  have "\<not> is_separator (hd x)" using x ne by (metis hd_dropWhile)
  then have "length xb < length x" using ne xb by (cases x) (auto simp: length_dropWhile_le le_imp_less_Suc)
  moreover have "length x \<le> length p" using x by (simp add: length_dropWhile_le)
  ultimately show "((os, family, xb), os, family, p) \<in> measure (\<lambda>(os, family, p). length p)" by simp
qed simp

declare extract_token.simps [simp del]

definition extract_ip ::
  "'w os \<Rightarrow> string \<Rightarrow> string nullable \<Rightarrow> string \<Rightarrow> nat \<Rightarrow> int \<times> string" where
  "extract_ip os txt ip_version out out_len =
     (if out_len = 0 then (- 1, out)
      else
        let buf = trim_inplace (copy_string [] 512 (Some txt));
            family = ip_family_from_version ip_version
        in if accepts os family buf then (0, snprintf_s out_len buf)
           else case extract_token os family buf of
                  None \<Rightarrow> (- 1, out)
                | Some token \<Rightarrow> (0, copy_string out out_len (Some token)))"

section \<open>URLs\<close>

definition has_url_scheme :: "string \<Rightarrow> bool" where
  "has_url_scheme url \<longleftrightarrow>
     url \<noteq> [] \<and> isalpha (hd url) \<and>
     is_prefix ''://'' (dropWhile (\<lambda>c. isalnum c \<or> c = CHR ''+'' \<or> c = CHR ''-'' \<or> c = CHR ''.'') (tl url))"

text \<open>Host and the rest of the URL after it.\<close>

definition url_host :: "string \<Rightarrow> (string \<times> string) option" where
  "url_host p =
     (if p \<noteq> [] \<and> hd p = CHR ''['' then
        let host_start = tl p
        in if CHR '']'' \<notin> set host_start then None
           else Some (takeWhile (\<lambda>c. c \<noteq> CHR '']'') host_start,
                      tl (dropWhile (\<lambda>c. c \<noteq> CHR '']'') host_start))
      else Some (takeWhile (\<lambda>c. c \<noteq> CHR ''/'' \<and> c \<noteq> CHR '':'') p,
                 dropWhile (\<lambda>c. c \<noteq> CHR ''/'' \<and> c \<noteq> CHR '':'') p))"

text \<open>Port and the rest; \<open>bits\<close> is the width of \<open>long\<close>.\<close>

definition url_port :: "nat \<Rightarrow> string \<Rightarrow> (int \<times> string) option" where
  "url_port bits p =
     (if p \<noteq> [] \<and> hd p = CHR '':'' then
        let port_start = tl p;
            rest = dropWhile isdigit port_start;
            port_num = fst (strtol bits 10 port_start)
        in if rest = port_start then None
           else if port_num < 1 \<or> port_num > 65535 then None
           else Some (to_int32 port_num, rest)
      else Some (TUMGRD_DEFAULT_IP_CHECK_PORT, p))"

definition parse_url_host_path ::
  "nat \<Rightarrow> string nullable \<Rightarrow> nat \<Rightarrow> nat \<Rightarrow> (string \<times> int \<times> string) option" where
  "parse_url_host_path bits url host_size path_size =
     (case url of None \<Rightarrow> None
      | Some url \<Rightarrow>
          if url = [] then None
          else if has_url_scheme url \<and> \<not> is_prefix ''http://'' url then None
          else
            let p = (if has_url_scheme url then drop 7 url else url)
            in case url_host p of None \<Rightarrow> None
               | Some (host, p) \<Rightarrow>
                   if length host \<ge> host_size then None
                   else if length host = 0 then None
                   else case url_port bits p of None \<Rightarrow> None
                        | Some (port, p) \<Rightarrow>
                            if p \<noteq> [] \<and> hd p \<noteq> CHR ''/'' then None
                            else
                              let path = (if p = [] then ''/'' else p)
                              in if length path \<ge> path_size then None
                                 else Some (host, port, path))"

section \<open>Sockets\<close>

text \<open>\<open>socket\<close> and the SO_MARK option, whose failure is only logged.\<close>

definition open_socket :: "'w os \<Rightarrow> string \<Rightarrow> 'w sys \<Rightarrow> int \<times> 'w sys" where
  "open_socket os addr s =
     (let (fd, s) = ext (os_socket os addr) s
      in if fd < 0 then (fd, s)
         else
           let s = fd_opened fd s;
               (_, s) = ext (os_setsockopt os ''SO_MARK'' (ipdetect_fwmark (rt s))) s
           in (fd, s))"

text \<open>A non-blocking \<open>connect\<close>, awaited by \<open>select\<close> for three seconds.\<close>

definition connect_nonblock :: "'w os \<Rightarrow> string \<Rightarrow> 'w sys \<Rightarrow> bool \<times> 'w sys" where
  "connect_nonblock os addr s =
     (let (e, s) = ext (os_connect os addr) s
      in case e of None \<Rightarrow> (True, s)
         | Some e \<Rightarrow>
             if e \<noteq> EINPROGRESS then (False, s)
             else
               let (ret, s) = ext (os_select os) s
               in if ret \<le> 0 then (False, s)
                  else let (so_error, s) = ext (os_so_error os) s in (so_error = 0, s))"

fun ipv6_connect_loop :: "'w os \<Rightarrow> string list \<Rightarrow> 'w sys \<Rightarrow> int \<times> 'w sys" where
  "ipv6_connect_loop os [] s = (- 1, s)"
| "ipv6_connect_loop os (rp # res) s =
     (let (sockfd, s) = open_socket os rp s
      in if sockfd < 0 then ipv6_connect_loop os res s
         else
           let (ok, s) = connect_nonblock os rp s
           in if ok then (sockfd, s) else ipv6_connect_loop os res (close_fd sockfd s))"

definition detect_ipv6_wan_by_connect ::
  "'w os \<Rightarrow> string nullable \<Rightarrow> int \<Rightarrow> string \<Rightarrow> nat \<Rightarrow> 'w sys \<Rightarrow> (int \<times> string) \<times> 'w sys" where
  "detect_ipv6_wan_by_connect os host port out out_len s =
     (if out_len = 0 then ((- 1, out), s)
      else
        let out = [];
            host = (case host of None \<Rightarrow> ''ipv6.baidu.com''
                    | Some h \<Rightarrow> if h = [] then ''ipv6.baidu.com'' else h);
            port = (if port \<le> 0 \<or> port > 65535 then 80 else port);
            (res, s) = ext (os_getaddrinfo os True host (snprintf_s 16 (show_int port))) s
        in case res of None \<Rightarrow> ((- 1, out), s)
           | Some res \<Rightarrow>
               let (sockfd, s) = ipv6_connect_loop os res s
               in if sockfd < 0 then ((- 1, out), s)
                  else
                    let (addr, s) = ext (os_getsockname os) s
                    in case addr of None \<Rightarrow> ((- 1, out), close_fd sockfd s)
                       | Some (inet6, addr_text, link_local) \<Rightarrow>
                           if \<not> inet6 then ((- 1, out), close_fd sockfd s)
                           else if length addr_text \<ge> out_len then ((- 1, out), close_fd sockfd s)
                           else if link_local then ((- 1, addr_text), close_fd sockfd s)
                           else ((0, addr_text), close_fd sockfd s))"

section \<open>HTTP\<close>

text \<open>
  Connecting: the socket and whether its send and receive timeouts were set. SO_SNDTIMEO
  also bounds \<open>connect\<close>, which returns in any case.
\<close>

fun http_connect_loop :: "'w os \<Rightarrow> string list \<Rightarrow> 'w sys \<Rightarrow> (int \<times> bool \<times> bool) \<times> 'w sys" where
  "http_connect_loop os [] s = ((- 1, False, False), s)"
| "http_connect_loop os (rp # res) s =
     (let (sock, s) = open_socket os rp s
      in if sock < 0 then http_connect_loop os res s
         else
           let (snd_rc, s) = ext (os_setsockopt os ''SO_SNDTIMEO'' TUMGRD_IPDETECT_TIMEOUT_S) s;
               (rcv_rc, s) = ext (os_setsockopt os ''SO_RCVTIMEO'' TUMGRD_IPDETECT_TIMEOUT_S) s;
               (e, s) = ext (os_connect os rp) s
           in if e = None then ((sock, snd_rc \<ge> 0, rcv_rc \<ge> 0), s)
              else http_connect_loop os res (close_fd sock s))"

text \<open>A call on a socket with or without a timeout.\<close>

definition timed ::
  "bool \<Rightarrow> ('w \<Rightarrow> 'a sysret \<times> 'w) \<Rightarrow> 'w sys \<Rightarrow> ((errno + 'a) \<times> 'w sys) option" where
  "timed has_timeout f s =
     (let (r, s) = ext f s
      in case r of Ret a \<Rightarrow> Some (Inr a, s) | Err e \<Rightarrow> Some (Inl e, s)
         | Block \<Rightarrow> if has_timeout then Some (Inl EAGAIN, s) else None)"

partial_function (option) send_all :: "'w os \<Rightarrow> bool \<Rightarrow> string \<Rightarrow> 'w sys \<Rightarrow> (bool \<times> 'w sys) option" where
  "send_all os snd_timeout request s =
     (if request = [] then Some (True, s)
      else
        do { (r, s) \<leftarrow> timed snd_timeout (os_send os request) s;
             case r of
               Inl e \<Rightarrow> if e = EINTR then send_all os snd_timeout request s else Some (False, s)
             | Inr m \<Rightarrow> if m = 0 then Some (False, s) else send_all os snd_timeout (drop m request) s })"

partial_function (option) recv_all ::
  "'w os \<Rightarrow> bool \<Rightarrow> nat \<Rightarrow> string \<Rightarrow> 'w sys \<Rightarrow> (string nullable \<times> 'w sys) option" where
  "recv_all os rcv_timeout cap response s =
     (if length response < cap - 1 then
        do { (r, s) \<leftarrow> timed rcv_timeout (os_recv os (cap - 1 - length response)) s;
             case r of
               Inl e \<Rightarrow> if e = EINTR then recv_all os rcv_timeout cap response s else Some (None, s)
             | Inr bs \<Rightarrow> if bs = [] then Some (Some response, s)
                         else recv_all os rcv_timeout cap (response @ bs) s }
      else Some (Some response, s))"

definition http_host_header :: "'w os \<Rightarrow> string \<Rightarrow> int \<Rightarrow> string" where
  "http_host_header os host port =
     (if is_ipv6 os host then
        if port \<noteq> TUMGRD_DEFAULT_IP_CHECK_PORT then ''['' @ host @ '']:'' @ show_int port
        else ''['' @ host @ '']''
      else if port \<noteq> TUMGRD_DEFAULT_IP_CHECK_PORT then host @ '':'' @ show_int port
      else host)"

definition crlf :: string where "crlf = [CHR 0x0D, CHR 0x0A]"

definition http_request :: "string \<Rightarrow> string \<Rightarrow> string" where
  "http_request path host_header =
     ''GET '' @ path @ '' HTTP/1.1'' @ crlf @ ''Host: '' @ host_header @ crlf @
     ''User-Agent: Wget/1.21.4'' @ crlf @ ''Connection: close'' @ crlf @ crlf"

text \<open>The body of a response with status 200. The string functions see the bytes before the first NUL.\<close>

definition http_body :: "string \<Rightarrow> string nullable" where
  "http_body response =
     (let text = cstr_of response;
          status_line = dropWhile (\<lambda>c. c = CHR '' '') (dropWhile (\<lambda>c. c \<noteq> CHR '' '') (drop 5 text))
      in if \<not> is_prefix ''HTTP/'' text then None
         else if \<not> is_prefix ''200'' status_line then None
         else
           let body_start = (case strstr text (crlf @ crlf) of
                 Some t \<Rightarrow> Some (length text - length t + 4)
               | None \<Rightarrow>
                   case strstr text [CHR 0x0A, CHR 0x0A] of
                     Some t \<Rightarrow> Some (length text - length t + 2) | None \<Rightarrow> None)
           in case body_start of None \<Rightarrow> None
              | Some start \<Rightarrow> if drop start response = [] then None else Some (drop start response))"

definition http_get_with_mark ::
  "'w os \<Rightarrow> string \<Rightarrow> int \<Rightarrow> string \<Rightarrow> string \<Rightarrow> nat \<Rightarrow> 'w sys \<Rightarrow> ((int \<times> string) \<times> 'w sys) option" where
  "http_get_with_mark os host port path out out_len s =
     (if out_len = 0 then Some ((- 1, out), s)
      else
        let (res, s) = ext (os_getaddrinfo os False host (snprintf_s 8 (show_int port))) s
        in case res of None \<Rightarrow> Some ((- 1, out), s)
           | Some res \<Rightarrow>
               let ((sock, snd_timeout, rcv_timeout), s) = http_connect_loop os res s
               in if sock < 0 then Some ((- 1, out), s)
                  else
                    let host_header = http_host_header os host port;
                        request = http_request path host_header
                    in if length host_header \<ge> 288 then Some ((- 1, out), close_fd sock s)
                       else if length request \<ge> 512 then Some ((- 1, out), close_fd sock s)
                       else
                         do { (sent, s) \<leftarrow> send_all os snd_timeout request s;
                              if \<not> sent then Some ((- 1, out), close_fd sock s) else
                         do { (response, s) \<leftarrow> recv_all os rcv_timeout 4096 [] s;
                              case response of None \<Rightarrow> Some ((- 1, out), close_fd sock s)
                              | Some response \<Rightarrow>
                                  case http_body response of
                                    None \<Rightarrow> Some ((- 1, out), close_fd sock s)
                                  | Some body \<Rightarrow> Some ((0, take (out_len - 1) body), close_fd sock s) } })"

definition detect_public_ip ::
  "nat \<Rightarrow> 'w os \<Rightarrow> string nullable \<Rightarrow> string nullable \<Rightarrow> string \<Rightarrow> nat \<Rightarrow> 'w sys
   \<Rightarrow> ((int \<times> string) \<times> 'w sys) option" where
  "detect_public_ip bits os url ip_version out out_len s =
     (if out_len = 0 then Some ((- 1, out), s)
      else
        let out = [];
            target = (case url of
                None \<Rightarrow> Some (TUMGRD_DEFAULT_IP_CHECK_HOST, TUMGRD_DEFAULT_IP_CHECK_PORT,
                              TUMGRD_DEFAULT_IP_CHECK_PATH)
              | Some u \<Rightarrow>
                  if u = [] then Some (TUMGRD_DEFAULT_IP_CHECK_HOST, TUMGRD_DEFAULT_IP_CHECK_PORT,
                                       TUMGRD_DEFAULT_IP_CHECK_PATH)
                  else parse_url_host_path bits url 128 256)
        in case target of None \<Rightarrow> Some ((- 1, out), s)
           | Some (host, port, path) \<Rightarrow>
               let family = ip_family_from_version ip_version;
                   ((err, out), s) =
                     (if family = 6 \<and> streqcase (Some host) (Some TUMGRD_DEFAULT_IP_CHECK_HOST)
                      then detect_ipv6_wan_by_connect os (Some ''ipv6.baidu.com'') 80 out out_len s
                      else ((- 1, out), s))
               in if err = 0 then Some ((0, out), s)
                  else
                    do { ((err, buf), s) \<leftarrow> http_get_with_mark os host port path [] 512 s;
                         if err = 0 then
                           let (rc, out) = extract_ip os (cstr_of buf) ip_version out out_len
                           in if rc = 0 then Some ((0, out), s) else Some ((- 1, out), s)
                         else Some ((- 1, out), s) })"


section \<open>Only the outside world changes\<close>

definition only_world :: "'w sys \<Rightarrow> 'w sys \<Rightarrow> bool" where
  "only_world s s' \<longleftrightarrow> (\<exists>w. s' = s\<lparr>world := w\<rparr>)"

lemma only_world_refl [simp]: "only_world s s"
  unfolding only_world_def by (rule exI [of _ "world s"]) simp

lemma only_world_trans [trans]: "only_world s t \<Longrightarrow> only_world t u \<Longrightarrow> only_world s u"
  by (auto simp: only_world_def)

lemma only_world_frame: "only_world s s' \<Longrightarrow> db s' = db s \<and> rt s' = rt s"
  by (auto simp: only_world_def)

lemma ext_only_world: "ext f s = (a, s') \<Longrightarrow> only_world s s'"
  by (auto simp: ext_result only_world_def)

lemma close_only_world: "only_world (fd_opened fd s) t \<Longrightarrow> only_world s (close_fd fd t)"
  by (auto simp: only_world_def fd_opened_def close_fd_def)

text \<open>After an attempt to open a socket: nothing changed, or \<open>fd\<close> is open.\<close>

definition sock_world :: "int \<Rightarrow> 'w sys \<Rightarrow> 'w sys \<Rightarrow> bool" where
  "sock_world fd s s' \<longleftrightarrow> (if fd < 0 then only_world s s' else only_world (fd_opened fd s) s')"

lemma sock_world_prefix: "only_world s t \<Longrightarrow> sock_world fd t u \<Longrightarrow> sock_world fd s u"
  by (auto simp: sock_world_def only_world_def fd_opened_def split: if_splits)

lemma sock_world_suffix: "sock_world fd s t \<Longrightarrow> only_world t u \<Longrightarrow> sock_world fd s u"
  by (auto simp: sock_world_def intro: only_world_trans split: if_splits)

lemma sock_world_close: "sock_world fd s t \<Longrightarrow> \<not> fd < 0 \<Longrightarrow> only_world s (close_fd fd t)"
  by (simp add: sock_world_def close_only_world)

lemma open_socket_world: "open_socket os addr s = (fd, s') \<Longrightarrow> sock_world fd s s'"
  by (auto simp: open_socket_def sock_world_def only_world_def fd_opened_def ext_result
      split: if_splits prod.splits)

lemma connect_nonblock_world: "connect_nonblock os addr s = (ok, s') \<Longrightarrow> only_world s s'"
  by (auto simp: connect_nonblock_def split: option.splits if_splits prod.splits
      dest!: ext_only_world intro: only_world_trans)

lemma ipv6_connect_loop_world: "ipv6_connect_loop os res s = (fd, s') \<Longrightarrow> sock_world fd s s'"
proof (induction res arbitrary: s)
  case (Cons rp res)
  obtain sock t where 1: "open_socket os rp s = (sock, t)" by fastforce
  obtain ok u where 2: "connect_nonblock os rp t = (ok, u)" by fastforce
  note o = open_socket_world [OF 1] and c = connect_nonblock_world [OF 2]
  note u = sock_world_suffix [OF o c]
  show ?case
  proof (cases "sock < 0")
    case True
    with Cons.prems 1 have "ipv6_connect_loop os res t = (fd, s')" by simp
    moreover have "only_world s t" using o True by (simp add: sock_world_def)
    ultimately show ?thesis using Cons.IH sock_world_prefix by blast
  next
    case False
    show ?thesis
    proof (cases ok)
      case True
      with False Cons.prems 1 2 u show ?thesis by simp
    next
      case F: False
      with False Cons.prems 1 2 have "ipv6_connect_loop os res (close_fd sock u) = (fd, s')" by simp
      from sock_world_prefix [OF sock_world_close [OF u False] Cons.IH [OF this]] show ?thesis .
    qed
  qed
qed (simp add: sock_world_def)

lemma http_connect_loop_world: "http_connect_loop os res s = ((fd, a, b), s') \<Longrightarrow> sock_world fd s s'"
proof (induction res arbitrary: s)
  case (Cons rp res)
  obtain sock t where 1: "open_socket os rp s = (sock, t)" by fastforce
  obtain r1 t1 where 2: "ext (os_setsockopt os ''SO_SNDTIMEO'' TUMGRD_IPDETECT_TIMEOUT_S) t = (r1, t1)"
    by fastforce
  obtain r2 t2 where 3: "ext (os_setsockopt os ''SO_RCVTIMEO'' TUMGRD_IPDETECT_TIMEOUT_S) t1 = (r2, t2)"
    by fastforce
  obtain e u where 4: "ext (os_connect os rp) t2 = (e, u)" by fastforce
  note c = only_world_trans [OF ext_only_world [OF 2] only_world_trans [OF ext_only_world [OF 3] ext_only_world [OF 4]]]
  note o = open_socket_world [OF 1] and u = sock_world_suffix [OF open_socket_world [OF 1] c]
  show ?case
  proof (cases "sock < 0")
    case True
    with Cons.prems 1 have "http_connect_loop os res t = ((fd, a, b), s')" by simp
    moreover have "only_world s t" using o True by (simp add: sock_world_def)
    ultimately show ?thesis using Cons.IH sock_world_prefix by blast
  next
    case False
    show ?thesis
    proof (cases e)
      case None
      with Cons.prems False 1 2 3 4 u show ?thesis by simp
    next
      case (Some x)
      with False Cons.prems 1 2 3 4
      have "http_connect_loop os res (close_fd sock u) = ((fd, a, b), s')" by simp
      from sock_world_prefix [OF sock_world_close [OF u False] Cons.IH [OF this]] show ?thesis .
    qed
  qed
qed (simp add: sock_world_def)

lemma detect_ipv6_outcome:
  assumes "detect_ipv6_wan_by_connect os host port out n s = ((rc, addr), s')"
  shows "only_world s s' \<and> (rc = 0 \<or> rc = - 1) \<and> (rc = 0 \<longrightarrow> length addr < n \<and>
    (\<exists>w w'. os_getsockname os w = (Some (True, addr, False), w')))"
proof (cases "n = 0")
  case True
  with assms show ?thesis by (simp add: detect_ipv6_wan_by_connect_def)
next
  case n: False
  define h where "h = (case host of None \<Rightarrow> ''ipv6.baidu.com'' | Some h \<Rightarrow> if h = [] then ''ipv6.baidu.com'' else h)"
  define p where "p = (if port \<le> 0 \<or> port > 65535 then 80 else port)"
  obtain res t where 1: "ext (os_getaddrinfo os True h (snprintf_s 16 (show_int p))) s = (res, t)" by fastforce
  note t = ext_only_world [OF 1]
  show ?thesis
  proof (cases res)
    case None
    with assms n 1 t show ?thesis
      unfolding detect_ipv6_wan_by_connect_def by (simp add: h_def [symmetric] p_def [symmetric])
  next
    case (Some rs)
    obtain fd u where 2: "ipv6_connect_loop os rs t = (fd, u)" by fastforce
    note u = sock_world_prefix [OF t ipv6_connect_loop_world [OF 2]]
    obtain a v where 3: "ext (os_getsockname os) u = (a, v)" by fastforce
    note v = sock_world_suffix [OF u ext_only_world [OF 3]]
    have "detect_ipv6_wan_by_connect os host port out n s = (if fd < 0 then ((- 1, []), u) else
        (case a of None \<Rightarrow> ((- 1, []), close_fd fd v)
         | Some (inet6, addr_text, link_local) \<Rightarrow>
             if \<not> inet6 then ((- 1, []), close_fd fd v)
             else if length addr_text \<ge> n then ((- 1, []), close_fd fd v)
             else if link_local then ((- 1, addr_text), close_fd fd v)
             else ((0, addr_text), close_fd fd v)))"
      using n 1 2 3 Some unfolding detect_ipv6_wan_by_connect_def
      by (cases "fd < 0") (simp_all add: h_def [symmetric] p_def [symmetric])
    note eq = this [unfolded assms]
    show ?thesis
    proof (cases "fd < 0")
      case True
      with eq u show ?thesis by (simp add: sock_world_def)
    next
      case False
      note c = sock_world_close [OF v False]
      have "\<exists>w w'. os_getsockname os w = (a, w')" using 3 by (auto simp: ext_result)
      with eq c False show ?thesis by (auto split: option.splits if_splits) blast
    qed
  qed
qed

lemma timed_world: "rsat (timed b f s) (\<lambda>_ s'. only_world s s')"
  by (auto simp: timed_def rsat_def split: prod.splits sysret.splits if_splits dest: ext_only_world)

lemma send_all_world: "rsat (send_all os b request s) (\<lambda>_ s'. only_world s s')"
proof (rule rsatI)
  fix a s' assume eq: "send_all os b request s = Some (a, s')"
  let ?P = "\<lambda>os b request s (a, s'). only_world s s'"
  have "?P os b request s (a, s')"
  proof (rule send_all.raw_induct [where P = ?P, OF _ eq])
    fix rec :: "'w os \<Rightarrow> bool \<Rightarrow> string \<Rightarrow> 'w sys \<Rightarrow> (bool \<times> 'w sys) option"
      and os :: "'w os" and b request and s :: "'w sys" and res
    let ?body = "if request = [] then Some (True, s)
      else do { (r, s) \<leftarrow> timed b (os_send os request) s;
             case r of
               Inl e \<Rightarrow> if e = EINTR then rec os b request s else Some (False, s)
             | Inr m \<Rightarrow> if m = 0 then Some (False, s) else rec os b (drop m request) s }"
    assume IH: "\<And>os b request s y. rec os b request s = Some y \<Longrightarrow> ?P os b request s y"
      and eq: "?body = Some res"
    have rec: "only_world s t \<Longrightarrow> rsat (rec os b q t) (\<lambda>_ s'. only_world s s')" for q t
      using IH [of os b q t] only_world_trans by (fastforce simp: rsat_def)
    have "rsat ?body (\<lambda>_ s'. only_world s s')"
      by (intro vcg rsat_conseq [OF timed_world] rec) auto
    with eq show "?P os b request s res" by (auto dest: rsatD)
  qed
  then show "only_world s s'" by simp
qed

lemma recv_all_world: "rsat (recv_all os b n buf s) (\<lambda>_ s'. only_world s s')"
proof (rule rsatI)
  fix a s' assume eq: "recv_all os b n buf s = Some (a, s')"
  let ?P = "\<lambda>os b n buf s (a, s'). only_world s s'"
  have "?P os b n buf s (a, s')"
  proof (rule recv_all.raw_induct [where P = ?P, OF _ eq])
    fix rec :: "'w os \<Rightarrow> bool \<Rightarrow> nat \<Rightarrow> string \<Rightarrow> 'w sys \<Rightarrow> (string nullable \<times> 'w sys) option"
      and os :: "'w os" and b n buf and s :: "'w sys" and res
    let ?body = "if length buf < n - 1 then
        do { (r, s) \<leftarrow> timed b (os_recv os (n - 1 - length buf)) s;
             case r of
               Inl e \<Rightarrow> if e = EINTR then rec os b n buf s else Some (None, s)
             | Inr bs \<Rightarrow> if bs = [] then Some (Some buf, s) else rec os b n (buf @ bs) s }
      else Some (Some buf, s)"
    assume IH: "\<And>os b n buf s y. rec os b n buf s = Some y \<Longrightarrow> ?P os b n buf s y"
      and eq: "?body = Some res"
    have rec: "only_world s t \<Longrightarrow> rsat (rec os b n q t) (\<lambda>_ s'. only_world s s')" for q t
      using IH [of os b n q t] only_world_trans by (fastforce simp: rsat_def)
    have "rsat ?body (\<lambda>_ s'. only_world s s')"
      by (intro vcg rsat_conseq [OF timed_world] rec) auto
    with eq show "?P os b n buf s res" by (auto dest: rsatD)
  qed
  then show "only_world s s'" by simp
qed

lemma http_get_world:
  "rsat (http_get_with_mark os host port path out n s)
     (\<lambda>(rc, body) s'. only_world s s' \<and> (rc = 0 \<or> rc = - 1))"
proof (cases "n = 0")
  case True
  then show ?thesis by (simp add: http_get_with_mark_def rsat_def)
next
  case n: False
  obtain res t where 1: "ext (os_getaddrinfo os False host (snprintf_s 8 (show_int port))) s = (res, t)"
    by fastforce
  note t = ext_only_world [OF 1]
  show ?thesis
  proof (cases res)
    case None
    with n 1 t show ?thesis by (simp add: http_get_with_mark_def rsat_def)
  next
    case (Some rs)
    obtain fd a b u where 2: "http_connect_loop os rs t = ((fd, a, b), u)" by (metis surj_pair)
    note u = sock_world_prefix [OF t http_connect_loop_world [OF 2]]
    show ?thesis
    proof (cases "fd < 0")
      case True
      with n 1 2 Some u show ?thesis by (simp add: http_get_with_mark_def rsat_def sock_world_def)
    next
      case False
      have c: "only_world s (close_fd fd v)" if "only_world u v" for v
        by (rule sock_world_close [OF sock_world_suffix [OF u that] False])
      have snd: "rsat (send_all os a q u) (\<lambda>_ v. only_world u v)" for q by (rule send_all_world)
      have rcv: "rsat (recv_all os b 4096 [] v) (\<lambda>_ w. only_world u w)" if "only_world u v" for v
        using that only_world_trans by (blast intro: rsat_conseq [OF recv_all_world])
      show ?thesis
        using n 1 2 Some False
        by (simp add: http_get_with_mark_def Let_def)
           (auto intro!: vcg rsat_conseq [OF snd] rsat_conseq [OF rcv] c)
    qed
  qed
qed


section \<open>Soundness of the detected address\<close>

text \<open>
  Documented behaviour of the address functions of the C library: \<open>inet_pton\<close> accepts only
  texts of at most 45 characters (\<open>INET6_ADDRSTRLEN\<close> counts the NUL) without control
  characters, and what \<open>inet_ntop\<close> prints is accepted by \<open>inet_pton\<close>.
\<close>

definition inet_text_ok :: "'w os \<Rightarrow> bool" where
  "inet_text_ok os \<longleftrightarrow>
     (\<forall>t. os_inet_pton4 os t \<or> os_inet_pton6 os t \<longrightarrow>
        t \<noteq> [] \<and> length t < 46 \<and> list_all (\<lambda>c. 0x20 < (of_char c :: nat)) t) \<and>
     (\<forall>w t l w'. os_getsockname os w = (Some (True, t, l), w') \<longrightarrow> os_inet_pton6 os t)"

lemma extract_token_accepts: "extract_token os f p = Some t \<Longrightarrow> accepts os f t"
proof (induction os f p rule: extract_token.induct)
  case (1 os f p)
  then show ?case
    by (subst (asm) (2) extract_token.simps) (auto simp: Let_def split: if_splits)
qed

lemma extract_ip_sound:
  assumes "extract_ip os txt v out n = (0, ip)" "inet_text_ok os" "46 \<le> n"
  shows "accepts os (ip_family_from_version v) ip"
proof -
  have keep: "snprintf_s n t = t" if "accepts os f t" for f t
    using that assms(2,3) by (intro snprintf_s_id)
      (auto simp: accepts_def inet_text_ok_def is_ipv4_def is_ipv6_def)
  from assms(1,3) show ?thesis
    by (auto simp: extract_ip_def Let_def keep dest: extract_token_accepts split: if_splits option.splits)
qed

lemma detect_public_ip_outcome:
  "rsat (detect_public_ip bits os url v out n s) (\<lambda>(rc, ip) s'. only_world s s' \<and> (rc = 0 \<or> rc = - 1) \<and>
     (rc = 0 \<longrightarrow> inet_text_ok os \<longrightarrow> 46 \<le> n \<longrightarrow> accepts os (ip_family_from_version v) ip))"
proof (cases "n = 0")
  case True
  then show ?thesis by (simp add: detect_public_ip_def rsat_def)
next
  case n: False
  define target where "target = (case url of
      None \<Rightarrow> Some (TUMGRD_DEFAULT_IP_CHECK_HOST, TUMGRD_DEFAULT_IP_CHECK_PORT, TUMGRD_DEFAULT_IP_CHECK_PATH)
    | Some u \<Rightarrow> if u = [] then Some (TUMGRD_DEFAULT_IP_CHECK_HOST, TUMGRD_DEFAULT_IP_CHECK_PORT,
          TUMGRD_DEFAULT_IP_CHECK_PATH) else parse_url_host_path bits url 128 256)"
  show ?thesis
  proof (cases target)
    case None
    with n show ?thesis by (simp add: detect_public_ip_def target_def [symmetric] rsat_def)
  next
    case (Some hpp)
    obtain host port path where t: "target = Some (host, port, path)" using Some by (cases hpp) auto
    obtain e o1 t1 where p: "(if ip_family_from_version v = 6 \<and> streqcase (Some host) (Some TUMGRD_DEFAULT_IP_CHECK_HOST)
        then detect_ipv6_wan_by_connect os (Some ''ipv6.baidu.com'') 80 [] n s
        else ((- 1, []), s)) = ((e, o1), t1)" by (metis surj_pair)
    have w: "only_world s t1" using p by (auto dest!: detect_ipv6_outcome split: if_splits)
    have direct: "accepts os (ip_family_from_version v) o1" if "e = 0" "inet_text_ok os"
    proof -
      have "ip_family_from_version v = 6 \<and> (\<exists>w w'. os_getsockname os w = (Some (True, o1, False), w'))"
        using p that(1) by (auto dest!: detect_ipv6_outcome split: if_splits)
      moreover from this that(2) have "os_inet_pton6 os o1" unfolding inet_text_ok_def by blast
      ultimately show ?thesis by (simp add: accepts_def is_ipv6_def)
    qed
    have eq: "detect_public_ip bits os url v out n s = (if e = 0 then Some ((0, o1), t1) else
        do { ((err, buf), s) \<leftarrow> http_get_with_mark os host port path [] 512 t1;
             if err = 0 then
               let (rc, out) = extract_ip os (cstr_of buf) v o1 n
               in if rc = 0 then Some ((0, out), s) else Some ((- 1, out), s)
             else Some ((- 1, o1), s) })"
      using n t p by (simp add: detect_public_ip_def target_def [symmetric] Let_def cong: if_cong)
    have http: "rsat (http_get_with_mark os host port path [] 512 t1) (\<lambda>_ u. only_world s u)"
      by (rule rsat_conseq [OF http_get_world]) (use only_world_trans [OF w] in auto)
    show ?thesis
      unfolding eq Let_def
      by (intro vcg rsat_conseq [OF http])
         (auto simp: w direct dest: extract_ip_sound split: prod.splits)
  qed
qed

text \<open>
  C39: A detected address is an address: if \<open>detect_public_ip\<close> succeeds, \<open>inet_pton\<close> accepts
  its result as an address of the requested family, and the result is not empty, fits the
  caller's buffer and contains neither white space nor a line break, so that it can stand
  in a script line.
\<close>

theorem detect_public_ip_sound:
  assumes "detect_public_ip bits os url v out n s = Some ((0, ip), s')" "inet_text_ok os" "46 \<le> n"
  shows "(ip_family_from_version v = 4 \<longrightarrow> is_ipv4 os ip) \<and> (ip_family_from_version v = 6 \<longrightarrow> is_ipv6 os ip) \<and>
    (is_ipv4 os ip \<or> is_ipv6 os ip) \<and> ip \<noteq> [] \<and> length ip < n \<and> list_all (\<lambda>c. \<not> isspace c) ip"
proof -
  have a: "accepts os (ip_family_from_version v) ip"
    using rsatD [OF detect_public_ip_outcome assms(1)] assms(2,3) by simp
  then have "is_ipv4 os ip \<or> is_ipv6 os ip" by (auto simp: accepts_def)
  then have "ip \<noteq> []" "length ip < 46" "list_all (\<lambda>c. 0x20 < (of_char c :: nat)) ip"
    using assms(2) unfolding inet_text_ok_def is_ipv4_def is_ipv6_def by blast+
  moreover from this(3) have "list_all (\<lambda>c. \<not> isspace c) ip"
    by (rule list.pred_mono_strong) (auto simp: isspace_def)
  ultimately show ?thesis using a assms(3) by (auto simp: accepts_def)
qed

text \<open>
  The probe leaves no trace: whatever its outcome, \<open>detect_public_ip\<close> changes nothing in
  the daemon; every socket it opened is closed again.
\<close>

theorem detect_public_ip_closes_sockets:
  assumes "detect_public_ip bits os url v out n s = Some (r, s')"
  shows "open_fds (rt s') = open_fds (rt s) \<and> rt s' = rt s \<and> db s' = db s"
proof -
  obtain rc ip where "r = (rc, ip)" by fastforce
  then have "only_world s s'" using rsatD [OF detect_public_ip_outcome assms] by simp
  then show ?thesis using only_world_frame by auto
qed

section \<open>Every probe returns\<close>

text \<open>
  What the probe relies on: the two timeouts can be set, and other signals interrupt only
  finitely often (each interruption lowers the rank).
\<close>

definition sockets_live :: "('w \<Rightarrow> nat) \<Rightarrow> 'w os \<Rightarrow> bool" where
  "sockets_live rank os \<longleftrightarrow>
     (\<forall>opt v w r w'. os_setsockopt os opt v w = (r, w') \<longrightarrow> 0 \<le> r) \<and>
     (\<forall>bs w r w'. os_send os bs w = (r, w') \<longrightarrow> rank w' \<le> rank w \<and> (r = Err EINTR \<longrightarrow> rank w' < rank w)) \<and>
     (\<forall>n w r w'. os_recv os n w = (r, w') \<longrightarrow> rank w' \<le> rank w \<and> (r = Err EINTR \<longrightarrow> rank w' < rank w))"

lemma setsockopt_live:
  assumes "sockets_live rank os" "ext (os_setsockopt os opt v) s = (r, s')"
  shows "0 \<le> r"
  using assms unfolding sockets_live_def ext_result by blast

lemma http_connect_loop_timeouts:
  "http_connect_loop os res s = ((fd, a, b), s') \<Longrightarrow> sockets_live rank os \<Longrightarrow> \<not> fd < 0 \<Longrightarrow> a \<and> b"
  by (induction res arbitrary: s)
     (auto dest: setsockopt_live split: prod.splits if_splits)

lemma timed_live:
  assumes "\<And>w r w'. f w = (r, w') \<Longrightarrow> rank w' \<le> rank w \<and> (r = Err EINTR \<longrightarrow> rank w' < rank w)"
  shows "\<exists>r s'. timed True f s = Some (r, s') \<and> rank (world s') \<le> rank (world s) \<and>
    (r = Inl EINTR \<longrightarrow> rank (world s') < rank (world s))"
proof -
  obtain r w where "f (world s) = (r, w)" by fastforce
  with assms [OF this] show ?thesis
    by (cases r) (auto simp: timed_def ext_def)
qed

lemma send_all_returns:
  assumes "sockets_live rank os"
  shows "send_all os True request s \<noteq> None"
proof (induction "(rank (world s), length request)" arbitrary: s request
    rule: wf_induct_rule [OF wf_lex_prod [OF wf_less_than wf_less_than]])
  case 1
  obtain r t where r: "timed True (os_send os request) s = Some (r, t)" and le: "rank (world t) \<le> rank (world s)"
    and less: "r = Inl EINTR \<longrightarrow> rank (world t) < rank (world s)"
    using timed_live [of "os_send os request" rank s] assms unfolding sockets_live_def by blast
  have "send_all os True request t \<noteq> None" if "r = Inl EINTR"
    using less that by (intro 1) auto
  moreover have "send_all os True (drop m request) t \<noteq> None" if "m \<noteq> 0" "request \<noteq> []" for m
    using le that by (intro 1) auto
  ultimately show ?case
    by (subst send_all.simps) (cases r; auto simp: r)
qed

lemma recv_all_returns:
  assumes "sockets_live rank os"
  shows "recv_all os True n buf s \<noteq> None"
proof (induction "(rank (world s), n - length buf)" arbitrary: s buf
    rule: wf_induct_rule [OF wf_lex_prod [OF wf_less_than wf_less_than]])
  case 1
  obtain r t where r: "timed True (os_recv os (n - 1 - length buf)) s = Some (r, t)"
    and le: "rank (world t) \<le> rank (world s)"
    and less: "r = Inl EINTR \<longrightarrow> rank (world t) < rank (world s)"
    using timed_live [of "os_recv os (n - 1 - length buf)" rank s] assms unfolding sockets_live_def by blast
  have "recv_all os True n buf t \<noteq> None" if "r = Inl EINTR"
    using less that by (intro 1) auto
  moreover have "recv_all os True n (buf @ bs) t \<noteq> None" if "bs \<noteq> []" "length buf < n - 1" for bs
  proof (rule 1)
    have "0 < length bs" using that(1) by simp
    then have "n - length (buf @ bs) < n - length buf" using that(2) unfolding length_append by arith
    with le show "((rank (world t), n - length (buf @ bs)), rank (world s), n - length buf)
        \<in> less_than <*lex*> less_than" by auto
  qed
  ultimately show ?case
    by (subst recv_all.simps) (cases r; auto simp: r [simplified])
qed

lemma http_get_returns:
  assumes "sockets_live rank os"
  shows "http_get_with_mark os host port path out n s \<noteq> None"
proof -
  obtain res t where 1: "ext (os_getaddrinfo os False host (snprintf_s 8 (show_int port))) s = (res, t)"
    by fastforce
  show ?thesis
  proof (cases res)
    case None
    with 1 show ?thesis by (simp add: http_get_with_mark_def)
  next
    case (Some rs)
    obtain fd a b u where 2: "http_connect_loop os rs t = ((fd, a, b), u)" by (metis surj_pair)
    show ?thesis
    proof (cases "fd < 0")
      case True
      with 1 2 Some show ?thesis by (simp add: http_get_with_mark_def)
    next
      case False
      with http_connect_loop_timeouts [OF 2 assms] have ab: "a" "b" by auto
      define q where "q = http_request path (http_host_header os host port)"
      obtain sent v where 3: "send_all os True q u = Some (sent, v)"
        using send_all_returns [OF assms] by fastforce
      obtain resp x where 4: "recv_all os True 4096 [] v = Some (resp, x)"
        using recv_all_returns [OF assms] by fastforce
      from 1 2 3 4 Some False ab show ?thesis
        by (auto simp: http_get_with_mark_def Let_def q_def [symmetric] split: option.splits)
    qed
  qed
qed

lemma detect_public_ip_returns:
  assumes "sockets_live rank os"
  shows "detect_public_ip bits os url v out n s \<noteq> None"
proof -
  have http: "tsat (http_get_with_mark os host port path [] 512 u) (\<lambda>_ _. True)" for host port path u
    using http_get_returns [OF assms] by (auto simp: tsat_iff returns_def rsat_def)
  have "tsat (detect_public_ip bits os url v out n s) (\<lambda>_ _. True)"
    unfolding detect_public_ip_def Let_def
    by (intro tvcg tsat_conseq [OF http]) auto
  then show ?thesis by (auto simp: tsat_def)
qed


section \<open>URLs and responses\<close>

lemma is_prefix_append: "is_prefix p a \<Longrightarrow> is_prefix p (a @ b)"
  unfolding is_prefix_def by (metis append_assoc append_eq_conv_conj append_take_drop_id)

lemma scan_int_10_show:
  assumes "rest = [] \<or> \<not> digit_value (hd rest) < 10"
  shows "scan_int 10 (show_nat n @ rest) = Some (False, n, rest)"
proof -
  have ds: "list_all (\<lambda>c. digit_value c < 10) (show_nat n)"
    using show_nat_digits [of n] by (auto simp: list_all_iff digit_value_digit)
  obtain c cs where c: "show_nat n = c # cs" by (cases "show_nat n") auto
  then have d: "isdigit c" using show_nat_digits [of n] by simp
  have "scan_digits 10 0 (show_nat n @ rest) = scan_digits 10 n rest"
    using scan_digits_append [OF ds, of 0 rest] show_nat_scan_value [of 0 n] by simp
  also have "\<dots> = (n, rest)" using assms by (cases rest) auto
  finally have "scan_digits 10 0 (show_nat n @ rest) = (n, rest)" .
  then show ?thesis
    using c d digit_not_special [OF d] digit_value_digit [OF d]
    by (simp add: scan_int_def scan_magnitude_def Let_def)
qed

text \<open>
  C40: A well-formed \<open>http\<close> URL with an explicit port is split into exactly its host, port and
  path, whatever the width of \<open>long\<close>; an \<open>https\<close> URL is refused.
\<close>

theorem parse_url_roundtrip:
  assumes "host \<noteq> []" "length host < 128" "hd host \<noteq> CHR ''[''"
    and "CHR ''/'' \<notin> set host" "CHR '':'' \<notin> set host"
    and "1 \<le> port" "port \<le> 65535" "32 \<le> bits" "length rest < 255"
  shows "parse_url_host_path bits (Some (''http://'' @ host @ '':'' @ show_int port @ CHR ''/'' # rest)) 128 256
      = Some (host, port, CHR ''/'' # rest) \<and>
    parse_url_host_path bits (Some (''https://'' @ u)) 128 256 = None"
proof
  let ?tail = "CHR '':'' # show_int port @ CHR ''/'' # rest"
  have sch: "has_url_scheme (''http://'' @ x)" "has_url_scheme (''https://'' @ x)" for x
    by (simp_all add: has_url_scheme_def isalpha_def isalnum_def isupper_def islower_def isdigit_def is_prefix_def)
  have h: "takeWhile (\<lambda>c. c \<noteq> CHR ''/'' \<and> c \<noteq> CHR '':'') (host @ ?tail) = host"
    "dropWhile (\<lambda>c. c \<noteq> CHR ''/'' \<and> c \<noteq> CHR '':'') (host @ ?tail) = ?tail"
    using assms(4,5) by (induction host) auto
  have host: "url_host (host @ ?tail) = Some (host, ?tail)"
    using h assms(1,3) by (simp add: url_host_def)
  obtain n where n: "port = int n" using assms(6) by (metis nat_0_le zero_le_one order_trans)
  have slash: "\<not> digit_value CHR ''/'' < 10" "\<not> isdigit CHR ''/''"
    by (simp_all add: digit_value.simps isdigit_def islower_def isupper_def)
  have shw: "show_int port = show_nat n" by (simp add: show_int_def n)
  have ndig: "dropWhile isdigit (show_nat n @ CHR ''/'' # rest) = CHR ''/'' # rest"
    using show_nat_digits [of n] slash by (subst dropWhile_append2) (auto simp: list_all_iff)
  have "(2::int) ^ 31 \<le> 2 ^ (bits - 1)" using assms(8) by (intro power_increasing) auto
  then have "2147483648 \<le> (2::int) ^ (bits - 1)" by simp
  then have "\<not> (2 ^ (bits - 1) \<le> int n)" using assms(7) n by linarith
  then have "fst (strtol bits 10 (show_nat n @ CHR ''/'' # rest)) = int n"
    using slash by (simp add: strtol_def scan_int_10_show)
  moreover have shorter: "show_nat n @ CHR ''/'' # rest \<noteq> CHR ''/'' # rest"
    by simp
  ultimately have port: "url_port bits ?tail = Some (port, CHR ''/'' # rest)"
    using assms(6,7) shorter
    by (simp add: url_port_def shw [unfolded n] ndig n to_int32_id Let_def)
  show "parse_url_host_path bits (Some (''http://'' @ host @ '':'' @ show_int port @ CHR ''/'' # rest)) 128 256
      = Some (host, port, CHR ''/'' # rest)"
    using sch(1) [of "host @ ?tail"] host port assms(1,2,9)
    by (simp add: parse_url_host_path_def is_prefix_def)
  show "parse_url_host_path bits (Some (''https://'' @ u)) 128 256 = None"
    using sch(2) [of u] by (simp add: parse_url_host_path_def is_prefix_def)
qed

text \<open>
  What \<open>http_get_with_mark\<close> hands out as the body is not empty and is exactly what
  follows the blank line that ends the header of a response of the HTTP protocol.
\<close>

theorem http_body_after_header:
  assumes "http_body response = Some body"
  shows "body \<noteq> [] \<and> (\<exists>head. is_prefix ''HTTP/'' response \<and> CHR 0x00 \<notin> set head \<and>
    (response = head @ crlf @ crlf @ body \<or> response = head @ [CHR 0x0A, CHR 0x0A] @ body))"
proof -
  let ?text = "cstr_of response"
  obtain suf where split: "response = ?text @ suf"
    unfolding cstr_of_def by (metis takeWhile_dropWhile_id)
  have nul: "CHR 0x00 \<notin> set ?text"
    unfolding cstr_of_def by (metis (mono_tags, lifting) set_takeWhileD)
  have http: "is_prefix ''HTTP/'' ?text" using assms by (auto simp: http_body_def Let_def split: if_splits)
  then have "is_prefix ''HTTP/'' response" by (subst split) (rule is_prefix_append)
  moreover have cut: "\<exists>p. response = p @ n @ drop (length ?text - length t + length n) response \<and> CHR 0x00 \<notin> set p"
    if t: "strstr ?text n = Some t" for n t
  proof -
    obtain p where p: "?text = p @ t" and n: "is_prefix n t" using strstr_Some_suffix [OF t] by blast
    from n obtain r where r: "t = n @ r" unfolding is_prefix_def by (metis append_take_drop_id)
    have "response = p @ n @ r @ suf" using split p r by simp
    moreover from this have "drop (length ?text - length t + length n) response = r @ suf"
      using p r by (simp add: drop_append)
    moreover have "CHR 0x00 \<notin> set p" using nul p by auto
    ultimately show ?thesis by auto
  qed
  moreover have "length (crlf @ crlf) = 4" by (simp add: crlf_def)
  moreover from assms have "body \<noteq> []"
    "(\<exists>t. strstr ?text (crlf @ crlf) = Some t \<and> body = drop (length ?text - length t + 4) response) \<or>
     (\<exists>t. strstr ?text [CHR 0x0A, CHR 0x0A] = Some t \<and> body = drop (length ?text - length t + 2) response)"
    by (auto simp: http_body_def Let_def split: if_splits option.splits)
  ultimately show ?thesis
    using cut [of "crlf @ crlf"] cut [of "[CHR 0x0A, CHR 0x0A]"] by fastforce
qed

text \<open>
  With the socket timeouts in force, address detection always returns, even against a
  server that accepts the request and never answers.
\<close>

theorem detection_returns:
  assumes "sockets_live rank os"
  shows "\<exists>rc ip s'. detect_public_ip bits os url v out n s = Some ((rc, ip), s')"
  using detect_public_ip_returns [OF assms] by (metis not_None_eq surj_pair)

section \<open>The properties on concrete data\<close>

lemma hang_sockets: "sockets_live (\<lambda>_. 0) hang_os"
  by (simp add: sockets_live_def hang_os_def)

theorem detection_returns_witness:
  "\<exists>rc ip s'. detect_public_ip 64 hang_os (Some ''http://ip.example/'') (Some ''v4'') [] 64
     \<lparr>db = db (demo_sys []), rt = rt (demo_sys []), world = False\<rparr> = Some ((rc, ip), s')"
  by (rule detection_returns [OF hang_sockets])

theorem parse_url_roundtrip_witness:
  "parse_url_host_path 32 (Some (''http://'' @ ''ip.example'' @ '':'' @ show_int 8080 @ CHR ''/'' # ''v4'')) 128 256
     = Some (''ip.example'', 8080, ''/v4'')"
  using parse_url_roundtrip [of "''ip.example''" 8080 32 "''v4''"] by simp

theorem http_body_after_header_witness:
  "\<exists>head. ''HTTP/1.1 200 OK'' @ crlf @ crlf @ ''203.0.113.7'' = head @ crlf @ crlf @ ''203.0.113.7'' \<and>
     http_body (''HTTP/1.1 200 OK'' @ crlf @ crlf @ ''203.0.113.7'') = Some ''203.0.113.7''"
proof -
  have "http_body (''HTTP/1.1 200 OK'' @ crlf @ crlf @ ''203.0.113.7'') = Some ''203.0.113.7''"
    by (simp add: http_body_def cstr_of_def is_prefix_def crlf_def Let_def)
  from this http_body_after_header [OF this] show ?thesis by blast
qed

lemma demo_inet: "inet_text_ok demo_os"
  by (auto simp: inet_text_ok_def demo_os_def)

lemma demo_sockets [simp]:
  "ext (os_getaddrinfo demo_os b h p) s = (Some [''addr''], s)" "ext (os_socket demo_os a) s = (20, s)"
  "ext (os_setsockopt demo_os opt v) s = (0, s)" "ext (os_connect demo_os a) s = (None, s)"
  "ext (os_getsockname demo_os) s = (Some (True, ''2001:db8::7'', False), s)"
  by (simp_all add: ext_def demo_os_def)

lemma demo_detect: "detect_public_ip 64 demo_os None (Some ''ipv6'') [] 64 s = Some ((0, ''2001:db8::7''), s)"
  by (simp add: detect_public_ip_def ip_family_from_version_def strcasecmp_eq_def tolower_def isupper_def
      detect_ipv6_wan_by_connect_def open_socket_def connect_nonblock_def Let_def)

theorem detect_public_ip_sound_witness:
  "detect_public_ip 64 demo_os None (Some ''ipv6'') [] 64 (demo_sys []) = Some ((0, ''2001:db8::7''), demo_sys []) \<and>
   is_ipv6 demo_os ''2001:db8::7'' \<and> list_all (\<lambda>c. \<not> isspace c) ''2001:db8::7''"
proof -
  have "ip_family_from_version (Some ''ipv6'') = 6"
    by (simp add: ip_family_from_version_def strcasecmp_eq_def tolower_def isupper_def)
  with detect_public_ip_sound [OF demo_detect [of "demo_sys []"] demo_inet] demo_detect [of "demo_sys []"]
  show ?thesis by simp
qed

theorem detect_public_ip_closes_sockets_witness:
  "\<exists>r s'. detect_public_ip 64 demo_os None (Some ''ipv6'') [] 64 (demo_sys []) = Some (r, s') \<and>
     open_fds (rt s') = open_fds (rt (demo_sys []))"
  using detect_public_ip_closes_sockets [OF demo_detect [of "demo_sys []"]] demo_detect [of "demo_sys []"] by blast

text \<open>A resolver that knows only the host of the IPv6 probe, and a link-local source address.\<close>

definition link_local_os :: "nat os" where
  "link_local_os = demo_os\<lparr>
     os_getaddrinfo := (\<lambda>b host port w. (if host = ''ipv6.baidu.com'' then Some [''addr''] else None, w)),
     os_getsockname := (\<lambda>w. (Some (True, ''fe80::1'', True), w))\<rparr>"

lemma link_local_calls [simp]:
  "ext (os_getaddrinfo link_local_os b h p) s = (if h = ''ipv6.baidu.com'' then Some [''addr''] else None, s)"
  "ext (os_socket link_local_os a) s = (20, s)" "ext (os_setsockopt link_local_os opt v) s = (0, s)"
  "ext (os_connect link_local_os a) s = (None, s)"
  "ext (os_getsockname link_local_os) s = (Some (True, ''fe80::1'', True), s)"
  by (simp_all add: ext_def link_local_os_def demo_os_def)

text \<open>
  When the IPv6 probe finds a link-local address and the HTTP probe fails, detection fails but
  leaves the link-local address in \<open>out\<close>, which the reconciler then records as \<open>current_ip\<close>.
\<close>

lemma failed_detection_leaves_link_local:
  "detect_public_ip 64 link_local_os None (Some ''ipv6'') [] 64 s = Some ((- 1, ''fe80::1''), s)"
  by (simp add: detect_public_ip_def ip_family_from_version_def strcasecmp_eq_def tolower_def isupper_def
      detect_ipv6_wan_by_connect_def open_socket_def connect_nonblock_def Let_def snprintf_s_def
      http_get_with_mark_def TUMGRD_DEFAULT_IP_CHECK_HOST_def)

end
