(* ===== verification/Tumgrd_Protocol.thy ===== *)
theory Tumgrd_Protocol
  imports Tumgrd_Ipdetect
begin

text \<open>
  The abstract specification of \<open>src/src/reconcile.c\<close>: the protocol that keeps the database,
  the server and the local client in step while keys are rotated. Its steps are guarded
  events on the state of the program; what every sequence of them keeps is shown here, and
  \<open>Tumgrd_Reconcile\<close> shows that the reconciler takes no other steps.
\<close>

section \<open>The protocol that the reconciler follows\<close>

text \<open>
  The abstract specification: what may happen, in which order, to the row with key \<open>k\<close> and
  to the two ends of the tunnel. Its states are those of the program; a step is a call of an
  external tool or one write of the row.

  \<^item> A tool is only started with the key that the database holds at that moment, so a
    crash never leaves an end with a key that is lost.
  \<^item> A rotation starts at rest with a fresh key, while the clock is trusted; it moves on
    to \<open>PENDING_LOCAL_RECOVERY\<close> only after the server acknowledged the key of the row, and
    ends only after the local client was set up with it.
  \<^item> The status \<open>active\<close> and a renewed lifetime are written only after the local client
    was set up with the key of the row.
  \<^item> Rotation columns are reset or restarted outside this order only if they are corrupt.
\<close>

definition key_of :: "row \<Rightarrow> string" where
  "key_of r = the_default [] (c_xor_key r)"

definition carries :: "node_key \<Rightarrow> row \<Rightarrow> tumgrd_node \<Rightarrow> bool" where
  "carries k r n \<longleftrightarrow> node_key n = k \<and> n_xor_key n = key_of r"

definition valid_ip :: "'w os \<Rightarrow> string \<Rightarrow> bool" where
  "valid_ip os ip \<longleftrightarrow> is_ipv4 os ip \<or> is_ipv6 os ip"

definition server_told :: "'w os \<Rightarrow> node_key \<Rightarrow> row \<Rightarrow> string list \<Rightarrow> string \<Rightarrow> bool" where
  "server_told os k r argv input \<longleftrightarrow>
     (\<exists>n ip. carries k r n \<and> (ip = ''@client_ip@'' \<or> valid_ip os ip) \<and>
        is_tuctl n {server_add_script n ip} argv input)"

definition client_set :: "node_key \<Rightarrow> row \<Rightarrow> string list \<Rightarrow> string \<Rightarrow> bool" where
  "client_set k r argv input \<longleftrightarrow> (\<exists>n. carries k r n \<and> is_ktuctl {client_add_argv n} argv input)"

definition client_cleared :: "node_key \<Rightarrow> row \<Rightarrow> string list \<Rightarrow> string \<Rightarrow> bool" where
  "client_cleared k r argv input \<longleftrightarrow> (\<exists>n. carries k r n \<and> is_ktuctl {client_del_argv n} argv input)"

definition tool_allowed :: "'w os \<Rightarrow> node_key \<Rightarrow> row \<Rightarrow> string list \<Rightarrow> string \<Rightarrow> bool" where
  "tool_allowed os k r argv input \<longleftrightarrow>
     server_told os k r argv input \<or> client_set k r argv input \<or> client_cleared k r argv input"

text \<open>The last tool satisfied \<open>Q\<close>, ran to its end in time and exited with 0.\<close>

definition last_tool :: "(string list \<Rightarrow> string \<Rightarrow> bool) \<Rightarrow> 'w sys \<Rightarrow> bool" where
  "last_tool Q s \<longleftrightarrow> \<not> watchdog_timed_out (rt s) \<and>
     (\<exists>pid e es. child (rt s) = Reaped pid (Some (Exited 0)) \<and> spawns (rt s) = e # es \<and>
        Q (sp_argv e) (sp_stdin e))"

definition fresh_key :: "string \<Rightarrow> bool" where
  "fresh_key key \<longleftrightarrow> length key = 128 \<and> is_safe_id (Some key)"

text \<open>The writes of the row \<open>r\<close> that are allowed in state \<open>s\<close>.\<close>

inductive row_step :: "'w os \<Rightarrow> node_key \<Rightarrow> 'w sys \<Rightarrow> row \<Rightarrow> row \<Rightarrow> bool" for os k s r where
  mark_active: "last_tool (client_set k r) s \<Longrightarrow> valid_ip os ip \<Longrightarrow>
     row_step os k s r (set_runtime (Some ip) TUMGRD_STATUS_ACTIVE ts r)"
| mark_error: "row_step os k s r (set_runtime (Some ip) TUMGRD_STATUS_ERROR ts r)"
| renew: "last_tool (client_set k r) s \<Longrightarrow> c_rotation_state r = Some TUMGRD_ROTATION_NONE \<Longrightarrow> TUMGRD_MIN_SANE_TIME \<le> ts \<Longrightarrow>
     row_step os k s r (set_applied ts r)"
| begin_rotation: "c_rotation_state r = Some TUMGRD_ROTATION_NONE \<Longrightarrow> key_of r \<noteq> [] \<Longrightarrow> fresh_key key \<Longrightarrow>
     TUMGRD_MIN_SANE_TIME \<le> now \<Longrightarrow> row_step os k s r (start_rotation key TUMGRD_ROTATION_PENDING_REMOTE now r)"
| confirm_remote: "c_rotation_state r = Some TUMGRD_ROTATION_PENDING_REMOTE \<Longrightarrow> last_tool (server_told os k r) s \<Longrightarrow>
     row_step os k s r (move_rotation TUMGRD_ROTATION_PENDING_LOCAL_RECOVERY r)"
| complete_rotation: "c_rotation_state r = Some TUMGRD_ROTATION_PENDING_LOCAL_RECOVERY \<Longrightarrow> last_tool (client_set k r) s \<Longrightarrow>
     ts = 0 \<or> TUMGRD_MIN_SANE_TIME \<le> ts \<Longrightarrow> row_step os k s r (finish_rotation ts r)"
| repair_restart: "\<not> rotation_ok r \<Longrightarrow> fresh_key key \<Longrightarrow> row_step os k s r (start_rotation key TUMGRD_ROTATION_PENDING_REMOTE now r)"
| repair_clear: "\<not> rotation_ok r \<Longrightarrow> row_step os k s r (reset_rotation r)"

text \<open>The row with key \<open>k\<close> is replaced by \<open>r\<close>.\<close>

definition row_written :: "node_key \<Rightarrow> row \<Rightarrow> 'w sys \<Rightarrow> 'w sys \<Rightarrow> bool" where
  "row_written k r s s' \<longleftrightarrow> rt s' = rt s \<and>
     db s' = (db s)\<lparr>tbl := map (\<lambda>q. if pk q = k then r else q) (tbl (db s))\<rparr>"

inductive proto_step :: "'w os \<Rightarrow> node_key \<Rightarrow> 'w sys \<Rightarrow> 'w sys \<Rightarrow> bool" for os k where
  outside: "db s' = db s \<Longrightarrow> rt s' = rt s \<Longrightarrow> proto_step os k s s'"
| tool: "lookup (tbl (db s)) k = Some r \<Longrightarrow> tool_effect (tool_allowed os k r) s s' \<Longrightarrow>
     proto_step os k s s'"
| store: "lookup (tbl (db s)) k = Some r \<Longrightarrow> row_step os k s r r' \<Longrightarrow> row_written k r' s s' \<Longrightarrow>
     proto_step os k s s'"

abbreviation proto_steps :: "'w os \<Rightarrow> node_key \<Rightarrow> 'w sys \<Rightarrow> 'w sys \<Rightarrow> bool" where
  "proto_steps os k \<equiv> (proto_step os k)\<^sup>*\<^sup>*"

subsection \<open>What every step keeps\<close>

lemma row_step_keys: "row_step os k s r r' \<Longrightarrow> pk r' = pk r \<and> uk r' = uk r"
  by (induction rule: row_step.induct) (simp_all add: row_changes pk_def uk_def)

lemma lookup_written:
  "pk r = k \<Longrightarrow> lookup (map (\<lambda>q. if pk q = k then r else q) t) k' =
    (if k' = k then map_option (\<lambda>_. r) (lookup t k) else lookup t k')"
  by (induction t) auto

lemma row_written_lookup:
  assumes "row_written k r' s s'" "lookup (tbl (db s)) k = Some r" "pk r' = k"
  shows "lookup (tbl (db s')) k = Some r'" "k' \<noteq> k \<Longrightarrow> lookup (tbl (db s')) k' = lookup (tbl (db s)) k'"
  using assms by (simp_all add: row_written_def lookup_written)

text \<open>Writing through an UPDATE is replacing the row, as keys are unique.\<close>

lemma upd_rows_written:
  assumes "distinct (map pk t)" "lookup t k = Some r" "g r"
  shows "upd_rows k g f t = map (\<lambda>q. if pk q = k then f r else q) t"
  unfolding upd_rows_def
proof (rule map_cong [OF refl])
  fix q assume "q \<in> set t"
  with assms have "pk q = k \<Longrightarrow> q = r" using lookup_mem by fastforce
  with assms(3) show "(if pk q = k \<and> g q then f q else q) = (if pk q = k then f r else q)" by auto
qed

lemma row_written_inv:
  assumes "row_written k r' s s'" "lookup (tbl (db s)) k = Some r" "pk r' = pk r" "uk r' = uk r"
    "table_inv (tbl (db s))"
  shows "table_inv (tbl (db s'))"
proof -
  have "map (\<lambda>q. if pk q = k then r' else q) (tbl (db s)) = upd_rows k (\<lambda>_. True)
      (\<lambda>q. if pk q = pk r then r' else q) (tbl (db s))"
    using upd_rows_written [of "tbl (db s)" k r "\<lambda>_. True" "\<lambda>q. if pk q = pk r then r' else q"]
      assms(2,5) by (simp add: table_inv_def)
  moreover have "map uk (map (\<lambda>q. if pk q = k then r' else q) (tbl (db s))) = map uk (tbl (db s))"
  proof -
    have "uk (if pk q = k then r' else q) = uk q" if "q \<in> set (tbl (db s))" for q
      using that assms lookup_mem [of "tbl (db s)" q] by (auto simp: table_inv_def)
    then show ?thesis by simp
  qed
  moreover have "map pk (map (\<lambda>q. if pk q = k then r' else q) (tbl (db s))) = map pk (tbl (db s))"
    using assms(2,3) lookup_SomeD by fastforce
  ultimately show ?thesis using assms(1,5) by (simp add: row_written_def table_inv_def)
qed

lemma tool_effect_frame:
  assumes "tool_effect P s s'"
  shows "db s' = db s" "watchdog_usable (rt s') = watchdog_usable (rt s)"
    "sigalrm_blocked (rt s') = sigalrm_blocked (rt s)" "mset (open_fds (rt s')) = mset (open_fds (rt s))"
  using assms by (simp_all add: tool_effect_def same_config_def)

lemma proto_step_shape:
  assumes "proto_step os k s s'"
  obtains (same) "db s' = db s"
  | (stored) r r' where "lookup (tbl (db s)) k = Some r" "row_step os k s r r'" "row_written k r' s s'"
      "pk r' = k" "uk r' = uk r"
  using assms
proof cases
  case outside
  then show ?thesis using same by simp
next
  case (tool r)
  then show ?thesis using same tool_effect_frame by blast
next
  case (store r r')
  then have "pk r' = k" "uk r' = uk r" using row_step_keys [of os k s r r'] lookup_SomeD by fastforce+
  with store show ?thesis using stored by blast
qed

lemma proto_step_runtime:
  assumes "proto_step os k s s'"
  shows "watchdog_usable (rt s') = watchdog_usable (rt s)" "sigalrm_blocked (rt s') = sigalrm_blocked (rt s)"
    "mset (open_fds (rt s')) = mset (open_fds (rt s))"
  using assms
  by (cases; simp add: row_written_def tool_effect_frame)+

lemma proto_step_table:
  assumes "proto_step os k s s'"
  shows "db s' = (db s)\<lparr>tbl := tbl (db s')\<rparr>"
    "table_inv (tbl (db s)) \<Longrightarrow> table_inv (tbl (db s'))"
    "k' \<noteq> k \<Longrightarrow> lookup (tbl (db s')) k' = lookup (tbl (db s)) k'"
    "lookup (tbl (db s)) k \<noteq> None \<Longrightarrow> lookup (tbl (db s')) k \<noteq> None"
proof -
  have "db s' = (db s)\<lparr>tbl := tbl (db s')\<rparr> \<and> (table_inv (tbl (db s)) \<longrightarrow> table_inv (tbl (db s'))) \<and>
    (k' \<noteq> k \<longrightarrow> lookup (tbl (db s')) k' = lookup (tbl (db s)) k') \<and>
    (lookup (tbl (db s)) k \<noteq> None \<longrightarrow> lookup (tbl (db s')) k \<noteq> None)"
    using assms
  proof (cases rule: proto_step_shape)
    case same
    then show ?thesis by simp
  next
    case (stored r r')
    then have "pk r = k" using lookup_SomeD by blast
    with stored have keys: "pk r' = pk r" "uk r' = uk r" by simp_all
    have "db s' = (db s)\<lparr>tbl := tbl (db s')\<rparr>" using stored(3) by (simp add: row_written_def)
    moreover note row_written_inv [OF stored(3,1) keys] row_written_lookup [OF stored(3,1,4)] stored(1)
    ultimately show ?thesis by (intro conjI impI) (assumption | simp)+
  qed
  then show "db s' = (db s)\<lparr>tbl := tbl (db s')\<rparr>" "table_inv (tbl (db s)) \<Longrightarrow> table_inv (tbl (db s'))"
    "k' \<noteq> k \<Longrightarrow> lookup (tbl (db s')) k' = lookup (tbl (db s)) k'"
    "lookup (tbl (db s)) k \<noteq> None \<Longrightarrow> lookup (tbl (db s')) k \<noteq> None" by blast+
qed

lemma proto_steps_keep:
  assumes "proto_steps os k s s'"
  shows "watchdog_usable (rt s') = watchdog_usable (rt s) \<and> sigalrm_blocked (rt s') = sigalrm_blocked (rt s) \<and>
    mset (open_fds (rt s')) = mset (open_fds (rt s)) \<and> db s' = (db s)\<lparr>tbl := tbl (db s')\<rparr> \<and>
    (table_inv (tbl (db s)) \<longrightarrow> table_inv (tbl (db s'))) \<and>
    (\<forall>k'. k' \<noteq> k \<longrightarrow> lookup (tbl (db s')) k' = lookup (tbl (db s)) k') \<and>
    (lookup (tbl (db s)) k \<noteq> None \<longrightarrow> lookup (tbl (db s')) k \<noteq> None)"
  using assms
proof (induction rule: rtranclp_induct)
  case (step t u)
  have "db u = (db s)\<lparr>tbl := tbl (db u)\<rparr>"
    using step.IH proto_step_table(1) [OF step.hyps(2)] by (metis db_state.unfold_congs(5) db_state.update_convs(5) db_state.surjective)
  with step.IH proto_step_runtime [OF step.hyps(2)] proto_step_table(2-4) [OF step.hyps(2)]
  show ?case by auto
qed simp

lemma proto_steps_table_inv:
  "proto_steps os k s s' \<Longrightarrow> table_inv (tbl (db s)) \<Longrightarrow> table_inv (tbl (db s'))"
  using proto_steps_keep by blast

subsection \<open>The database operations as steps\<close>

context keyed_update
begin

lemma stores_row:
  assumes "upd os s = (rc, s')" "table_inv (tbl (db s))" "lookup (tbl (db s)) k = Some r" "g r"
  shows "rc = 0 \<and> row_written k (f r) s s' \<or> rc \<noteq> 0 \<and> db s' = db s \<and> rt s' = rt s"
proof -
  have d: "distinct (map pk (tbl (db s)))" using assms(2) by (simp add: table_inv_def)
  note rt = runner_untouched [OF assms(1)]
  show ?thesis
  proof (cases "rc = 0")
    case True
    then have "db s' = (db s)\<lparr>tbl := upd_rows k g f (tbl (db s))\<rparr>" using success assms(1) by blast
    with True rt upd_rows_written [where g = g, OF d assms(3,4)] show ?thesis by (simp add: row_written_def)
  next
    case False
    with failure [OF assms(1) _ d] rt show ?thesis by simp
  qed
qed

end

context strict_update
begin

lemma stores_row_strict:
  assumes "upd os s = (rc, s')" "table_inv (tbl (db s))" "lookup (tbl (db s)) k = Some r"
  shows "rc = 0 \<and> g r \<and> row_written k (f r) s s' \<or> rc \<noteq> 0 \<and> db s' = db s \<and> rt s' = rt s"
proof (cases "rc = 0")
  case True
  with success_hits_row [of os s s'] assms have "g r" by auto
  with stores_row [OF assms] show ?thesis by simp
next
  case False
  with assms failure [OF assms(1)] runner_untouched [OF assms(1)] show ?thesis by (simp add: table_inv_def)
qed

end

section \<open>Invariants of the protocol\<close>

lemma row_step_ok:
  assumes "row_step os k s r r'" "row_wf r" "rotation_ok r"
  shows "row_wf r' \<and> rotation_ok r'"
  using assms
  by (cases rule: row_step.cases)
     (auto simp: row_wf_def rotation_ok_def row_changes rotation_states status_strings the_default_def
       fresh_key_def)

lemma proto_step_db_ok:
  assumes "proto_step os k s s'" "db_ok (tbl (db s))"
  shows "db_ok (tbl (db s'))"
  using assms(1)
proof (cases rule: proto_step_shape)
  case same
  with assms(2) show ?thesis by simp
next
  case (stored r r')
  have "r \<in> set (tbl (db s))" using lookup_SomeD [OF stored(1)] by simp
  then have r': "row_wf r' \<and> rotation_ok r'" using assms(2) row_step_ok [OF stored(2)] by (simp add: db_ok_def)
  have "table_inv (tbl (db s'))" using proto_step_table(2) [OF assms(1)] assms(2) by (simp add: db_ok_def)
  moreover have "row_wf q \<and> rotation_ok q" if "q \<in> set (tbl (db s'))" for q
    using that stored(3) r' assms(2) by (auto simp: row_written_def db_ok_def split: if_splits)
  ultimately show ?thesis by (simp add: db_ok_def)
qed

lemma proto_steps_db_ok: "proto_steps os k s s' \<Longrightarrow> db_ok (tbl (db s)) \<Longrightarrow> db_ok (tbl (db s'))"
  by (induction rule: rtranclp_induct) (auto intro: proto_step_db_ok)

text \<open>The time of the last application.\<close>

definition time_trusted :: "int option \<Rightarrow> int option \<Rightarrow> bool" where
  "time_trusted old new \<longleftrightarrow> new = old \<or> new = Some 0 \<or> (\<exists>t. new = Some t \<and> TUMGRD_MIN_SANE_TIME \<le> t)"

lemma row_step_time: "row_step os k s r r' \<Longrightarrow> time_trusted (c_last_applied_at r) (c_last_applied_at r')"
  by (cases rule: row_step.cases) (auto simp: row_changes time_trusted_def)

lemma time_trusted_trans: "time_trusted a b \<Longrightarrow> time_trusted b c \<Longrightarrow> time_trusted a c"
  by (auto simp: time_trusted_def)

lemma proto_steps_time:
  assumes "proto_steps os k s s'" "lookup (tbl (db s)) k = Some r"
  shows "\<exists>r'. lookup (tbl (db s')) k = Some r' \<and> time_trusted (c_last_applied_at r) (c_last_applied_at r')"
  using assms(1)
proof (induction rule: rtranclp_induct)
  case base
  with assms(2) show ?case by (simp add: time_trusted_def)
next
  case (step t u)
  then obtain q where q: "lookup (tbl (db t)) k = Some q" "time_trusted (c_last_applied_at r) (c_last_applied_at q)"
    by blast
  from step.hyps(2) show ?case
  proof (cases rule: proto_step_shape)
    case same
    with q show ?thesis by simp
  next
    case (stored r0 r')
    with q row_written_lookup(1) [OF stored(3,1,4)] row_step_time [OF stored(2)] time_trusted_trans
    show ?thesis by (metis option.inject)
  qed
qed

text \<open>The children that were started, each on the database of that moment.\<close>

definition starts_allowed :: "'w os \<Rightarrow> node_key \<Rightarrow> 'w sys \<Rightarrow> 'w sys \<Rightarrow> bool" where
  "starts_allowed os k s s' \<longleftrightarrow>
     (\<exists>es. spawns (rt s') = es @ spawns (rt s) \<and>
        list_all (\<lambda>e. \<exists>r. lookup (sp_db e) k = Some r \<and> tool_allowed os k r (sp_argv e) (sp_stdin e)) es)"

lemma starts_allowed_trans:
  assumes "starts_allowed os k s t" "starts_allowed os k t u"
  shows "starts_allowed os k s u"
proof -
  let ?P = "\<lambda>e. \<exists>r. lookup (sp_db e) k = Some r \<and> tool_allowed os k r (sp_argv e) (sp_stdin e)"
  obtain es fs where "spawns (rt t) = es @ spawns (rt s)" "list_all ?P es"
    "spawns (rt u) = fs @ spawns (rt t)" "list_all ?P fs"
    using assms unfolding starts_allowed_def by blast
  then have "spawns (rt u) = (fs @ es) @ spawns (rt s)" "list_all ?P (fs @ es)" by simp_all
  then show ?thesis unfolding starts_allowed_def by blast
qed

lemma proto_step_starts:
  assumes "proto_step os k s s'"
  shows "starts_allowed os k s s'"
  using assms
proof cases
  case (tool r)
  then obtain es where es: "spawns (rt s') = es @ spawns (rt s)"
    "list_all (\<lambda>e. tool_allowed os k r (sp_argv e) (sp_stdin e) \<and> sp_db e = tbl (db s)) es"
    by (auto simp: tool_effect_def)
  from es(2) have "list_all (\<lambda>e. \<exists>r. lookup (sp_db e) k = Some r \<and>
      tool_allowed os k r (sp_argv e) (sp_stdin e)) es"
    by (rule list.pred_mono_strong) (use tool(1) in auto)
  with es(1) show ?thesis unfolding starts_allowed_def by blast
qed (simp_all add: starts_allowed_def row_written_def)

lemma proto_steps_starts:
  assumes "proto_steps os k s s'"
  shows "starts_allowed os k s s'"
  using assms
proof (induction rule: rtranclp_induct)
  case base
  show ?case by (simp add: starts_allowed_def)
next
  case (step t u)
  then show ?case using starts_allowed_trans proto_step_starts by blast
qed

section \<open>The whole table\<close>

text \<open>A sweep: steps of the protocol, each for some row.\<close>

definition sweep_step :: "'w os \<Rightarrow> 'w sys \<Rightarrow> 'w sys \<Rightarrow> bool" where
  "sweep_step os s s' \<longleftrightarrow> (\<exists>k. proto_step os k s s')"

abbreviation sweep :: "'w os \<Rightarrow> 'w sys \<Rightarrow> 'w sys \<Rightarrow> bool" where
  "sweep os \<equiv> (sweep_step os)\<^sup>*\<^sup>*"

lemma sweep_proto: "proto_steps os k s s' \<Longrightarrow> sweep os s s'"
  by (rule rtranclp_mono [THEN predicate2D, of "proto_step os k"]) (auto simp only: sweep_step_def)

text \<open>No row appears, disappears or moves.\<close>

lemma sweep_step_keys:
  assumes "sweep_step os s s'"
  shows "map pk (tbl (db s')) = map pk (tbl (db s))"
proof -
  from assms obtain k where "proto_step os k s s'" unfolding sweep_step_def by blast
  then show ?thesis
  proof (cases rule: proto_step_shape)
    case (stored r r')
    from stored(3,4) show ?thesis by (simp add: row_written_def)
  qed simp
qed

lemma sweep_keeps:
  "sweep os s s' \<Longrightarrow> db_ok (tbl (db s)) \<Longrightarrow>
     db_ok (tbl (db s')) \<and> map pk (tbl (db s')) = map pk (tbl (db s)) \<and>
     watchdog_usable (rt s') = watchdog_usable (rt s) \<and> sigalrm_blocked (rt s') = sigalrm_blocked (rt s) \<and>
     mset (open_fds (rt s')) = mset (open_fds (rt s))"
proof (induction rule: rtranclp_induct)
  case (step t u)
  then obtain k where "proto_step os k t u" unfolding sweep_step_def by blast
  with step.IH [OF step.prems] sweep_step_keys [OF step.hyps(2)] proto_step_db_ok [of os k t u]
    proto_step_runtime [of os k t u]
  show ?case by simp
qed simp

end
