(* ===== verification/Tumgrd_Reconcile.thy ===== *)
theory Tumgrd_Reconcile
  imports Tumgrd_Protocol
begin

text \<open>
  \<open>src/src/reconcile.c\<close>: bringing one node, or all of them, in line with the database.

  The node that \<open>tumgrd_reconcile_one\<close> gets by pointer is passed in and returned, since the
  function updates its key and rotation fields. Its \<open>goto err_cleanup\<close> leaves each group of
  steps below with a nonzero \<open>err\<close>; the code at the label stands once, in
  \<open>tumgrd_reconcile_one\<close>. \<open>bits\<close> is the width of \<open>long\<close>, needed for the port of a URL.
\<close>

section \<open>One node\<close>

text \<open>\<open>now_unix\<close> is the function of the same text in \<open>db.c\<close>.\<close>

definition pick_ip_check_url :: "tumgrd_node \<Rightarrow> string" where
  "pick_ip_check_url node =
     (if n_ip_check_url node \<noteq> [] then n_ip_check_url node else TUMGRD_DEFAULT_IP_CHECK_URL)"

definition mark_runtime ::
  "'w os \<Rightarrow> tumgrd_node \<Rightarrow> string \<Rightarrow> string \<Rightarrow> int \<Rightarrow> 'w sys \<Rightarrow> int \<times> 'w sys" where
  "mark_runtime os node current_ip status ts s =
     tumgrd_db_update_runtime os (n_server_host node) (n_server_port node) (n_uid node)
       (n_ip_version node) (Some current_ip) status ts s"

text \<open>The key and the rotation columns of the node after a rotation was written to the database.\<close>

definition take_new_key :: "string \<Rightarrow> tumgrd_node \<Rightarrow> tumgrd_node" where
  "take_new_key new_xor_key node = node\<lparr>
     n_xor_key := snprintf_s 129 new_xor_key,
     n_rotation_state := TUMGRD_ROTATION_PENDING_REMOTE,
     n_xor_key_pending := snprintf_s 129 new_xor_key\<rparr>"

definition drop_rotation :: "tumgrd_node \<Rightarrow> tumgrd_node" where
  "drop_rotation node = node\<lparr>n_rotation_state := TUMGRD_ROTATION_NONE, n_xor_key_pending := []\<rparr>"

text \<open>The repair of rotation columns that make no sense, the body of both checks.\<close>

definition restart_rotation ::
  "'w os \<Rightarrow> tumgrd_config \<Rightarrow> tumgrd_node \<Rightarrow> int \<Rightarrow> 'w sys \<Rightarrow> ((int \<times> tumgrd_node) \<times> 'w sys) option" where
  "restart_rotation os cfg node now s =
     (if cfg_enable_xor cfg \<and> n_xor_key node \<noteq> [] then
        do { ((rc, new_xor_key), s) \<leftarrow> generate_random_hex_key os [] 129 64 s;
             if rc \<noteq> 0 then Some ((- 1, node), s)
             else
               let (rc, s) = tumgrd_db_replace_rotation os (n_server_host node) (n_server_port node)
                               (n_uid node) (n_ip_version node) new_xor_key now s
               in if rc \<noteq> 0 then Some ((- 1, node), s)
                  else Some ((0, take_new_key new_xor_key node), s) }
      else
        let (rc, s) = tumgrd_db_clear_rotation os (n_server_host node) (n_server_port node)
                        (n_uid node) (n_ip_version node) s
        in if rc \<noteq> 0 then Some ((- 1, node), s) else Some ((0, drop_rotation node), s))"

definition check_rotation ::
  "'w os \<Rightarrow> tumgrd_config \<Rightarrow> tumgrd_node \<Rightarrow> int \<Rightarrow> 'w sys \<Rightarrow> ((int \<times> tumgrd_node) \<times> 'w sys) option" where
  "check_rotation os cfg node now s =
     do { ((err, node), s) \<leftarrow>
            (if n_rotation_state node < TUMGRD_ROTATION_NONE \<or>
                n_rotation_state node > TUMGRD_ROTATION_PENDING_LOCAL_RECOVERY
             then restart_rotation os cfg node now s else Some ((0, node), s));
          if err \<noteq> 0 then Some ((err, node), s)
          else if n_rotation_state node \<noteq> TUMGRD_ROTATION_NONE \<and>
                  (n_xor_key_pending node = [] \<or>
                   \<not> streq (Some (n_xor_key node)) (Some (n_xor_key_pending node)))
          then restart_rotation os cfg node now s
          else Some ((0, node), s) }"

text \<open>The chain of conditions that decides about \<open>force\<close> and \<open>expired\<close>, returned in this order.\<close>

definition check_expiry ::
  "'w os \<Rightarrow> tumgrd_config \<Rightarrow> tumgrd_node \<Rightarrow> bool \<Rightarrow> int \<Rightarrow> 'w sys
   \<Rightarrow> ((int \<times> tumgrd_node \<times> bool \<times> bool) \<times> 'w sys) option" where
  "check_expiry os cfg node force now s =
     (if n_rotation_state node = TUMGRD_ROTATION_PENDING_LOCAL_RECOVERY then
        Some ((0, node, True, True), s)
      else if n_rotation_state node = TUMGRD_ROTATION_PENDING_REMOTE then
        Some ((0, node, True, True), s)
      else if now < TUMGRD_MIN_SANE_TIME then Some ((0, node, force, False), s)
      else if n_lifetime node > 0 \<and> n_last_applied_at node = 0 then
        Some ((0, node, True, True), s)
      else if n_lifetime node > 0 \<and> now - n_last_applied_at node \<ge> n_lifetime node then
        if cfg_enable_xor cfg \<and> n_xor_key node \<noteq> [] then
          do { ((rc, new_xor_key), s) \<leftarrow> generate_random_hex_key os [] 129 64 s;
               if rc \<noteq> 0 then Some ((- 1, node, True, True), s)
               else
                 let (rc, s) = tumgrd_db_begin_rotation os (n_server_host node) (n_server_port node)
                                 (n_uid node) (n_ip_version node) new_xor_key
                                 TUMGRD_ROTATION_PENDING_REMOTE now s
                 in if rc \<noteq> 0 then Some ((- 1, node, True, True), s)
                    else Some ((0, take_new_key new_xor_key node, True, True), s) }
        else Some ((0, node, True, True), s)
      else Some ((0, node, force, False), s))"

text \<open>After \<open>server_add\<close> was confirmed.\<close>

definition confirm_remote ::
  "'w os \<Rightarrow> tumgrd_node \<Rightarrow> 'w sys \<Rightarrow> (int \<times> tumgrd_node) \<times> 'w sys" where
  "confirm_remote os node s =
     (if n_rotation_state node = TUMGRD_ROTATION_PENDING_REMOTE then
        let (rc, s) = tumgrd_db_update_rotation_state os (n_server_host node) (n_server_port node)
                        (n_uid node) (n_ip_version node) TUMGRD_ROTATION_PENDING_LOCAL_RECOVERY s
        in if rc \<noteq> 0 then ((- 1, node), s)
           else ((0, node\<lparr>n_rotation_state := TUMGRD_ROTATION_PENDING_LOCAL_RECOVERY\<rparr>), s)
      else ((0, node), s))"

text \<open>The last block: completing the rotation or renewing the lifetime.\<close>

definition record_applied ::
  "'w os \<Rightarrow> tumgrd_node \<Rightarrow> bool \<Rightarrow> bool \<Rightarrow> int \<Rightarrow> 'w sys \<Rightarrow> (int \<times> tumgrd_node) \<times> 'w sys" where
  "record_applied os node expired server_apply_succeeded now s =
     (let applied_ts = (if now \<ge> TUMGRD_MIN_SANE_TIME then now else 0)
      in if n_rotation_state node \<noteq> TUMGRD_ROTATION_NONE \<and> server_apply_succeeded then
           let (rc, s) = tumgrd_db_complete_rotation os (n_server_host node) (n_server_port node)
                           (n_uid node) (n_ip_version node) applied_ts s
           in if rc \<noteq> 0 then ((- 1, node), s)
              else ((0, (drop_rotation node)\<lparr>n_last_applied_at := applied_ts\<rparr>), s)
         else if expired \<and> server_apply_succeeded then
           let (rc, s) = tumgrd_db_update_applied os (n_server_host node) (n_server_port node)
                           (n_uid node) (n_ip_version node) now s
           in if rc \<noteq> 0 then ((- 1, node), s)
              else ((0, node\<lparr>n_last_applied_at := now\<rparr>), s)
         else ((0, node), s))"

text \<open>From the confirmed \<open>server_add\<close> to \<open>err_cleanup\<close>.\<close>

definition apply_local ::
  "'w os \<Rightarrow> tumgrd_node \<Rightarrow> string \<Rightarrow> bool \<Rightarrow> int \<Rightarrow> 'w sys \<Rightarrow> ((int \<times> tumgrd_node) \<times> 'w sys) option" where
  "apply_local os node detected_ip expired now s =
     (let ((err, node), s) = confirm_remote os node s
      in if err \<noteq> 0 then Some ((err, node), s)
         else
           do { (rc, s) \<leftarrow> tumgrd_runner_reset_local_client os node s;
                if rc < 0 then Some ((rc, node), s)
                else
                  let (ts, s) = now_unix os s;
                      (rc, s) = mark_runtime os node detected_ip TUMGRD_STATUS_ACTIVE ts s
                  in if rc < 0 then Some ((rc, node), s)
                     else Some (record_applied os node expired True now s) })"

text \<open>From the probe of the public address to \<open>err_cleanup\<close>; the third component is \<open>detected_ip\<close>.\<close>

definition apply_node ::
  "nat \<Rightarrow> 'w os \<Rightarrow> tumgrd_config \<Rightarrow> tumgrd_node \<Rightarrow> bool \<Rightarrow> bool \<Rightarrow> int \<Rightarrow> 'w sys
   \<Rightarrow> ((int \<times> tumgrd_node \<times> string) \<times> 'w sys) option" where
  "apply_node bits os cfg node force expired now s =
     do { ((rc, detected_ip), s) \<leftarrow> detect_public_ip bits os (Some (pick_ip_check_url node))
            (Some (n_ip_version node)) [] 64 s;
          if rc < 0 then Some ((rc, node, detected_ip), s)
          else
            let ip_changed = (\<not> streqcase (Some (n_current_ip node)) (Some detected_ip));
                was_error = (streq (Some (n_status node)) (Some TUMGRD_STATUS_ERROR) \<or>
                             streq (Some (n_status node)) (Some TUMGRD_STATUS_SYNCING));
                need_apply = (force \<or> ip_changed \<or> was_error)
            in if \<not> need_apply then Some ((0, node, detected_ip), s)
               else
                 do { (rc, s) \<leftarrow> tumgrd_runner_server_add os node (Some cfg) (Some detected_ip) s;
                      if rc < 0 then Some ((rc, node, detected_ip), s)
                      else
                        do { ((err, node), s) \<leftarrow> apply_local os node detected_ip expired now s;
                             Some ((err, node, detected_ip), s) } } }"

text \<open>The function up to \<open>err_cleanup\<close>.\<close>

definition reconcile_steps ::
  "nat \<Rightarrow> 'w os \<Rightarrow> tumgrd_config \<Rightarrow> tumgrd_node \<Rightarrow> bool \<Rightarrow> 'w sys
   \<Rightarrow> ((int \<times> tumgrd_node \<times> string) \<times> 'w sys) option" where
  "reconcile_steps bits os cfg node force s =
     (let (now, s) = now_unix os s
      in do { ((err, node), s) \<leftarrow> check_rotation os cfg node now s;
              if err \<noteq> 0 then Some ((err, node, []), s)
              else
                do { ((err, node, force, expired), s) \<leftarrow> check_expiry os cfg node force now s;
                     if err \<noteq> 0 then Some ((err, node, []), s)
                     else apply_node bits os cfg node force expired now s } })"

definition tumgrd_reconcile_one ::
  "nat \<Rightarrow> 'w os \<Rightarrow> tumgrd_config \<Rightarrow> tumgrd_node \<Rightarrow> bool \<Rightarrow> 'w sys
   \<Rightarrow> ((int \<times> tumgrd_node) \<times> 'w sys) option" where
  "tumgrd_reconcile_one bits os cfg node force s =
     do { ((err, node, detected_ip), s) \<leftarrow> reconcile_steps bits os cfg node force s;
          if err \<noteq> 0 then
            let (ts, s) = now_unix os s;
                (_, s) = mark_runtime os node
                           (if detected_ip \<noteq> [] then detected_ip else n_current_ip node)
                           TUMGRD_STATUS_ERROR ts s
            in Some ((err, node), s)
          else Some ((err, node), s) }"

section \<open>All nodes\<close>

text \<open>The loop over the listed nodes, with the number of failures so far.\<close>

fun reconcile_nodes ::
  "nat \<Rightarrow> 'w os \<Rightarrow> tumgrd_config \<Rightarrow> bool \<Rightarrow> tumgrd_node list \<Rightarrow> int \<Rightarrow> 'w sys
   \<Rightarrow> (int \<times> 'w sys) option" where
  "reconcile_nodes bits os cfg force [] failed s = Some (failed, s)"
| "reconcile_nodes bits os cfg force (node # nodes) failed s =
     do { ((rc, _), s) \<leftarrow> tumgrd_reconcile_one bits os cfg node force s;
          reconcile_nodes bits os cfg force nodes (if rc \<noteq> 0 then failed + 1 else failed) s }"

definition tumgrd_reconcile_all ::
  "nat \<Rightarrow> 'w os \<Rightarrow> tumgrd_config \<Rightarrow> bool \<Rightarrow> 'w sys \<Rightarrow> (int \<times> 'w sys) option" where
  "tumgrd_reconcile_all bits os cfg force s =
     (let ((rc, nodes), s) = tumgrd_db_list_nodes os s
      in if rc < 0 then Some (rc, s)
         else
           do { (failed, s) \<leftarrow> reconcile_nodes bits os cfg force nodes 0 s;
                if failed \<noteq> 0 then Some (- 1, s) else Some (0, s) })"

section \<open>The node in memory and its row\<close>

text \<open>Key and rotation columns of the node at hand are those of its row.\<close>

definition in_sync :: "node_key \<Rightarrow> tumgrd_node \<Rightarrow> 'w sys \<Rightarrow> bool" where
  "in_sync k node s \<longleftrightarrow> node_key node = k \<and>
     (\<exists>r. lookup (tbl (db s)) k = Some r \<and> n_xor_key node = key_of r \<and>
        n_xor_key_pending node = the_default [] (c_xor_key_pending r) \<and>
        c_rotation_state r = Some (n_rotation_state node))"

lemma in_sync_row:
  assumes "in_sync k node s"
  obtains r where "lookup (tbl (db s)) k = Some r" "carries k r node"
    "n_xor_key_pending node = the_default [] (c_xor_key_pending r)"
    "c_rotation_state r = Some (n_rotation_state node)" "pk r = k"
  using assms lookup_SomeD unfolding in_sync_def carries_def by blast

lemma in_sync_db: "in_sync k node s \<Longrightarrow> db s' = db s \<Longrightarrow> in_sync k node s'"
  by (simp add: in_sync_def)

lemma in_sync_written:
  assumes "row_written k r' s s'" "lookup (tbl (db s)) k = Some r" "pk r' = k" "node_key node = k"
    "n_xor_key node = key_of r'" "n_xor_key_pending node = the_default [] (c_xor_key_pending r')"
    "c_rotation_state r' = Some (n_rotation_state node)"
  shows "in_sync k node s'"
  using row_written_lookup [OF assms(1-3)] assms(4-7) by (simp add: in_sync_def)

lemma in_sync_repair:
  assumes "in_sync k node s" "lookup (tbl (db s)) k = Some r"
    and "n_rotation_state node < 0 \<or> 2 < n_rotation_state node \<or>
      n_rotation_state node \<noteq> 0 \<and> (n_xor_key_pending node = [] \<or> n_xor_key node \<noteq> n_xor_key_pending node)"
  shows "\<not> rotation_ok r"
  using assms by (auto simp: in_sync_def rotation_ok_def key_of_def the_default_def)

lemma node_key_updates [simp]:
  "node_key (take_new_key key node) = node_key node" "node_key (drop_rotation node) = node_key node"
  "node_key (node\<lparr>n_rotation_state := st\<rparr>) = node_key node"
  "node_key (node\<lparr>n_last_applied_at := ts\<rparr>) = node_key node"
  by (simp_all add: node_key_def take_new_key_def drop_rotation_def)

text \<open>
  What holds after each group of steps that started in \<open>s\<close>, whether it failed or not: only
  protocol steps were taken, and the node in memory is still in line with its row.
\<close>

definition rec_post :: "'w os \<Rightarrow> node_key \<Rightarrow> 'w sys \<Rightarrow> tumgrd_node \<Rightarrow> 'w sys \<Rightarrow> bool" where
  "rec_post os k s node s' \<longleftrightarrow> proto_steps os k s s' \<and> table_inv (tbl (db s')) \<and> in_sync k node s'"

lemma rec_post_refl: "in_sync k node s \<Longrightarrow> table_inv (tbl (db s)) \<Longrightarrow> rec_post os k s node s"
  by (simp add: rec_post_def)

lemma rec_post_trans: "rec_post os k s node t \<Longrightarrow> rec_post os k t node' u \<Longrightarrow> rec_post os k s node' u"
  unfolding rec_post_def using rtranclp_trans by fast

lemma rec_post_same:
  assumes "db s' = db s \<and> rt s' = rt s" "table_inv (tbl (db s))" "in_sync k node s"
  shows "rec_post os k s node s'"
proof -
  have "proto_step os k s s'" using assms(1) by (intro proto_step.outside) simp_all
  then show ?thesis
    using assms in_sync_db [OF assms(3), of s'] by (simp add: rec_post_def r_into_rtranclp)
qed

lemma rec_post_store:
  assumes "row_step os k s r r'" "row_written k r' s s'" "lookup (tbl (db s)) k = Some r"
    "table_inv (tbl (db s))" "node_key node = k" "n_xor_key node = key_of r'"
    "n_xor_key_pending node = the_default [] (c_xor_key_pending r')"
    "c_rotation_state r' = Some (n_rotation_state node)"
  shows "rec_post os k s node s'"
proof -
  have step: "proto_step os k s s'" using assms(1-3) by (intro proto_step.store)
  have "pk r' = k" using row_step_keys [OF assms(1)] lookup_SomeD [OF assms(3)] by simp
  then have "in_sync k node s'" using in_sync_written [OF assms(2,3) _ assms(5-8)] by blast
  then show ?thesis
    using step proto_step_table(2) [OF step assms(4)] by (simp add: rec_post_def r_into_rtranclp)
qed

lemma rec_post_tool:
  assumes "tool_effect P s s'" "lookup (tbl (db s)) k = Some r" "\<And>a i. P a i \<Longrightarrow> tool_allowed os k r a i"
    "table_inv (tbl (db s))" "in_sync k node s"
  shows "rec_post os k s node s'"
proof -
  have "proto_step os k s s'"
    using tool_effect_mono [OF assms(1,3)] assms(2) by (intro proto_step.tool)
  moreover have "db s' = db s" using tool_effect_frame(1) [OF assms(1)] .
  ultimately show ?thesis
    using assms(4) in_sync_db [OF assms(5)] unfolding rec_post_def by (simp add: r_into_rtranclp)
qed

lemma fresh_key_cases:
  assumes "generate_random_hex_key os [] 129 64 s = Some ((err, key), s')"
  shows "db s' = db s \<and> rt s' = rt s \<and> (err = 0 \<longrightarrow> fresh_key key)"
proof -
  have "is_safe_id (Some (concat (map hex2 (take 64 bs))))" if "64 \<le> length bs" for bs
    using that by (intro hex_key_safe) auto
  with generate_random_hex_key_cases [OF assms] show ?thesis by (auto simp: fresh_key_def)
qed

lemma fresh_key_rsat:
  "rsat (generate_random_hex_key os [] 129 64 s) (\<lambda>(err, key) s'. db s' = db s \<and> rt s' = rt s \<and>
     (err = 0 \<longrightarrow> fresh_key key))"
  by (rule rsatI) (auto dest: fresh_key_cases)

lemma take_new_key_fields:
  assumes "fresh_key key"
  shows "n_xor_key (take_new_key key node) = key" "n_xor_key_pending (take_new_key key node) = key"
    "n_rotation_state (take_new_key key node) = 1"
  using assms by (simp_all add: take_new_key_def fresh_key_def snprintf_s_def rotation_states)

lemma drop_rotation_fields [simp]:
  "n_xor_key (drop_rotation node) = n_xor_key node" "n_xor_key_pending (drop_rotation node) = []"
  "n_rotation_state (drop_rotation node) = TUMGRD_ROTATION_NONE"
  by (simp_all add: drop_rotation_def)

lemma start_rotation_fields [simp]:
  "key_of (start_rotation key st now r) = key"
  "the_default [] (c_xor_key_pending (start_rotation key st now r)) = key"
  "c_rotation_state (start_rotation key st now r) = Some st"
  by (simp_all add: start_rotation_def key_of_def the_default_def)

lemma reset_rotation_fields [simp]:
  "key_of (reset_rotation r) = key_of r" "the_default [] (c_xor_key_pending (reset_rotation r)) = []"
  "c_rotation_state (reset_rotation r) = Some 0"
  by (simp_all add: reset_rotation_def key_of_def the_default_def)

text \<open>The key under which the operations find the row of the node.\<close>

lemma node_key_eq: "node_key node = k \<Longrightarrow>
  (n_server_host node, n_server_port node, n_uid node, n_ip_version node) = k"
  by (simp add: node_key_def)

text \<open>
  One operation of the store as a step: \<open>node'\<close> is the node after its success, and a failure
  leaves everything as it was.
\<close>

context strict_update
begin

lemma step_post:
  assumes "upd os s = (rc, s')" "in_sync k node s" "table_inv (tbl (db s))" "lookup (tbl (db s)) k = Some r"
    and step: "g r \<Longrightarrow> row_step os k s r (f r)"
    and node': "node_key node' = k" "n_xor_key node' = key_of (f r)"
      "n_xor_key_pending node' = the_default [] (c_xor_key_pending (f r))"
      "c_rotation_state (f r) = Some (n_rotation_state node')"
  shows "rec_post os k s (if rc = 0 then node' else node) s' \<and> rt s' = rt s \<and>
    (rc = 0 \<longrightarrow> lookup (tbl (db s')) k = Some (f r)) \<and> (rc \<noteq> 0 \<longrightarrow> db s' = db s)"
proof (cases "rc = 0")
  case True
  with stores_row_strict [OF assms(1,3,4)] have g: "g r" and w: "row_written k (f r) s s'" by simp_all
  have "pk (f r) = k" using row_step_keys [OF step [OF g]] lookup_SomeD [OF assms(4)] by simp
  with True w rec_post_store [OF step [OF g] w assms(4,3) node'] row_written_lookup(1) [OF w assms(4)]
  show ?thesis by (simp add: row_written_def)
next
  case False
  with stores_row_strict [OF assms(1,3,4)] rec_post_same [OF _ assms(3,2), of s' os] show ?thesis by simp
qed

end

lemma restart_rotation_post:
  assumes "in_sync k node s" "table_inv (tbl (db s))" "lookup (tbl (db s)) k = Some r" "\<not> rotation_ok r"
  shows "rsat (restart_rotation os cfg node now s) (\<lambda>(err, node') s'. rec_post os k s node' s' \<and>
     (err = 0 \<longrightarrow> n_rotation_state node' \<in> {0, 1}))"
proof -
  have k: "node_key node = k" and key: "n_xor_key node = key_of r"
    using assms(1,3) by (auto simp: in_sync_def)
  note nk = node_key_eq [OF k]
  have gen: "rec_post os k s node t" if "db t = db s \<and> rt t = rt s" for t
    by (rule rec_post_same [OF that assms(2,1)])
  have replaced: "(rc = 0 \<longrightarrow> rec_post os k s (take_new_key key node) u) \<and> (rc \<noteq> 0 \<longrightarrow> rec_post os k s node u)"
    if t: "db t = db s \<and> rt t = rt s" and f: "fresh_key key" and
      u: "tumgrd_db_replace_rotation os (n_server_host node) (n_server_port node) (n_uid node)
         (n_ip_version node) key now t = (rc, u)" for t u key rc
  proof -
    have l: "in_sync k node t" "table_inv (tbl (db t))" "lookup (tbl (db t)) k = Some r"
      using gen [OF t] t assms(2,3) by (simp_all add: rec_post_def)
    have "rec_post os k t (if rc = 0 then take_new_key key node else node) u"
      using replace_rotation.step_post [OF u, unfolded nk, OF l
          row_step.repair_restart [OF assms(4) f], of "take_new_key key node"] k
      by (simp add: take_new_key_fields [OF f] rotation_states)
    from rec_post_trans [OF gen [OF t] this] show ?thesis by (simp split: if_splits)
  qed
  have cleared: "(rc = 0 \<longrightarrow> rec_post os k s (drop_rotation node) u) \<and> (rc \<noteq> 0 \<longrightarrow> rec_post os k s node u)"
    if u: "tumgrd_db_clear_rotation os (n_server_host node) (n_server_port node) (n_uid node)
         (n_ip_version node) s = (rc, u)" for u rc
    using clear_rotation.step_post [OF u, unfolded nk, OF assms(1-3)
        row_step.repair_clear [OF assms(4)], of "drop_rotation node"] k key
    by (simp add: rotation_states split: if_splits)
  have st: "n_rotation_state (take_new_key key node) = 1" "n_rotation_state (drop_rotation node) = 0" for key
    by (simp_all add: take_new_key_def drop_rotation_def rotation_states)
  show ?thesis
    unfolding restart_rotation_def Let_def
    by (intro vcg rsat_conseq [OF fresh_key_rsat]) (use gen replaced cleared st in auto)
qed

section \<open>The reconciler follows the protocol\<close>

lemma check_rotation_post:
  assumes "in_sync k node s" "table_inv (tbl (db s))"
  shows "rsat (check_rotation os cfg node now s) (\<lambda>(err, node') s'. rec_post os k s node' s' \<and>
     (err = 0 \<longrightarrow> n_rotation_state node' \<in> {0, 1, 2}))"
proof -
  have restart: "rsat (restart_rotation os cfg n now t) (\<lambda>(err, node') s'. rec_post os k s node' s' \<and>
      (err = 0 \<longrightarrow> n_rotation_state node' \<in> {0, 1, 2}))"
    if base: "rec_post os k s n t" and bad: "n_rotation_state n < 0 \<or> 2 < n_rotation_state n \<or>
      n_rotation_state n \<noteq> 0 \<and> (n_xor_key_pending n = [] \<or> n_xor_key n \<noteq> n_xor_key_pending n)" for n t
  proof -
    have sync: "in_sync k n t" "table_inv (tbl (db t))" using base by (auto simp: rec_post_def)
    then obtain r where r: "lookup (tbl (db t)) k = Some r" by (rule_tac in_sync_row)
    have "\<not> rotation_ok r" by (rule in_sync_repair [OF sync(1) r bad])
    from restart_rotation_post [OF sync r this] show ?thesis
      by (rule rsat_conseq) (use rec_post_trans [OF base] in auto)
  qed
  show ?thesis
    unfolding check_rotation_def
    by (intro vcg rsat_conseq [OF restart] rsat_conseq [OF restart [OF rec_post_refl [OF assms]]])
       (use rec_post_refl [OF assms] in \<open>auto simp: rotation_states\<close>)
qed

text \<open>On consistent rotation columns the check does nothing.\<close>

lemma check_rotation_good:
  assumes "in_sync k node s" "lookup (tbl (db s)) k = Some r" "rotation_ok r"
  shows "check_rotation os cfg node now s = Some ((0, node), s)"
  using in_sync_repair [OF assms(1,2)] assms(3) by (auto simp: check_rotation_def rotation_states)

lemma begin_rotation_post:
  assumes "in_sync k node s" "table_inv (tbl (db s))" "n_rotation_state node = 0" "n_xor_key node \<noteq> []"
    "TUMGRD_MIN_SANE_TIME \<le> now" "fresh_key key"
    and u: "tumgrd_db_begin_rotation os (n_server_host node) (n_server_port node) (n_uid node)
        (n_ip_version node) key TUMGRD_ROTATION_PENDING_REMOTE now s = (rc, u)"
  shows "rec_post os k s (if rc = 0 then take_new_key key node else node) u"
proof -
  obtain r where r: "lookup (tbl (db s)) k = Some r" "carries k r node"
    "c_rotation_state r = Some (n_rotation_state node)"
    using assms(1) by (rule_tac in_sync_row) blast+
  have k: "node_key node = k" "key_of r \<noteq> []" using r(2) assms(4) by (auto simp: carries_def)
  have "c_rotation_state r = Some TUMGRD_ROTATION_NONE" using r(3) assms(3) by (simp add: rotation_states)
  note step = row_step.begin_rotation [OF this k(2) assms(6,5)]
  show ?thesis
    using begin_rotation.step_post [OF u, unfolded node_key_eq [OF k(1)], OF assms(1,2) r(1) step,
        of "take_new_key key node"] k(1)
    by (simp add: take_new_key_fields [OF assms(6)] rotation_states)
qed

text \<open>The second condition of the chain is taken only while the clock is trusted.\<close>

lemma check_expiry_post:
  assumes "in_sync k node s" "table_inv (tbl (db s))" "n_rotation_state node \<in> {0, 1, 2}"
  shows "rsat (check_expiry os cfg node force now s) (\<lambda>(err, node', force', expired) s'.
     rec_post os k s node' s' \<and> n_rotation_state node' \<in> {0, 1, 2} \<and>
     (n_rotation_state node \<noteq> 0 \<longrightarrow> err = 0 \<and> node' = node \<and> s' = s \<and> force' \<and> expired) \<and>
     (\<not> force' \<longrightarrow> err = 0 \<and> node' = node \<and> s' = s \<and> \<not> force) \<and>
     (expired \<longrightarrow> n_rotation_state node' = 0 \<longrightarrow> TUMGRD_MIN_SANE_TIME \<le> now))"
proof -
  have gen: "rec_post os k s node t" if "db t = db s \<and> rt t = rt s" for t
    by (rule rec_post_same [OF that assms(2,1)])
  have started: "(rc = 0 \<longrightarrow> rec_post os k s (take_new_key key node) u) \<and> (rc \<noteq> 0 \<longrightarrow> rec_post os k s node u)"
    if t: "db t = db s \<and> rt t = rt s" and pre: "n_rotation_state node = 0"
      "n_xor_key node \<noteq> []" "TUMGRD_MIN_SANE_TIME \<le> now" "fresh_key key"
      and u: "tumgrd_db_begin_rotation os (n_server_host node) (n_server_port node) (n_uid node)
        (n_ip_version node) key TUMGRD_ROTATION_PENDING_REMOTE now t = (rc, u)" for t key rc u
  proof -
    have sync: "in_sync k node t" "table_inv (tbl (db t))" using gen [OF t] by (simp_all add: rec_post_def)
    show ?thesis using rec_post_trans [OF gen [OF t] begin_rotation_post [OF sync pre u]]
      by (simp split: if_splits)
  qed
  have st: "n_rotation_state (take_new_key key node) = 1" for key
    by (simp add: take_new_key_def rotation_states)
  have rest: "n_rotation_state node = 0" if "n_rotation_state node \<noteq> 1" "n_rotation_state node \<noteq> 2"
    using assms(3) that by simp
  show ?thesis
    unfolding check_expiry_def Let_def
    by (intro vcg rsat_conseq [OF fresh_key_rsat])
       (use assms(3) rec_post_refl [OF assms(1,2)] gen started st rest in
         \<open>auto simp: rotation_states\<close>)
qed

text \<open>The tools return 0 or a negative code.\<close>

lemma rsat_any: "rsat m (\<lambda>_ _. True)"
  by (simp add: rsat_def)

lemma watchdog_check_code: "rsat (watchdog_check os pid s) (\<lambda>rc _. rc = 0 \<or> rc = - 1)"
  unfolding watchdog_check_def Let_def by (intro vcg rsat_conseq [OF rsat_any]) auto

lemma rsat_wait_outcome:
  "(\<And>st. w = WaitDone st \<Longrightarrow> rsat (f st) Q) \<Longrightarrow> rsat m Q \<Longrightarrow> rsat n Q \<Longrightarrow>
   rsat (case w of WaitDone st \<Rightarrow> f st | WaitTimeout \<Rightarrow> m | WaitFailed \<Rightarrow> n) Q"
  by (cases w) auto

lemma exec_wait_code: "rsat (exec_wait os pid s) (\<lambda>rc _. rc \<le> 0)"
  unfolding exec_wait_def
  by (intro vcg rsat_wait_outcome rsat_conseq [OF rsat_any [of "wait_child _ _ _"]]
      rsat_conseq [OF watchdog_check_code]) auto

lemma exec_child_code: "rsat (exec_child os pid p d n m s) (\<lambda>(rc, _) _. rc \<le> 0)"
  unfolding exec_child_def Let_def
  by (intro vcg rsat_conseq [OF watchdog_check_code] rsat_conseq [OF rsat_any [of "feed_stdin _ _ _ _"]]
      rsat_conseq [OF rsat_any [of "drain _ _ _ _"]] rsat_conseq [OF exec_wait_code]) auto

lemma spawn_attr_calls_code: "spawn_attr_calls os n s = (rc, s') \<Longrightarrow> rc \<le> 0"
  by (induction n arbitrary: s) (auto split: prod.splits if_splits)

lemma exec_body_code: "rsat (exec_body os argv d hm ml n m s) (\<lambda>(rc, _) _. rc \<le> 0)"
  unfolding exec_body_def Let_def
  by (intro vcg rsat_conseq [OF rsat_any [of "posix_spawnp _ _ _ _"]] rsat_conseq [OF exec_child_code]) auto

lemma exec_with_stdio_code: "rsat (exec_with_stdio os argv d hm ml n m s) (\<lambda>(rc, _) _. rc \<le> 0)"
  unfolding exec_with_stdio_def Let_def
  by (intro vcg rsat_conseq [OF exec_body_code]) auto

lemma run_ktuctl_code: "rsat (run_ktuctl os argv s) (\<lambda>rc _. rc \<le> 0)"
  unfolding run_ktuctl_def by (intro vcg rsat_conseq [OF exec_with_stdio_code]) auto

lemma server_add_code: "rsat (tumgrd_runner_server_add os node cfg ip s) (\<lambda>rc _. rc \<le> 0)"
  unfolding tumgrd_runner_server_add_def server_add_detected_def Let_def
  by (intro vcg rsat_conseq [OF rsat_any [of "run_tuctl_script _ _ _ _ _"]]) auto

lemma reset_client_code: "rsat (tumgrd_runner_reset_local_client os node s) (\<lambda>rc _. rc \<le> 0)"
  unfolding tumgrd_runner_reset_local_client_def tumgrd_runner_client_add_def
  by (intro vcg rsat_conseq [OF rsat_any [of "tumgrd_runner_client_del _ _ _"]] run_ktuctl_code) simp

text \<open>What a call of a tool means for the protocol.\<close>

lemma last_toolI: "tool_success P s s' \<Longrightarrow> (\<And>a i. P a i \<Longrightarrow> Q a i) \<Longrightarrow> last_tool Q s'"
  by (auto simp: tool_success_def last_tool_def)

lemma last_tool_rt: "last_tool Q s \<Longrightarrow> rt s' = rt s \<Longrightarrow> last_tool Q s'"
  by (simp add: last_tool_def)

lemma server_add_post:
  assumes "pipe_fds_ok os" "in_sync k node s" "table_inv (tbl (db s))" "valid_ip os ip"
    "lookup (tbl (db s)) k = Some r"
  shows "rsat (tumgrd_runner_server_add os node (Some cfg) (Some ip) s) (\<lambda>rc s'. rec_post os k s node s' \<and>
    rc \<le> 0 \<and> db s' = db s \<and> (rc = 0 \<longrightarrow> last_tool (server_told os k r) s'))"
proof -
  have car: "carries k r node" using assms(2,5) by (auto simp: in_sync_def carries_def)
  let ?P = "is_tuctl node (server_add_scripts node (Some ip))"
  have told: "server_told os k r a i" if "?P a i" for a i
    using that car assms(4) unfolding server_told_def is_tuctl_def server_add_scripts_def the_default_def
    by auto
  then have allowed: "tool_allowed os k r a i" if "?P a i" for a i using that by (simp add: tool_allowed_def)
  show ?thesis
  proof (rule rsat_conseq [OF rsat_conj [OF server_add.post [OF assms(1)] server_add_code]])
    fix rc :: int and s'
    assume p: "tool_post ?P s rc s' \<and> rc \<le> 0"
    then have e: "tool_effect ?P s s'" by (simp add: tool_post_def)
    have d: "db s' = db s" using tool_effect_frame(1) [OF e] .
    moreover have "rc = 0 \<longrightarrow> last_tool (server_told os k r) s'"
      using p told unfolding tool_post_def by (blast intro: last_toolI)
    ultimately show "rec_post os k s node s' \<and> rc \<le> 0 \<and> db s' = db s \<and>
        (rc = 0 \<longrightarrow> last_tool (server_told os k r) s')"
      using p rec_post_tool [OF e assms(5) allowed assms(3,2)] by simp
  qed
qed

lemma reset_client_success:
  assumes "pipe_fds_ok os"
  shows "rsat (tumgrd_runner_reset_local_client os node s)
    (\<lambda>rc s'. rc = 0 \<longrightarrow> last_tool (is_ktuctl {client_add_argv node}) s')"
proof -
  have add: "rsat (tumgrd_runner_client_add os node t)
      (\<lambda>rc s'. rc = 0 \<longrightarrow> last_tool (is_ktuctl {client_add_argv node}) s')" for t
    by (rule rsat_conseq [OF client_add.post [OF assms]]) (auto simp: tool_post_def intro: last_toolI)
  show ?thesis
    unfolding tumgrd_runner_reset_local_client_def
    by (intro vcg rsat_conseq [OF rsat_any [of "tumgrd_runner_client_del _ _ _"]] add) simp
qed

lemma reset_client_post:
  assumes "pipe_fds_ok os" "in_sync k node s" "table_inv (tbl (db s))" "lookup (tbl (db s)) k = Some r"
  shows "rsat (tumgrd_runner_reset_local_client os node s) (\<lambda>rc s'. rec_post os k s node s' \<and>
    rc \<le> 0 \<and> db s' = db s \<and> (rc = 0 \<longrightarrow> last_tool (client_set k r) s'))"
proof -
  have car: "carries k r node" using assms(2,4) by (auto simp: in_sync_def carries_def)
  let ?P = "is_ktuctl {client_del_argv node, client_add_argv node}"
  have allowed: "tool_allowed os k r a i" if "?P a i" for a i
    using that car unfolding tool_allowed_def client_set_def client_cleared_def is_ktuctl_def by blast
  have set: "client_set k r a i" if "is_ktuctl {client_add_argv node} a i" for a i
    using that car unfolding client_set_def by blast
  have cond: "last_tool (client_set k r) t" if "last_tool (is_ktuctl {client_add_argv node}) t" for t :: "'a sys"
    using that set by (auto simp: last_tool_def)
  show ?thesis
  proof (rule rsat_conseq [OF rsat_conj [OF reset_client.post [OF assms(1)]
        rsat_conj [OF reset_client_code reset_client_success [OF assms(1)]]]])
    fix rc :: int and s'
    assume p: "tool_post ?P s rc s' \<and> rc \<le> 0 \<and> (rc = 0 \<longrightarrow> last_tool (is_ktuctl {client_add_argv node}) s')"
    then have e: "tool_effect ?P s s'" by (simp add: tool_post_def)
    have d: "db s' = db s" using tool_effect_frame(1) [OF e] .
    then show "rec_post os k s node s' \<and> rc \<le> 0 \<and> db s' = db s \<and>
        (rc = 0 \<longrightarrow> last_tool (client_set k r) s')"
      using p rec_post_tool [OF e assms(4) allowed assms(3,2)] cond by simp
  qed
qed

text \<open>A successful pass: the row after it.\<close>

definition settled_row :: "node_key \<Rightarrow> string \<Rightarrow> string \<Rightarrow> 'w sys \<Rightarrow> row \<Rightarrow> bool" where
  "settled_row k key ip s r \<longleftrightarrow> lookup (tbl (db s)) k = Some r \<and> key_of r = key \<and>
     c_status r = Some TUMGRD_STATUS_ACTIVE \<and> c_current_ip r = Some ip \<and> c_rotation_state r = Some 0 \<and>
     last_tool (client_set k r) s"

definition applied_time :: "int \<Rightarrow> int" where
  "applied_time now = (if now \<ge> TUMGRD_MIN_SANE_TIME then now else 0)"

lemma client_set_key: "key_of r' = key_of r \<Longrightarrow> client_set k r' = client_set k r"
  by (intro ext) (simp add: client_set_def carries_def)

lemma row_change_key [simp]:
  "key_of (set_runtime ip st ts r) = key_of r" "key_of (set_applied ts r) = key_of r"
  "key_of (finish_rotation ts r) = key_of r" "key_of (move_rotation n r) = key_of r"
  by (simp_all add: row_changes key_of_def)

lemma row_change_rotation [simp]:
  "c_rotation_state (set_runtime ip st ts r) = c_rotation_state r"
  "c_rotation_state (set_applied ts r) = c_rotation_state r"
  "c_rotation_state (finish_rotation ts r) = Some 0" "c_rotation_state (move_rotation n r) = Some n"
  "c_xor_key_pending (set_runtime ip st ts r) = c_xor_key_pending r"
  "c_xor_key_pending (set_applied ts r) = c_xor_key_pending r"
  "c_xor_key_pending (move_rotation n r) = c_xor_key_pending r"
  "the_default [] (c_xor_key_pending (finish_rotation ts r)) = []"
  by (simp_all add: row_changes the_default_def)

lemma in_sync_fields:
  assumes "in_sync k node s" "lookup (tbl (db s)) k = Some r"
  shows "node_key node = k" "n_xor_key node = key_of r"
    "n_xor_key_pending node = the_default [] (c_xor_key_pending r)"
    "c_rotation_state r = Some (n_rotation_state node)"
  using assms by (auto simp: in_sync_def)

lemma confirm_remote_post:
  assumes "in_sync k node s" "table_inv (tbl (db s))" "lookup (tbl (db s)) k = Some r"
    "last_tool (server_told os k r) s" "n_rotation_state node \<in> {0, 1, 2}"
    and c: "confirm_remote os node s = ((err, node'), s')"
  shows "rec_post os k s node' s' \<and> n_xor_key node' = n_xor_key node \<and>
    (n_rotation_state node' = 0 \<longleftrightarrow> n_rotation_state node = 0) \<and>
    (err = 0 \<longrightarrow> n_rotation_state node' \<in> {0, 2})"
proof (cases "n_rotation_state node = 1")
  case False
  then show ?thesis
    using c assms(5) rec_post_refl [OF assms(1,2)] by (auto simp: confirm_remote_def rotation_states)
next
  case True
  note f = in_sync_fields [OF assms(1,3)]
  obtain rc where u: "tumgrd_db_update_rotation_state os (n_server_host node) (n_server_port node)
      (n_uid node) (n_ip_version node) TUMGRD_ROTATION_PENDING_LOCAL_RECOVERY s = (rc, s')"
    using c True by (auto simp: confirm_remote_def rotation_states split: prod.splits if_splits)
  let ?n = "node\<lparr>n_rotation_state := TUMGRD_ROTATION_PENDING_LOCAL_RECOVERY\<rparr>"
  have "c_rotation_state r = Some TUMGRD_ROTATION_PENDING_REMOTE" using f(4) True by (simp add: rotation_states)
  note step = row_step.confirm_remote [OF this assms(4)]
  have "rec_post os k s (if rc = 0 then ?n else node) s'"
    using update_rotation_state.step_post [OF u, unfolded node_key_eq [OF f(1)], OF assms(1-3) step, of ?n] f
    by simp
  moreover have "err = (if rc = 0 then 0 else - 1) \<and> node' = (if rc = 0 then ?n else node)"
    using c u True by (auto simp: confirm_remote_def rotation_states)
  ultimately show ?thesis using True by (auto simp: rotation_states)
qed

lemma mark_runtime_post:
  assumes "in_sync k node s" "table_inv (tbl (db s))" "lookup (tbl (db s)) k = Some r"
    "row_step os k s r (set_runtime (Some ip) st ts r)"
    and m: "mark_runtime os node ip st ts s = (rc, s')"
  shows "rec_post os k s node s' \<and> rt s' = rt s \<and> (rc = 0 \<or> rc = - 1) \<and>
    (rc = 0 \<longrightarrow> lookup (tbl (db s')) k = Some (set_runtime (Some ip) st ts r)) \<and> (rc \<noteq> 0 \<longrightarrow> db s' = db s)"
proof -
  note f = in_sync_fields [OF assms(1,3)]
  note u = m [unfolded mark_runtime_def]
  note stored = update_runtime.stores_row [OF u, unfolded node_key_eq [OF f(1)], OF assms(2,3)]
  have code: "rc = 0 \<or> rc = - 1" by (rule update_runtime.result_code [OF u])
  have pk: "pk (set_runtime (Some ip) st ts r) = k"
    using row_step_keys [OF assms(4)] lookup_SomeD [OF assms(3)] by simp
  show ?thesis
  proof (cases "rc = 0")
    case True
    then have w: "row_written k (set_runtime (Some ip) st ts r) s s'" using stored by simp
    have "rec_post os k s node s'"
      by (rule rec_post_store [OF assms(4) w assms(3,2) f(1)]) (simp_all add: f)
    with True w row_written_lookup(1) [OF w assms(3) pk] show ?thesis by (simp add: row_written_def)
  next
    case False
    with stored rec_post_same [OF _ assms(2,1), of s' os] code show ?thesis by simp
  qed
qed

lemma record_applied_post:
  assumes "in_sync k node s" "table_inv (tbl (db s))" "lookup (tbl (db s)) k = Some r"
    "last_tool (client_set k r) s" "n_rotation_state node \<in> {0, 2}"
    "expired \<longrightarrow> n_rotation_state node = 0 \<longrightarrow> TUMGRD_MIN_SANE_TIME \<le> now"
    and a: "record_applied os node expired True now s = ((err, node'), s')"
  shows "rec_post os k s node' s' \<and> rt s' = rt s \<and> n_xor_key node' = n_xor_key node \<and>
    (err \<noteq> 0 \<longrightarrow> node' = node) \<and>
    (err = 0 \<longrightarrow> (\<exists>r'. lookup (tbl (db s')) k = Some r' \<and> key_of r' = key_of r \<and> c_status r' = c_status r \<and>
       c_current_ip r' = c_current_ip r \<and> c_rotation_state r' = Some 0 \<and>
       (expired \<or> n_rotation_state node \<noteq> 0 \<longrightarrow> c_last_applied_at r' = Some (applied_time now))))"
proof -
  note f = in_sync_fields [OF assms(1,3)]
  consider (rotating) "n_rotation_state node = 2" | (expired) "n_rotation_state node = 0" expired
    | (none) "n_rotation_state node = 0" "\<not> expired" using assms(5) by auto
  then show ?thesis
  proof cases
    case rotating
    obtain rc where u: "tumgrd_db_complete_rotation os (n_server_host node) (n_server_port node)
        (n_uid node) (n_ip_version node) (applied_time now) s = (rc, s')"
      using a rotating by (auto simp: record_applied_def applied_time_def rotation_states split: prod.splits if_splits)
    let ?n = "(drop_rotation node)\<lparr>n_last_applied_at := applied_time now\<rparr>"
    have st: "c_rotation_state r = Some TUMGRD_ROTATION_PENDING_LOCAL_RECOVERY"
      using f(4) rotating by (simp add: rotation_states)
    have ts: "applied_time now = 0 \<or> TUMGRD_MIN_SANE_TIME \<le> applied_time now" by (simp add: applied_time_def)
    note post = complete_rotation.step_post [OF u, unfolded node_key_eq [OF f(1)], OF assms(1-3)
        row_step.complete_rotation [OF st assms(4) ts], of ?n]
    have p: "rec_post os k s (if rc = 0 then ?n else node) s' \<and> rt s' = rt s \<and>
        (rc = 0 \<longrightarrow> lookup (tbl (db s')) k = Some (finish_rotation (applied_time now) r))"
      using post f by (simp add: rotation_states)
    have "err = (if rc = 0 then 0 else - 1) \<and> node' = (if rc = 0 then ?n else node)"
      using a u rotating by (auto simp: record_applied_def applied_time_def rotation_states split: if_splits)
    moreover have "c_status (finish_rotation ts r) = c_status r \<and> c_current_ip (finish_rotation ts r) = c_current_ip r \<and>
        c_last_applied_at (finish_rotation ts r) = Some ts" for ts by (simp add: finish_rotation_def)
    ultimately show ?thesis using p rotating by (cases "rc = 0") simp_all
  next
    case expired
    then have sane: "TUMGRD_MIN_SANE_TIME \<le> now" using assms(6) by simp
    obtain rc where u: "tumgrd_db_update_applied os (n_server_host node) (n_server_port node)
        (n_uid node) (n_ip_version node) now s = (rc, s')"
      using a expired by (auto simp: record_applied_def rotation_states split: prod.splits if_splits)
    let ?n = "node\<lparr>n_last_applied_at := now\<rparr>"
    have st: "c_rotation_state r = Some TUMGRD_ROTATION_NONE" using f(4) expired by (simp add: rotation_states)
    note post = update_applied.step_post [OF u, unfolded node_key_eq [OF f(1)], OF assms(1-3)
        row_step.renew [OF assms(4) st sane], of ?n]
    have p: "rec_post os k s (if rc = 0 then ?n else node) s' \<and> rt s' = rt s \<and>
        (rc = 0 \<longrightarrow> lookup (tbl (db s')) k = Some (set_applied now r))"
      using post f by simp
    have "err = (if rc = 0 then 0 else - 1) \<and> node' = (if rc = 0 then ?n else node)"
      using a u expired by (auto simp: record_applied_def rotation_states split: if_splits)
    moreover have "c_status (set_applied now r) = c_status r \<and> c_current_ip (set_applied now r) = c_current_ip r \<and>
        c_last_applied_at (set_applied now r) = Some (applied_time now)"
      using sane by (simp add: set_applied_def applied_time_def)
    ultimately show ?thesis using p expired f(4) by (cases "rc = 0") simp_all
  next
    case none
    then have "err = 0 \<and> node' = node \<and> s' = s" using a by (simp add: record_applied_def rotation_states)
    with none f rec_post_refl [OF assms(1,2)] assms(3) show ?thesis by simp
  qed
qed

lemma valid_ip_stored:
  assumes "valid_ip os ip" "inet_text_ok os"
  shows "c_current_ip (set_runtime (Some ip) st ts r) = Some ip"
proof -
  have "ip \<noteq> []"
    using assms unfolding valid_ip_def is_ipv4_def is_ipv6_def inet_text_ok_def by blast
  then show ?thesis by (simp add: set_runtime_def nonempty_or_null_Some bind_text_or_null_def)
qed

text \<open>What a failed or successful pass leaves of key and rotation of the node.\<close>

definition rotation_kept :: "int \<Rightarrow> tumgrd_node \<Rightarrow> tumgrd_node \<Rightarrow> bool" where
  "rotation_kept err node node' \<longleftrightarrow> n_xor_key node' = n_xor_key node \<and>
     (err \<noteq> 0 \<longrightarrow> (n_rotation_state node' = 0 \<longleftrightarrow> n_rotation_state node = 0))"

lemma rotation_kept_refl [simp]: "rotation_kept err node node"
  by (simp add: rotation_kept_def)

lemma mark_status_post:
  assumes "in_sync k node t" "table_inv (tbl (db t))" "lookup (tbl (db t)) k = Some r"
    "\<And>u ts. rt u = rt t \<Longrightarrow> row_step os k u r (set_runtime (Some ip) st ts r)"
    and "now_unix os t = (ts, u)" "mark_runtime os node ip st ts u = (rc, v)"
  shows "rec_post os k t node v \<and> rt v = rt t \<and> (rc = 0 \<or> rc = - 1) \<and>
    (rc = 0 \<longrightarrow> lookup (tbl (db v)) k = Some (set_runtime (Some ip) st ts r)) \<and>
    (rc \<noteq> 0 \<longrightarrow> db v = db t)"
proof -
  have uf: "db u = db t \<and> rt u = rt t" using now_unix_frame [OF assms(5)] .
  note pu = rec_post_same [OF uf assms(2,1)]
  then have su: "in_sync k node u" "table_inv (tbl (db u))" by (simp_all add: rec_post_def)
  have ru: "lookup (tbl (db u)) k = Some r" using uf assms(3) by simp
  have "row_step os k u r (set_runtime (Some ip) st ts r)" using uf by (intro assms(4)) simp
  from mark_runtime_post [OF su ru this assms(6)] show ?thesis
    using rec_post_trans [OF pu] uf by simp
qed

lemma finish_local_post:
  assumes "inet_text_ok os" "in_sync k node t" "table_inv (tbl (db t))" "valid_ip os ip"
    "lookup (tbl (db t)) k = Some r" "n_rotation_state node \<in> {0, 2}"
    "expired \<longrightarrow> n_rotation_state node = 0 \<longrightarrow> TUMGRD_MIN_SANE_TIME \<le> now"
    "last_tool (client_set k r) t" "now_unix os t = (ts, u)"
    "mark_runtime os node ip TUMGRD_STATUS_ACTIVE ts u = (0, v)"
    "record_applied os node expired True now v = ((err, node'), x)"
  shows "rec_post os k t node' x \<and> rotation_kept err node node' \<and>
    (err = 0 \<longrightarrow> (\<exists>r'. settled_row k (key_of r) ip x r' \<and>
       (expired \<or> n_rotation_state node \<noteq> 0 \<longrightarrow> c_last_applied_at r' = Some (applied_time now))))"
proof -
  let ?r = "set_runtime (Some ip) TUMGRD_STATUS_ACTIVE ts r"
  have "row_step os k u r (set_runtime (Some ip) TUMGRD_STATUS_ACTIVE ts r)" if "rt u = rt t" for u ts
    using last_tool_rt [OF assms(8) that] assms(4) by (rule row_step.mark_active)
  note mv = mark_status_post [OF assms(2,3,5) this assms(9,10)]
  then have pv: "rec_post os k t node v" and rv: "lookup (tbl (db v)) k = Some ?r" and rtv: "rt v = rt t"
    by simp_all
  have sv: "in_sync k node v" "table_inv (tbl (db v))" using pv by (simp_all add: rec_post_def)
  have lv: "last_tool (client_set k ?r) v"
    using last_tool_rt [OF assms(8) rtv] client_set_key [of ?r r k] by simp
  note rec = record_applied_post [OF sv rv lv assms(6,7,11)]
  have "\<exists>r'. settled_row k (key_of r) ip x r' \<and>
      (expired \<or> n_rotation_state node \<noteq> 0 \<longrightarrow> c_last_applied_at r' = Some (applied_time now))" if "err = 0"
  proof -
    from rec that obtain r' where r': "lookup (tbl (db x)) k = Some r'" "key_of r' = key_of ?r"
      "c_status r' = c_status ?r" "c_current_ip r' = c_current_ip ?r" "c_rotation_state r' = Some 0"
      "expired \<or> n_rotation_state node \<noteq> 0 \<longrightarrow> c_last_applied_at r' = Some (applied_time now)" by blast
    moreover have "last_tool (client_set k r') x"
      using last_tool_rt [OF lv conjunct1 [OF conjunct2 [OF rec]]] client_set_key [OF r'(2), of k] by simp
    moreover have "c_status ?r = Some TUMGRD_STATUS_ACTIVE" by (simp add: set_runtime_def)
    ultimately show ?thesis using valid_ip_stored [OF assms(4,1)] by (auto simp: settled_row_def)
  qed
  then show ?thesis using rec_post_trans [OF pv] rec by (auto simp: rotation_kept_def)
qed

lemma local_client_post:
  assumes "pipe_fds_ok os" "inet_text_ok os" "in_sync k node s" "table_inv (tbl (db s))" "valid_ip os ip"
    "lookup (tbl (db s)) k = Some r" "n_rotation_state node \<in> {0, 2}"
    "expired \<longrightarrow> n_rotation_state node = 0 \<longrightarrow> TUMGRD_MIN_SANE_TIME \<le> now"
  shows "rsat (do { (rc, s) \<leftarrow> tumgrd_runner_reset_local_client os node s;
      if rc < 0 then Some ((rc, node), s)
      else let (ts, s) = now_unix os s;
               (rc, s) = mark_runtime os node ip TUMGRD_STATUS_ACTIVE ts s
           in if rc < 0 then Some ((rc, node), s)
              else Some (record_applied os node expired True now s) })
    (\<lambda>(err, node') s'. rec_post os k s node' s' \<and> rotation_kept err node node' \<and>
       (err = 0 \<longrightarrow> (\<exists>r'. settled_row k (key_of r) ip s' r' \<and>
          (expired \<or> n_rotation_state node \<noteq> 0 \<longrightarrow> c_last_applied_at r' = Some (applied_time now)))))"
  (is "rsat _ ?Q")
proof -
  have rest: "rsat (let (ts, s) = now_unix os t;
               (rc, s) = mark_runtime os node ip TUMGRD_STATUS_ACTIVE ts s
           in if rc < 0 then Some ((rc, node), s) else Some (record_applied os node expired True now s)) ?Q"
    if t: "rec_post os k s node t" "db t = db s" "last_tool (client_set k r) t" for t
  proof -
    have base: "in_sync k node t" "table_inv (tbl (db t))" using t by (simp_all add: rec_post_def)
    have rt: "lookup (tbl (db t)) k = Some r" using t(2) assms(6) by simp
    obtain ts u where u: "now_unix os t = (ts, u)" by fastforce
    obtain rc v where v: "mark_runtime os node ip TUMGRD_STATUS_ACTIVE ts u = (rc, v)" by fastforce
    obtain err node' x where x: "record_applied os node expired True now v = ((err, node'), x)"
      by (metis surj_pair)
    have "row_step os k u r (set_runtime (Some ip) TUMGRD_STATUS_ACTIVE ts r)" if "rt u = rt t" for u ts
      using last_tool_rt [OF t(3) that] assms(5) by (rule row_step.mark_active)
    note mv = mark_status_post [OF base rt this u v]
    show ?thesis
    proof (cases "rc = 0")
      case True
      from finish_local_post [OF assms(2) base assms(5) rt assms(7,8) t(3) u v [unfolded True] x] 
      show ?thesis using u v x True rec_post_trans [OF t(1), of node' x] by (simp add: rsat_def)
    next
      case False
      then show ?thesis using u v mv rec_post_trans [OF t(1), of node v] by (auto simp: rsat_def)
    qed
  qed
  show ?thesis
    by (intro rsat_bind rsat_prod rsat_if rsat_return rsat_conseq [OF reset_client_post [OF assms(1,3,4,6)]] rest) auto
qed

lemma apply_local_post:
  assumes "pipe_fds_ok os" "inet_text_ok os" "in_sync k node s" "table_inv (tbl (db s))" "valid_ip os ip"
    "lookup (tbl (db s)) k = Some r" "n_rotation_state node \<in> {0, 1, 2}"
    "expired \<longrightarrow> n_rotation_state node = 0 \<longrightarrow> TUMGRD_MIN_SANE_TIME \<le> now"
    "last_tool (server_told os k r) s"
  shows "rsat (apply_local os node ip expired now s)
    (\<lambda>(err, node') s'. rec_post os k s node' s' \<and> rotation_kept err node node' \<and>
       (err = 0 \<longrightarrow> (\<exists>r'. settled_row k (key_of r) ip s' r' \<and>
          (expired \<or> n_rotation_state node \<noteq> 0 \<longrightarrow> c_last_applied_at r' = Some (applied_time now)))))"
proof -
  obtain e n t where c: "confirm_remote os node s = ((e, n), t)" by (metis surj_pair)
  note p = confirm_remote_post [OF assms(3,4,6,9,7) c]
  then have base: "rec_post os k s n t" "in_sync k n t" "table_inv (tbl (db t))" by (simp_all add: rec_post_def)
  show ?thesis
  proof (cases "e = 0")
    case False
    then show ?thesis using p c by (auto simp: apply_local_def rotation_kept_def intro!: rsat_return)
  next
    case True
    from base(2) obtain q where q: "lookup (tbl (db t)) k = Some q" by (rule in_sync_row)
    have key: "key_of q = key_of r"
      using in_sync_fields(2) [OF base(2) q] in_sync_fields(2) [OF assms(3,6)] p by simp
    have st: "n_rotation_state n \<in> {0, 2}" using p True by blast
    have exp: "expired \<longrightarrow> n_rotation_state n = 0 \<longrightarrow> TUMGRD_MIN_SANE_TIME \<le> now" using p assms(8) by simp
    have "rsat (do { (rc, s) \<leftarrow> tumgrd_runner_reset_local_client os n t;
        if rc < 0 then Some ((rc, n), s)
        else let (ts, s) = now_unix os s;
                 (rc, s) = mark_runtime os n ip TUMGRD_STATUS_ACTIVE ts s
             in if rc < 0 then Some ((rc, n), s)
                else Some (record_applied os n expired True now s) })
      (\<lambda>(err, node') s'. rec_post os k s node' s' \<and> rotation_kept err node node' \<and>
       (err = 0 \<longrightarrow> (\<exists>r'. settled_row k (key_of r) ip s' r' \<and>
          (expired \<or> n_rotation_state node \<noteq> 0 \<longrightarrow> c_last_applied_at r' = Some (applied_time now)))))"
      by (rule rsat_conseq [OF local_client_post [OF assms(1,2) base(2,3) assms(5) q st exp]])
         (use rec_post_trans [OF base(1)] key p in \<open>auto simp: rotation_kept_def\<close>)
    then show ?thesis using c True by (simp add: apply_local_def)
  qed
qed

lemma detect_address_post:
  assumes "inet_text_ok os" "in_sync k node s" "table_inv (tbl (db s))"
  shows "rsat (detect_public_ip bits os url v [] 64 s) (\<lambda>(rc, ip) s'. rec_post os k s node s' \<and>
    db s' = db s \<and> rt s' = rt s \<and> (rc = 0 \<or> rc = - 1) \<and> (rc = 0 \<longrightarrow> valid_ip os ip))"
  by (rule rsat_conseq [OF detect_public_ip_outcome])
     (use assms rec_post_same [OF _ assms(3,2)] in
       \<open>auto dest!: only_world_frame simp: valid_ip_def accepts_def\<close>)

lemma apply_node_post:
  assumes "pipe_fds_ok os" "inet_text_ok os" "in_sync k node s" "table_inv (tbl (db s))"
    "lookup (tbl (db s)) k = Some r" "n_rotation_state node \<in> {0, 1, 2}"
    "expired \<longrightarrow> n_rotation_state node = 0 \<longrightarrow> TUMGRD_MIN_SANE_TIME \<le> now"
  shows "rsat (apply_node bits os cfg node force expired now s)
    (\<lambda>(err, node', ip) s'. rec_post os k s node' s' \<and> rotation_kept err node node' \<and>
       (err = 0 \<longrightarrow> \<not> force \<and> db s' = db s \<and> rt s' = rt s \<and> node' = node \<or>
         valid_ip os ip \<and> (\<exists>r'. settled_row k (key_of r) ip s' r' \<and>
          (expired \<or> n_rotation_state node \<noteq> 0 \<longrightarrow> c_last_applied_at r' = Some (applied_time now)))))"
  (is "rsat _ ?Q")
proof -
  have local: "rsat (apply_local os node ip expired now u) (\<lambda>(err, node') s'. ?Q (err, node', ip) s')"
    if t: "rec_post os k s node t" "db t = db s" "valid_ip os ip"
      and u: "rec_post os k t node u" "db u = db t" "last_tool (server_told os k r) u" for t u ip
  proof -
    have pu: "rec_post os k s node u" by (rule rec_post_trans [OF t(1) u(1)])
    then have base: "in_sync k node u" "table_inv (tbl (db u))" by (simp_all add: rec_post_def)
    have ru: "lookup (tbl (db u)) k = Some r" using t(2) u(2) assms(5) by simp
    show ?thesis
      by (rule rsat_conseq [OF apply_local_post [OF assms(1,2) base t(3) ru assms(6,7) u(3)]])
         (use rec_post_trans [OF pu] t(3) in auto)
  qed
  have add: "rsat (tumgrd_runner_server_add os node (Some cfg) (Some ip) t) (\<lambda>rc u.
      rec_post os k s node u \<and> rec_post os k t node u \<and> rc \<le> 0 \<and> db u = db t \<and>
      (rc = 0 \<longrightarrow> last_tool (server_told os k r) u))"
    if t: "rec_post os k s node t" "db t = db s" "valid_ip os ip" for t ip
  proof -
    have base: "in_sync k node t" "table_inv (tbl (db t))" using t(1) by (simp_all add: rec_post_def)
    have rt: "lookup (tbl (db t)) k = Some r" using t(2) assms(5) by simp
    show ?thesis
      by (rule rsat_conseq [OF server_add_post [OF assms(1) base t(3) rt]])
         (use rec_post_trans [OF t(1)] in auto)
  qed
  show ?thesis
    unfolding apply_node_def Let_def
    by (intro vcg rsat_conseq [OF detect_address_post [OF assms(2-4)]] rsat_conseq [OF add] 
        rsat_conseq [OF local]) (use rec_post_refl [OF assms(3,4)] in auto)
qed

text \<open>
  The outcome of one pass over the node with row \<open>r\<close> that began in \<open>s\<close>, and what the pass
  has done before it probes the address, for consistent rotation columns.
\<close>

definition pass_outcome ::
  "'w os \<Rightarrow> node_key \<Rightarrow> row \<Rightarrow> bool \<Rightarrow> 'w sys \<Rightarrow> int \<Rightarrow> tumgrd_node \<Rightarrow> string \<Rightarrow> 'w sys \<Rightarrow> bool" where
  "pass_outcome os k r force s err node ip s' \<longleftrightarrow>
     (err \<noteq> 0 \<longrightarrow> rotating r \<longrightarrow> n_rotation_state node \<noteq> 0 \<and> n_xor_key node = key_of r) \<and>
     (err = 0 \<longrightarrow> \<not> force \<and> \<not> rotating r \<and> db s' = db s \<and> rt s' = rt s \<or>
        valid_ip os ip \<and> (\<exists>r'. settled_row k (n_xor_key node) ip s' r' \<and>
          (rotating r \<longrightarrow> key_of r' = key_of r \<and> (\<exists>now. c_last_applied_at r' = Some (applied_time now)))))"

definition pass_prepared :: "row \<Rightarrow> bool \<Rightarrow> 'w sys \<Rightarrow> tumgrd_node \<Rightarrow> bool \<Rightarrow> 'w sys \<Rightarrow> bool" where
  "pass_prepared r force s node force' s' \<longleftrightarrow>
     (rotating r \<longrightarrow> n_rotation_state node \<noteq> 0 \<and> n_xor_key node = key_of r) \<and>
     (\<not> force' \<longrightarrow> \<not> force \<and> \<not> rotating r \<and> db s' = db s \<and> rt s' = rt s)"

lemma check_rotation_pass:
  assumes "in_sync k node s" "table_inv (tbl (db s))" "lookup (tbl (db s)) k = Some r"
  shows "rsat (check_rotation os cfg node now s) (\<lambda>(err, n) u. rec_post os k s n u \<and>
    (err = 0 \<longrightarrow> n_rotation_state n \<in> {0, 1, 2}) \<and> (rotation_ok r \<longrightarrow> err = 0 \<and> n = node \<and> u = s))"
  by (rule rsat_conseq [OF rsat_conj [OF check_rotation_post [OF assms(1,2)]
          rsatI [of _ "\<lambda>(err, n) u. rotation_ok r \<longrightarrow> err = 0 \<and> n = node \<and> u = s"]]])
     (use check_rotation_good [OF assms(1,3)] in auto)

lemma check_expiry_pass:
  assumes "in_sync k node s" "table_inv (tbl (db s))" "lookup (tbl (db s)) k = Some r"
    "n_rotation_state node \<in> {0, 1, 2}"
  shows "rsat (check_expiry os cfg node force now s) (\<lambda>(err, n, force', expired) u. rec_post os k s n u \<and>
    n_rotation_state n \<in> {0, 1, 2} \<and> pass_prepared r force s n force' u \<and> (err \<noteq> 0 \<longrightarrow> \<not> rotating r) \<and>
    (expired \<longrightarrow> n_rotation_state n = 0 \<longrightarrow> TUMGRD_MIN_SANE_TIME \<le> now))"
proof -
  note f = in_sync_fields [OF assms(1,3)]
  have rot: "rotating r \<longleftrightarrow> n_rotation_state node \<noteq> 0" using f(4) by (simp add: rotating_def)
  have skip: "n_rotation_state node = 0" if "(n_rotation_state node \<noteq> 0 \<longrightarrow> force')" "\<not> force'" for force'
    using that by blast
  show ?thesis
  proof (rule rsatI)
    fix a u assume e: "check_expiry os cfg node force now s = Some (a, u)"
    obtain err n force' expired where a: "a = (err, n, force', expired)" by (metis surj_pair)
    have "rec_post os k s n u" "n_rotation_state n \<in> {0, 1, 2}"
      and same: "n_rotation_state node \<noteq> 0 \<longrightarrow> err = 0 \<and> n = node \<and> u = s \<and> force' \<and> expired"
      and keep: "\<not> force' \<longrightarrow> err = 0 \<and> n = node \<and> u = s \<and> \<not> force"
      and exp: "expired \<longrightarrow> n_rotation_state n = 0 \<longrightarrow> TUMGRD_MIN_SANE_TIME \<le> now"
      using rsatD [OF check_expiry_post [OF assms(1,2,4)] e] unfolding a prod.case by blast+
    moreover have "pass_prepared r force s n force' u"
      unfolding pass_prepared_def rot using same keep f(2) by blast
    moreover have "err \<noteq> 0 \<longrightarrow> \<not> rotating r" unfolding rot using same by blast
    ultimately show "(case a of (err, n, force', expired) \<Rightarrow> \<lambda>u. rec_post os k s n u \<and>
        n_rotation_state n \<in> {0, 1, 2} \<and> pass_prepared r force s n force' u \<and> (err \<noteq> 0 \<longrightarrow> \<not> rotating r) \<and>
        (expired \<longrightarrow> n_rotation_state n = 0 \<longrightarrow> TUMGRD_MIN_SANE_TIME \<le> now)) u"
      unfolding a prod.case by blast
  qed
qed

lemma apply_node_pass:
  assumes "pipe_fds_ok os" "inet_text_ok os" "in_sync k n v" "table_inv (tbl (db v))"
    "n_rotation_state n \<in> {0, 1, 2}" "expired \<longrightarrow> n_rotation_state n = 0 \<longrightarrow> TUMGRD_MIN_SANE_TIME \<le> now"
  shows "rsat (apply_node bits os cfg n force' expired now v) (\<lambda>(err, n', ip) x. rec_post os k v n' x \<and>
    (pass_prepared r force s n force' v \<longrightarrow> pass_outcome os k r force s err n' ip x))"
proof -
  from assms(3) obtain q where q: "lookup (tbl (db v)) k = Some q" by (rule in_sync_row)
  note key = in_sync_fields(2) [OF assms(3) q]
  show ?thesis
  proof (rule rsatI)
    fix a x assume e: "apply_node bits os cfg n force' expired now v = Some (a, x)"
    obtain err n' ip where a: "a = (err, n', ip)" by (metis surj_pair)
    have "rec_post os k v n' x" and kept: "rotation_kept err n n'"
      and fin: "err = 0 \<longrightarrow> \<not> force' \<and> db x = db v \<and> rt x = rt v \<and> n' = n \<or>
        valid_ip os ip \<and> (\<exists>r'. settled_row k (key_of q) ip x r' \<and>
          (expired \<or> n_rotation_state n \<noteq> 0 \<longrightarrow> c_last_applied_at r' = Some (applied_time now)))"
      using rsatD [OF apply_node_post [OF assms(1-4) q assms(5,6)] e] unfolding a prod.case by blast+
    moreover have "pass_outcome os k r force s err n' ip x" if prep: "pass_prepared r force s n force' v"
    proof -
      have "n_rotation_state n' \<noteq> 0 \<and> n_xor_key n' = key_of r" if "err \<noteq> 0" "rotating r"
        using kept prep that by (simp add: rotation_kept_def pass_prepared_def)
      moreover have "\<not> force \<and> \<not> rotating r \<and> db x = db s \<and> rt x = rt s \<or>
          valid_ip os ip \<and> (\<exists>r'. settled_row k (n_xor_key n') ip x r' \<and>
            (rotating r \<longrightarrow> key_of r' = key_of r \<and> (\<exists>now. c_last_applied_at r' = Some (applied_time now))))"
        if ok: "err = 0"
      proof -
        have k: "n_xor_key n' = key_of q" using kept key by (simp add: rotation_kept_def)
        consider (skip) "\<not> force'" "db x = db v" "rt x = rt v"
          | (applied) r' where "valid_ip os ip" "settled_row k (key_of q) ip x r'"
            "expired \<or> n_rotation_state n \<noteq> 0 \<longrightarrow> c_last_applied_at r' = Some (applied_time now)"
          using fin ok by blast
        then show ?thesis
        proof cases
          case skip
          then show ?thesis using prep by (simp add: pass_prepared_def)
        next
          case (applied r')
          have "rotating r \<longrightarrow> key_of r' = key_of r \<and> c_last_applied_at r' = Some (applied_time now)"
            using applied prep key by (simp add: settled_row_def pass_prepared_def)
          with applied k show ?thesis by metis
        qed
      qed
      ultimately show ?thesis unfolding pass_outcome_def by blast
    qed
    ultimately show "(case a of (err, n', ip) \<Rightarrow> \<lambda>x. rec_post os k v n' x \<and>
        (pass_prepared r force s n force' v \<longrightarrow> pass_outcome os k r force s err n' ip x)) x"
      unfolding a prod.case by blast
  qed
qed

lemma reconcile_steps_post:
  assumes "pipe_fds_ok os" "inet_text_ok os" "in_sync k node s" "table_inv (tbl (db s))"
    "lookup (tbl (db s)) k = Some r"
  shows "rsat (reconcile_steps bits os cfg node force s) (\<lambda>(err, node', ip) s'. rec_post os k s node' s' \<and>
    (rotation_ok r \<longrightarrow> pass_outcome os k r force s err node' ip s'))"
proof -
  obtain now t where now: "now_unix os s = (now, t)" by fastforce
  have tf: "db t = db s \<and> rt t = rt s" using now_unix_frame [OF now] .
  note pt = rec_post_same [OF tf assms(4,3)]
  then have base: "in_sync k node t" "table_inv (tbl (db t))" by (simp_all add: rec_post_def)
  have rt: "lookup (tbl (db t)) k = Some r" using tf assms(5) by simp
  have frame: "pass_prepared r force s n f u" if "pass_prepared r force t n f u" for n f u
    using that tf by (simp add: pass_prepared_def)
  have exp: "rsat (check_expiry os cfg n force now u) (\<lambda>(err, n', force', expired) v. rec_post os k s n' v \<and>
      n_rotation_state n' \<in> {0, 1, 2} \<and> (expired \<longrightarrow> n_rotation_state n' = 0 \<longrightarrow> TUMGRD_MIN_SANE_TIME \<le> now) \<and>
      (rotation_ok r \<longrightarrow> pass_prepared r force s n' force' v \<and> (err \<noteq> 0 \<longrightarrow> \<not> rotating r)))"
    if "rec_post os k t n u" "n_rotation_state n \<in> {0, 1, 2}" "rotation_ok r \<longrightarrow> n = node \<and> u = t" for n u
  proof -
    have pu: "rec_post os k s n u" using rec_post_trans [OF pt that(1)] .
    then have bu: "in_sync k n u" "table_inv (tbl (db u))" by (simp_all add: rec_post_def)
    from bu(1) obtain q where q: "lookup (tbl (db u)) k = Some q" by (rule in_sync_row)
    have "rotation_ok r \<longrightarrow> q = r \<and> u = t" using q rt that(3) by auto
    then show ?thesis
      by (intro rsat_conseq [OF check_expiry_pass [OF bu q that(2)]])
         (use rec_post_trans [OF pu] frame in auto)
  qed
  have app: "rsat (apply_node bits os cfg n f expired now v) (\<lambda>(err, n', ip) x. rec_post os k s n' x \<and>
      (rotation_ok r \<longrightarrow> pass_outcome os k r force s err n' ip x))"
    if "rec_post os k s n v" "n_rotation_state n \<in> {0, 1, 2}"
      "expired \<longrightarrow> n_rotation_state n = 0 \<longrightarrow> TUMGRD_MIN_SANE_TIME \<le> now"
      "rotation_ok r \<longrightarrow> pass_prepared r force s n f v" for n v f expired
  proof -
    have bv: "in_sync k n v" "table_inv (tbl (db v))" using that by (simp_all add: rec_post_def)
    show ?thesis
      by (rule rsat_conseq [OF apply_node_pass [OF assms(1,2) bv that(2,3)]])
         (use rec_post_trans [OF that(1)] that(4) in auto)
  qed
  have failed: "pass_outcome os k r force s err n [] u"
    if "pass_prepared r force s n f u" "err \<noteq> 0" "\<not> rotating r" for err n f u
    using that by (simp add: pass_outcome_def)
  show ?thesis
    unfolding reconcile_steps_def Let_def now prod.case
    by (intro vcg rsat_conseq [OF check_rotation_pass [OF base rt]] rsat_conseq [OF exp] app)
       (use rec_post_trans [OF pt] failed in auto)
qed

lemma reconcile_one_post:
  assumes "pipe_fds_ok os" "inet_text_ok os" "in_sync k node s" "table_inv (tbl (db s))"
    "lookup (tbl (db s)) k = Some r"
  shows "rsat (tumgrd_reconcile_one bits os cfg node force s) (\<lambda>(err, node') s'. rec_post os k s node' s' \<and>
    (rotation_ok r \<longrightarrow>
      (err \<noteq> 0 \<longrightarrow> rotating r \<longrightarrow> n_rotation_state node' \<noteq> 0 \<and> n_xor_key node' = key_of r) \<and>
      (err = 0 \<longrightarrow> (\<exists>ip. pass_outcome os k r force s 0 node' ip s'))))"
proof -
  have marked: "rec_post os k s node' v"
    if p: "rec_post os k s node' t" and u: "now_unix os t = (ts, u)"
      and v: "mark_runtime os node' ip TUMGRD_STATUS_ERROR ts u = (rc, v)" for node' t ts u ip rc v
  proof -
    have b: "in_sync k node' t" "table_inv (tbl (db t))" using p by (simp_all add: rec_post_def)
    from b(1) obtain q where q: "lookup (tbl (db t)) k = Some q" by (rule in_sync_row)
    from mark_status_post [OF b q row_step.mark_error u v] rec_post_trans [OF p] show ?thesis by blast
  qed
  show ?thesis
    unfolding tumgrd_reconcile_one_def Let_def
    by (intro vcg rsat_conseq [OF reconcile_steps_post [OF assms]])
       (use marked in \<open>auto simp: pass_outcome_def\<close>)
qed

text \<open>A node read from a consistent row is in line with it.\<close>

lemma read_in_sync:
  assumes "row_to_node os r t = (node, t')" "row_wf r" "rotation_ok r" "lookup (tbl (db s)) (pk r) = Some r"
  shows "in_sync (pk r) node s"
  using row_to_node_rotation [OF assms(1-3)] row_to_node_key [OF assms(1,2)] assms(4)
  by (simp add: in_sync_def key_of_def)

section \<open>Every pass returns\<close>

text \<open>
  Everything a pass relies on to return: the deadline works, the sockets have timeouts, and
  reading \<open>/dev/urandom\<close> is not interrupted for ever.
\<close>

definition daemon_live :: "('w \<Rightarrow> nat) \<Rightarrow> ('w \<Rightarrow> bool) \<Rightarrow> 'w os \<Rightarrow> bool" where
  "daemon_live rank dead os \<longleftrightarrow> kernel_live rank dead os \<and> pipe_fds_ok os \<and>
     sockets_live rank os \<and> urandom_eintr_finite rank os"

definition guarded :: "'w sys \<Rightarrow> bool" where
  "guarded s \<longleftrightarrow> watchdog_usable (rt s) \<and> \<not> sigalrm_blocked (rt s)"

lemma guarded_rt: "rt s' = rt s \<Longrightarrow> guarded s' = guarded s"
  by (simp add: guarded_def)

lemma fresh_key_total:
  assumes "daemon_live rank dead os"
  shows "tsat (generate_random_hex_key os out n b s) (\<lambda>_ s'. rt s' = rt s)"
  using generate_key_returns [of rank os out n b s] assms
  by (auto simp: tsat_iff daemon_live_def rsat_def dest: generate_random_hex_key_cases)

lemma detect_total:
  assumes "daemon_live rank dead os"
  shows "tsat (detect_public_ip bits os url v out n s) (\<lambda>_ s'. rt s' = rt s)"
proof -
  have "returns (detect_public_ip bits os url v out n s)"
    using detect_public_ip_returns assms unfolding daemon_live_def returns_def by blast
  then show ?thesis
    by (auto simp: tsat_iff intro!: rsat_conseq [OF detect_public_ip_outcome] dest: only_world_frame)
qed

lemma tool_total:
  assumes "daemon_live rank dead os" "guarded s"
  shows "tsat (tumgrd_runner_server_add os node cfg ip s) (\<lambda>_ s'. guarded s')"
    "tsat (tumgrd_runner_server_del os node s) (\<lambda>_ s'. guarded s')"
    "tsat (tumgrd_runner_client_del os node s) (\<lambda>_ s'. guarded s')"
    "tsat (tumgrd_runner_reset_local_client os node s) (\<lambda>_ s'. guarded s')"
proof -
  from assms have a: "kernel_live rank dead os" "pipe_fds_ok os" "watchdog_usable (rt s)"
    "\<not> sigalrm_blocked (rt s)" by (simp_all add: daemon_live_def guarded_def)
  show "tsat (tumgrd_runner_server_add os node cfg ip s) (\<lambda>_ s'. guarded s')"
    by (rule tsat_conseq [OF server_add.total_post [OF a]]) (simp add: guarded_def)
  show "tsat (tumgrd_runner_server_del os node s) (\<lambda>_ s'. guarded s')"
    by (rule tsat_conseq [OF server_del.total_post [OF a]]) (simp add: guarded_def)
  show "tsat (tumgrd_runner_client_del os node s) (\<lambda>_ s'. guarded s')"
    by (rule tsat_conseq [OF client_del.total_post [OF a]]) (simp add: guarded_def)
  show "tsat (tumgrd_runner_reset_local_client os node s) (\<lambda>_ s'. guarded s')"
    by (rule tsat_conseq [OF reset_client.total_post [OF a]]) (simp add: guarded_def)
qed

text \<open>The operations of the store leave the runner alone.\<close>

lemma store_guarded:
  "tumgrd_db_update_runtime os h p u v ip st ts s = (rc, s') \<Longrightarrow> guarded s' = guarded s"
  "tumgrd_db_update_applied os h p u v ts s = (rc, s') \<Longrightarrow> guarded s' = guarded s"
  "tumgrd_db_begin_rotation os h p u v key rot now s = (rc, s') \<Longrightarrow> guarded s' = guarded s"
  "tumgrd_db_complete_rotation os h p u v ts s = (rc, s') \<Longrightarrow> guarded s' = guarded s"
  "tumgrd_db_update_rotation_state os h p u v rot s = (rc, s') \<Longrightarrow> guarded s' = guarded s"
  "tumgrd_db_replace_rotation os h p u v key now s = (rc, s') \<Longrightarrow> guarded s' = guarded s"
  "tumgrd_db_clear_rotation os h p u v s = (rc, s') \<Longrightarrow> guarded s' = guarded s"
  using update_runtime.runner_untouched update_applied.runner_untouched begin_rotation.runner_untouched
    complete_rotation.runner_untouched update_rotation_state.runner_untouched
    replace_rotation.runner_untouched clear_rotation.runner_untouched
  by (metis guarded_rt)+

lemma now_guarded: "now_unix os s = (t, s') \<Longrightarrow> guarded s' = guarded s"
  using now_unix_frame guarded_rt by blast

lemma restart_rotation_total:
  assumes "daemon_live rank dead os" "guarded s"
  shows "tsat (restart_rotation os cfg node now s) (\<lambda>_ s'. guarded s')"
  unfolding restart_rotation_def Let_def
  by (intro tvcg tsat_conseq [OF fresh_key_total [OF assms(1)]])
     (use assms(2) guarded_rt in \<open>auto dest!: store_guarded\<close>)

lemma check_rotation_total:
  assumes "daemon_live rank dead os" "guarded s"
  shows "tsat (check_rotation os cfg node now s) (\<lambda>_ s'. guarded s')"
  unfolding check_rotation_def
  by (intro tvcg tsat_conseq [OF restart_rotation_total [OF assms(1)]]) (use assms(2) in auto)

lemma check_expiry_total:
  assumes "daemon_live rank dead os" "guarded s"
  shows "tsat (check_expiry os cfg node force now s) (\<lambda>_ s'. guarded s')"
  unfolding check_expiry_def Let_def
  by (intro tvcg tsat_conseq [OF fresh_key_total [OF assms(1)]])
     (use assms(2) guarded_rt in \<open>auto dest!: store_guarded\<close>)

lemma confirm_remote_guarded: "confirm_remote os node s = (r, s') \<Longrightarrow> guarded s' = guarded s"
  by (auto simp: confirm_remote_def split: if_splits prod.splits dest: store_guarded)

lemma record_applied_guarded:
  "record_applied os node expired b now s = (r, s') \<Longrightarrow> guarded s' = guarded s"
  by (auto simp: record_applied_def Let_def split: if_splits prod.splits dest: store_guarded)

lemma mark_runtime_guarded: "mark_runtime os node ip st ts s = (rc, s') \<Longrightarrow> guarded s' = guarded s"
  unfolding mark_runtime_def by (rule store_guarded)

lemma tsat_Some: "(\<And>a s. m = (a, s) \<Longrightarrow> Q a s) \<Longrightarrow> tsat (Some m) Q"
  by (cases m) (simp add: tsat_def)

lemma apply_local_total:
  assumes "daemon_live rank dead os" "guarded s"
  shows "tsat (apply_local os node ip expired now s) (\<lambda>_ s'. guarded s')"
  unfolding apply_local_def Let_def
  by (intro tvcg tsat_Some tsat_conseq [OF tool_total(4) [OF assms(1)]])
     (use assms(2) in \<open>auto dest!: confirm_remote_guarded now_guarded mark_runtime_guarded record_applied_guarded\<close>)

lemma apply_node_total:
  assumes "daemon_live rank dead os" "guarded s"
  shows "tsat (apply_node bits os cfg node force expired now s) (\<lambda>_ s'. guarded s')"
  unfolding apply_node_def Let_def
  by (intro tvcg tsat_conseq [OF detect_total [OF assms(1)]] tsat_conseq [OF tool_total(1) [OF assms(1)]]
      tsat_conseq [OF apply_local_total [OF assms(1)]])
     (use assms(2) guarded_rt in auto)

lemma reconcile_one_total:
  assumes "daemon_live rank dead os" "guarded s"
  shows "tsat (tumgrd_reconcile_one bits os cfg node force s) (\<lambda>_ s'. guarded s')"
  unfolding tumgrd_reconcile_one_def reconcile_steps_def Let_def
  by (intro tvcg tsat_conseq [OF check_rotation_total [OF assms(1)]]
      tsat_conseq [OF check_expiry_total [OF assms(1)]] tsat_conseq [OF apply_node_total [OF assms(1)]])
     (use assms(2) in \<open>auto dest!: now_guarded mark_runtime_guarded\<close>)

lemma reconcile_nodes_total:
  assumes "daemon_live rank dead os" "guarded s"
  shows "tsat (reconcile_nodes bits os cfg force nodes failed s) (\<lambda>_ s'. guarded s')"
  using assms(2)
proof (induction nodes arbitrary: failed s)
  case Nil
  then show ?case by (simp add: tsat_def)
next
  case (Cons node nodes)
  show ?case
    unfolding reconcile_nodes.simps
    by (intro tvcg tsat_conseq [OF reconcile_one_total [OF assms(1) Cons.prems]] Cons.IH) auto
qed

lemma reconcile_all_total:
  assumes "daemon_live rank dead os" "guarded s"
  shows "tsat (tumgrd_reconcile_all bits os cfg force s) (\<lambda>_ s'. guarded s')"
proof -
  obtain rc nodes t where l: "tumgrd_db_list_nodes os s = ((rc, nodes), t)" by (metis surj_pair)
  have "guarded t" using list_nodes_outcome [OF l] assms(2) guarded_rt by blast
  then show ?thesis
    unfolding tumgrd_reconcile_all_def l Let_def prod.case
    by (intro tvcg tsat_conseq [OF reconcile_nodes_total [OF assms(1)]]) auto
qed

section \<open>A run over all nodes\<close>

text \<open>The row of a settled node.\<close>

definition at_rest :: "'w sys \<Rightarrow> node_key \<Rightarrow> bool" where
  "at_rest s k \<longleftrightarrow> (\<exists>r. lookup (tbl (db s)) k = Some r \<and> c_status r = Some TUMGRD_STATUS_ACTIVE \<and>
     c_rotation_state r = Some TUMGRD_ROTATION_NONE)"

definition nodes_in_sync :: "tumgrd_node list \<Rightarrow> 'w sys \<Rightarrow> bool" where
  "nodes_in_sync ns s \<longleftrightarrow> distinct (map node_key ns) \<and> list_all (\<lambda>n. in_sync (node_key n) n s) ns"

lemma proto_steps_other:
  "proto_steps os k s s' \<Longrightarrow> k' \<noteq> k \<Longrightarrow> lookup (tbl (db s')) k' = lookup (tbl (db s)) k'"
  using proto_steps_keep by blast

lemma in_sync_other:
  assumes "proto_steps os k s s'" "in_sync k' n s" "k' \<noteq> k"
  shows "in_sync k' n s'"
  using assms(2) proto_steps_other [OF assms(1,3)] by (simp add: in_sync_def)

lemma nodes_in_sync_step:
  assumes "nodes_in_sync (n # ns) s" "proto_steps os (node_key n) s s'"
  shows "nodes_in_sync ns s'"
proof -
  have "in_sync (node_key m) m s'" if m: "m \<in> set ns" for m
  proof (rule in_sync_other [OF assms(2)])
    show "in_sync (node_key m) m s" using assms(1) m by (simp add: nodes_in_sync_def list_all_iff)
    have "node_key m \<in> node_key ` set ns" using m by (rule imageI)
    then show "node_key m \<noteq> node_key n" using assms(1) unfolding nodes_in_sync_def by force
  qed
  with assms(1) show ?thesis by (simp add: nodes_in_sync_def list_all_iff)
qed

lemma at_rest_other: "proto_steps os k s s' \<Longrightarrow> at_rest s k' \<Longrightarrow> k' \<noteq> k \<Longrightarrow> at_rest s' k'"
  using proto_steps_other [of os k s s' k'] by (simp add: at_rest_def)

lemma settled_at_rest: "settled_row k key ip s r \<Longrightarrow> at_rest s k"
  by (simp add: settled_row_def at_rest_def rotation_states)

lemma rotation_ok_sync: 
  assumes "db_ok (tbl (db s))" "in_sync k n s"
  obtains r where "lookup (tbl (db s)) k = Some r" "rotation_ok r"
  using assms lookup_SomeD unfolding in_sync_def db_ok_def by blast

lemma reconcile_nodes_post:
  assumes "pipe_fds_ok os" "inet_text_ok os" "nodes_in_sync ns s" "db_ok (tbl (db s))"
  shows "rsat (reconcile_nodes bits os cfg force ns failed s) (\<lambda>failed' s'. sweep os s s' \<and> failed \<le> failed' \<and>
     (\<forall>k. k \<notin> node_key ` set ns \<longrightarrow> lookup (tbl (db s')) k = lookup (tbl (db s)) k) \<and>
     (force \<and> failed' = failed \<longrightarrow> (\<forall>k \<in> node_key ` set ns. at_rest s' k)))"
  using assms(3,4)
proof (induction ns arbitrary: failed s)
  case Nil
  then show ?case by (simp add: rsat_def)
next
  case (Cons n ns)
  let ?k = "node_key n"
  have sync: "in_sync ?k n s" and other: "node_key n \<notin> node_key ` set ns"
    using Cons.prems(1) by (simp_all add: nodes_in_sync_def)
  obtain r where r: "lookup (tbl (db s)) ?k = Some r" "rotation_ok r"
    using rotation_ok_sync [OF Cons.prems(2) sync] .
  have tinv: "table_inv (tbl (db s))" using Cons.prems(2) by (simp add: db_ok_def)
  have one: "rsat (tumgrd_reconcile_one bits os cfg n force s) (\<lambda>(err, n') t. proto_steps os ?k s t \<and>
      (err = 0 \<and> force \<longrightarrow> at_rest t ?k))"
    by (rule rsat_conseq [OF reconcile_one_post [OF assms(1,2) sync tinv r(1)]])
       (use r(2) in \<open>auto simp: rec_post_def pass_outcome_def intro: settled_at_rest\<close>)
  have rest: "rsat (reconcile_nodes bits os cfg force ns f t) (\<lambda>f' s'. sweep os s s' \<and> f \<le> f' \<and>
      (\<forall>k. k \<notin> node_key ` set (n # ns) \<longrightarrow> lookup (tbl (db s')) k = lookup (tbl (db s)) k) \<and>
      (at_rest t ?k \<longrightarrow> at_rest s' ?k) \<and>
      (force \<and> f' = f \<longrightarrow> (\<forall>k \<in> node_key ` set ns. at_rest s' k)))"
    if t: "proto_steps os ?k s t" for t f
  proof (rule rsat_conseq [OF Cons.IH [OF nodes_in_sync_step [OF Cons.prems(1) t] proto_steps_db_ok [OF t Cons.prems(2)]]])
    fix f' s'
    assume a: "sweep os t s' \<and> f \<le> f' \<and>
      (\<forall>k. k \<notin> node_key ` set ns \<longrightarrow> lookup (tbl (db s')) k = lookup (tbl (db t)) k) \<and>
      (force \<and> f' = f \<longrightarrow> (\<forall>k \<in> node_key ` set ns. at_rest s' k))"
    have "sweep os s s'" using a sweep_proto [OF t] by (meson rtranclp_trans)
    moreover have "lookup (tbl (db s')) ?k = lookup (tbl (db t)) ?k" using a other by blast
    moreover have "lookup (tbl (db s')) k = lookup (tbl (db s)) k" if "k \<notin> node_key ` set (n # ns)" for k
      using a proto_steps_other [OF t, of k] that by (simp del: split_paired_All)
    ultimately show "sweep os s s' \<and> f \<le> f' \<and>
      (\<forall>k. k \<notin> node_key ` set (n # ns) \<longrightarrow> lookup (tbl (db s')) k = lookup (tbl (db s)) k) \<and>
      (at_rest t ?k \<longrightarrow> at_rest s' ?k) \<and>
      (force \<and> f' = f \<longrightarrow> (\<forall>k \<in> node_key ` set ns. at_rest s' k))"
      using a by (simp add: at_rest_def)
  qed
  show ?case
    unfolding reconcile_nodes.simps
    by (intro vcg rsat_conseq [OF one] rsat_conseq [OF rest]) (auto split: if_splits)
qed

lemma list_nodes_in_sync:
  assumes "scan_complete os" "tumgrd_db_list_nodes os s = ((rc, ns), t)" "db_ok (tbl (db s))"
  shows "db t = db s \<and> rt t = rt s \<and> nodes_in_sync ns t \<and>
    (rc = 0 \<longrightarrow> node_key ` set ns = set (map pk (tbl (db s)))) \<and> (rc \<noteq> 0 \<longrightarrow> rc < 0)"
proof -
  have frame: "db t = db s" "rt t = rt s" using list_nodes_outcome [OF assms(2)] by simp_all
  from list_nodes_outcome [OF assms(2)] assms(1) consider (bad) "rc = - 1" "ns = []"
    | (good) rows where "rc = 0" "mset rows = mset (tbl (db s))"
      "list_all2 (\<lambda>q m. \<exists>s s'. row_to_node os q s = (m, s')) (order_rows rows) ns" by blast
  then show ?thesis
  proof cases
    case bad
    with frame show ?thesis by (simp add: nodes_in_sync_def)
  next
    case good
    have eq: "mset (order_rows rows) = mset (tbl (db s))" using good(2) by (simp add: order_rows_def)
    have wf: "row_wf q \<and> rotation_ok q \<and> lookup (tbl (db s)) (pk q) = Some q" if "q \<in> set (order_rows rows)" for q
      using that mset_eq_setD [OF eq] assms(3) by (auto simp: db_ok_def table_inv_def intro: lookup_mem)
    have sync: "list_all2 (\<lambda>q m. node_key m = pk q \<and> in_sync (pk q) m t) (order_rows rows) ns"
    proof (rule list.rel_mono_strong [OF good(3)])
      fix q m assume q: "q \<in> set (order_rows rows)" and "\<exists>u u'. row_to_node os q u = (m, u')"
      then obtain u u' where u: "row_to_node os q u = (m, u')" by blast
      have "lookup (tbl (db t)) (pk q) = Some q" using wf [OF q] frame by simp
      with read_in_sync [OF u] row_to_node_key [OF u] wf [OF q] show "node_key m = pk q \<and> in_sync (pk q) m t" by blast
    qed
    then have keys: "map node_key ns = map pk (order_rows rows)"
      by (induction rule: list_all2_induct) simp_all
    have "distinct (map pk (order_rows rows))"
      using eq assms(3) unfolding db_ok_def table_inv_def
      by (metis mset_eq_imp_distinct_iff mset_map)
    moreover have "list_all (\<lambda>n. in_sync (node_key n) n t) ns"
      using sync by (induction rule: list_all2_induct) simp_all
    moreover have "node_key ` set ns = set (map pk (tbl (db s)))"
      using keys mset_eq_setD [OF eq] by (metis image_set)
    ultimately show ?thesis using frame good(1) keys by (simp add: nodes_in_sync_def)
  qed
qed

lemma reconcile_all_post:
  assumes "pipe_fds_ok os" "inet_text_ok os" "scan_complete os" "db_ok (tbl (db s))"
  shows "rsat (tumgrd_reconcile_all bits os cfg force s) (\<lambda>rc s'. sweep os s s' \<and>
    (force \<and> rc = 0 \<longrightarrow> (\<forall>r \<in> set (tbl (db s)). at_rest s' (pk r))))"
proof -
  obtain rc ns t where l: "tumgrd_db_list_nodes os s = ((rc, ns), t)" by (metis surj_pair)
  note ln = list_nodes_in_sync [OF assms(3) l assms(4)]
  have "proto_step os k s t" for k using ln by (intro proto_step.outside) simp_all
  then have st: "sweep os s t" by (auto simp: sweep_step_def)
  have ok: "db_ok (tbl (db t))" using ln assms(4) by simp
  have all: "\<forall>r \<in> set (tbl (db s)). at_rest u (pk r)"
    if "rc = 0" "\<forall>k \<in> node_key ` set ns. at_rest u k" for u :: "'w sys"
    using ln that by (metis image_eqI image_set)
  have nodes: "rsat (reconcile_nodes bits os cfg force ns 0 t) (\<lambda>f s'. sweep os s s' \<and>
      (rc = 0 \<and> force \<and> f = 0 \<longrightarrow> (\<forall>r \<in> set (tbl (db s)). at_rest s' (pk r))))"
    by (rule rsat_conseq [OF reconcile_nodes_post [OF assms(1,2) _ ok]])
       (use ln rtranclp_trans [OF st] all in blast)+
  show ?thesis
    unfolding tumgrd_reconcile_all_def l Let_def prod.case
    by (intro vcg rsat_conseq [OF nodes]) (use ln st in auto)
qed

lemma at_rest_all:
  assumes "sweep os s s'" "db_ok (tbl (db s))" "\<forall>r \<in> set (tbl (db s)). at_rest s' (pk r)"
  shows "list_all (\<lambda>r. c_status r = Some TUMGRD_STATUS_ACTIVE \<and> c_rotation_state r = Some TUMGRD_ROTATION_NONE)
    (tbl (db s'))"
proof -
  have k: "db_ok (tbl (db s'))" "set (map pk (tbl (db s'))) = set (map pk (tbl (db s)))"
    using sweep_keeps [OF assms(1,2)] by simp_all
  have "c_status r = Some TUMGRD_STATUS_ACTIVE \<and> c_rotation_state r = Some TUMGRD_ROTATION_NONE"
    if r: "r \<in> set (tbl (db s'))" for r
  proof -
    have "pk r \<in> set (map pk (tbl (db s)))" using k(2) r by (metis image_eqI image_set)
    then have "at_rest s' (pk r)" using assms(3) by auto
    moreover have "lookup (tbl (db s')) (pk r) = Some r"
      using k(1) r by (auto simp: db_ok_def table_inv_def intro: lookup_mem)
    ultimately show ?thesis by (simp add: at_rest_def)
  qed
  then show ?thesis by (simp add: list_all_iff)
qed

section \<open>Properties of the reconciler\<close>

text \<open>
  C1: A pass over a node, whatever its rotation columns look like and whether it succeeds or
  fails, is a sequence of steps of the rotation protocol: tools are called only with the key
  that the database holds, and the row is only written in the states in which the protocol
  allows it. The node in memory stays in line with its row.
\<close>

theorem reconcile_refines_protocol:
  assumes "tumgrd_reconcile_one bits os cfg node force s = Some ((err, node'), s')"
    and "pipe_fds_ok os" "inet_text_ok os"
    and "in_sync k node s" "table_inv (tbl (db s))"
  shows "proto_steps os k s s' \<and> in_sync k node' s'"
proof -
  from assms(4) obtain r where r: "lookup (tbl (db s)) k = Some r" by (rule in_sync_row)
  from rsatD [OF reconcile_one_post [OF assms(2-5) r] assms(1)] show ?thesis by (simp add: rec_post_def)
qed


text \<open>
  C3: A pass that fails never loses a rotation: the row still carries the key that the
  rotation introduced, as current and as pending key, and a state from which the next pass
  resumes.
\<close>

theorem reconcile_failure_keeps_rotation:
  assumes "tumgrd_reconcile_one bits os cfg node force s = Some ((err, node'), s')" "err \<noteq> 0"
    and "pipe_fds_ok os" "inet_text_ok os" "in_sync k node s" "db_ok (tbl (db s))"
    and "lookup (tbl (db s)) k = Some r" "rotating r"
  shows "\<exists>r'. lookup (tbl (db s')) k = Some r' \<and>
    (c_rotation_state r' = Some TUMGRD_ROTATION_PENDING_REMOTE \<or>
     c_rotation_state r' = Some TUMGRD_ROTATION_PENDING_LOCAL_RECOVERY) \<and>
    key_of r' = key_of r \<and> the_default [] (c_xor_key_pending r') = key_of r"
proof -
  have ti: "table_inv (tbl (db s))" and ok: "rotation_ok r"
    using assms(6) lookup_SomeD [OF assms(7)] by (auto simp: db_ok_def)
  have post: "rec_post os k s node' s'" "n_rotation_state node' \<noteq> 0" "n_xor_key node' = key_of r"
    using rsatD [OF reconcile_one_post [OF assms(3-5) ti assms(7)] assms(1)] assms(2,8) ok by simp_all
  then have "in_sync k node' s'" "db_ok (tbl (db s'))"
    using proto_steps_db_ok [OF _ assms(6)] unfolding rec_post_def by blast+
  then obtain r' where r': "lookup (tbl (db s')) k = Some r'" "carries k r' node'"
    "c_rotation_state r' = Some (n_rotation_state node')" "rotation_ok r'"
    using in_sync_row lookup_SomeD unfolding db_ok_def by metis
  with post show ?thesis
    by (auto simp: rotation_ok_def carries_def key_of_def rotation_states the_default_def)
qed

text \<open>
  C4: Every child that a pass starts was started while the database held the row of the node,
  as one of the three calls for that node and with the key of that row: a crash at any
  moment leaves no end of the tunnel with a key that is not stored.
\<close>

theorem reconcile_starts_tools_with_stored_key:
  assumes "tumgrd_reconcile_one bits os cfg node force s = Some (r, s')"
    and "pipe_fds_ok os" "inet_text_ok os" "in_sync k node s" "table_inv (tbl (db s))"
  shows "\<exists>es. spawns (rt s') = es @ spawns (rt s) \<and>
    list_all (\<lambda>e. \<exists>r. lookup (sp_db e) k = Some r \<and> tool_allowed os k r (sp_argv e) (sp_stdin e)) es"
proof -
  obtain err node' where r: "r = (err, node')" by (cases r)
  from assms(4) obtain q where q: "lookup (tbl (db s)) k = Some q" by (rule in_sync_row)
  have "proto_steps os k s s'"
    using rsatD [OF reconcile_one_post [OF assms(2-5) q] assms(1)] by (simp add: r rec_post_def)
  from proto_steps_starts [OF this] show ?thesis unfolding starts_allowed_def .
qed

text \<open>
  C15: The time of the last application that a pass leaves in the row is the old one, 0 or a
  time after 2020: an unreliable clock never counts as an application.
\<close>

theorem reconcile_records_sane_times:
  assumes "tumgrd_reconcile_one bits os cfg node force s = Some (a, s')"
    and "pipe_fds_ok os" "inet_text_ok os" "in_sync k node s" "table_inv (tbl (db s))"
    and "lookup (tbl (db s)) k = Some r"
  shows "\<exists>r'. lookup (tbl (db s')) k = Some r' \<and>
    (c_last_applied_at r' = c_last_applied_at r \<or> c_last_applied_at r' = Some 0 \<or>
     (\<exists>t. c_last_applied_at r' = Some t \<and> TUMGRD_MIN_SANE_TIME \<le> t))"
proof -
  obtain err node' where a: "a = (err, node')" by (cases a)
  have "proto_steps os k s s'"
    using rsatD [OF reconcile_one_post [OF assms(2-6)] assms(1)] by (simp add: a rec_post_def)
  from proto_steps_time [OF this assms(6)] show ?thesis unfolding time_trusted_def .
qed

text \<open>
  C13: A run over all nodes keeps the database consistent, adds, removes and moves no row,
  leaves the watchdog as it was and leaks no file descriptor.
\<close>

theorem reconcile_all_keeps_invariants:
  assumes "tumgrd_reconcile_all bits os cfg force s = Some (rc, s')"
    and "pipe_fds_ok os" "inet_text_ok os" "scan_complete os" "db_ok (tbl (db s))"
  shows "db_ok (tbl (db s')) \<and> map pk (tbl (db s')) = map pk (tbl (db s)) \<and>
    watchdog_usable (rt s') = watchdog_usable (rt s) \<and> mset (open_fds (rt s')) = mset (open_fds (rt s))"
  using sweep_keeps [OF conjunct1 [OF rsatD [OF reconcile_all_post [OF assms(2-5)] assms(1)]] assms(5)] by simp

text \<open>
  C12: If a forced run over all nodes returns 0, every node of the database is active and no
  rotation is left in progress.
\<close>

theorem forced_reconcile_settles_all:
  assumes "tumgrd_reconcile_all bits os cfg True s = Some (0, s')"
    and "pipe_fds_ok os" "inet_text_ok os" "scan_complete os" "db_ok (tbl (db s))"
  shows "list_all (\<lambda>r. c_status r = Some TUMGRD_STATUS_ACTIVE \<and>
    c_rotation_state r = Some TUMGRD_ROTATION_NONE) (tbl (db s'))"
  using rsatD [OF reconcile_all_post [OF assms(2-5)] assms(1)] at_rest_all [of os s] assms(5) by blast

text \<open>
  C14: As long as \<open>posix_spawn\<close> returns, the deadline of the watchdog works, the sockets have their
  timeouts and \<open>/dev/urandom\<close> is not interrupted for ever, a run over all nodes returns, even if every
  external tool, once started, and every server hangs.
\<close>

theorem reconcile_all_returns:
  assumes "daemon_live rank dead os" "watchdog_usable (rt s)" "\<not> sigalrm_blocked (rt s)"
  shows "\<exists>rc s'. tumgrd_reconcile_all bits os cfg force s = Some (rc, s')"
  using reconcile_all_total [OF assms(1), of s bits cfg force] assms(2,3) by (auto simp: tsat_def guarded_def)

section \<open>A pass in the concrete world\<close>

definition demo_idle :: "nat sys \<Rightarrow> bool" where
  "demo_idle s \<longleftrightarrow> watchdog_usable (rt s) \<and> alarm_in (rt s) = None \<and> \<not> sigalrm_blocked (rt s) \<and>
     \<not> sigalrm_pending (rt s) \<and> even (world s)"

lemma demo_drain_n:
  "alarm_in (rt s) = Some 90 \<Longrightarrow> even (world s) \<Longrightarrow> n = 1024 \<or> n = 2048 \<Longrightarrow> drain demo_os fd n s =
     Some ((0, ''server updated: server deleted:''), s\<lparr>world := Suc (Suc (world s))\<rparr>)"
  by (auto simp: drain_def read_all_fd_def read_all_loop.simps [of demo_os] interruptible_def)

lemma demo_feed_all:
  assumes "alarm_in (rt s) = Some 90" "\<not> watchdog_timed_out (rt s)"
  shows "feed_stdin demo_os fd inp s = Some ((), child_got inp s)"
proof -
  have w: "ext (os_write demo_os fd inp) s = (Ret (length inp), s)" by (simp add: ext_def demo_os_def)
  show ?thesis
    using assms w by (cases inp) (simp_all add: feed_stdin.simps [of demo_os] interruptible_def)
qed

lemma child_got_fields:
  "db (child_got b s) = db s" "world (child_got b s) = world s"
  "alarm_in (rt (child_got b s)) = alarm_in (rt s)" "watchdog_timed_out (rt (child_got b s)) = watchdog_timed_out (rt s)"
  "watchdog_usable (rt (child_got b s)) = watchdog_usable (rt s)"
  "sigalrm_blocked (rt (child_got b s)) = sigalrm_blocked (rt s)"
  "sigalrm_pending (rt (child_got b s)) = sigalrm_pending (rt s)"
  by (simp_all add: child_got_def)

lemma demo_exec_run:
  assumes "demo_idle s" "n = 1024 \<or> n = 2048"
  shows "\<exists>s'. exec_with_stdio demo_os (a # argv) inp False 0 n n s =
      Some ((0, ''server updated: server deleted:'', ''server updated: server deleted:''), s') \<and>
    demo_idle s' \<and> db s' = db s \<and> \<not> watchdog_timed_out (rt s')"
proof -
  from assms(1) have i: "watchdog_usable (rt s)" "alarm_in (rt s) = None" "\<not> sigalrm_blocked (rt s)"
    "\<not> sigalrm_pending (rt s)" "even (world s)" by (simp_all add: demo_idle_def)
  let ?s = "s\<lparr>rt := (rt s)\<lparr>alarm_in := Some 90, watchdog_timed_out := False\<rparr>\<rparr>"
  have arm: "watchdog_arm demo_os s = ?s"
    using i by (simp add: watchdog_arm_def watchdog_mask_signal_def alarm_def
      watchdog_discard_pending_def restore_mask_def TUMGRD_SUBPROC_TIMEOUT_S_def)
  show ?thesis
    using i assms(2)
    by (simp add: exec_with_stdio_def arm exec_body_def demo_open_pipes demo_attr build_envp_def
        posix_spawnp_def exec_child_def demo_feed_all demo_drain_n demo_wait close_fd_def Let_def
        child_got_fields del: spawn_attr_calls.simps)
       (simp add: demo_idle_def watchdog_disarm_def watchdog_mask_signal_def alarm_def
        watchdog_discard_pending_def restore_mask_def close_pipes_def close_if_open_def child_got_fields)
qed

definition demo_config :: tumgrd_config where
  "demo_config = \<lparr>cfg_db_path = TUMGRD_DB_PATH, cfg_socket_path = None, cfg_log_level = ''info'',
     cfg_interval_sec = 60, cfg_enable_xor = True, cfg_use_client_ip = False, cfg_fwmark = 2,
     cfg_default_lifetime = 3600\<rparr>"

text \<open>An IPv6 node in the middle of a rotation, with its row.\<close>

definition demo_row6 :: row where "demo_row6 = demo_rotating\<lparr>c_ip_version := ''ipv6''\<rparr>"

definition demo_node6 :: tumgrd_node where
  "demo_node6 = demo_node\<lparr>n_ip_version := ''ipv6'', n_rotation_state := 1, n_xor_key_pending := ''00ff'',
     n_client_comment := ''home'', n_current_ip := ''203.0.113.7'', n_last_updated := 1690000000,
     n_status := ''active'', n_last_applied_at := 1690000000\<rparr>"

lemmas demo_data6 = demo_node6_def demo_node_def zero_node_def demo_row6_def demo_rotating_def demo_row_def

lemma demo_row6: "pk demo_row6 = (''vpn.example'', 4433, ''alice'', ''ipv6'')" "rotation_ok demo_row6"
  "rotating demo_row6" "key_of demo_row6 = ''00ff''" "db_ok [demo_row6]"
  by (simp_all add: demo_data6 pk_def rotation_ok_def rotating_def key_of_def the_default_def db_ok_def
      table_inv_def row_wf_def)

lemma demo_sync6: "in_sync (pk demo_row6) demo_node6 (demo_sys [demo_row6])"
  "lookup (tbl (db (demo_sys [demo_row6]))) (pk demo_row6) = Some demo_row6"
  "table_inv (tbl (db (demo_sys [demo_row6])))"
  by (simp_all add: in_sync_def node_key_def demo_data6 demo_sys_def pk_def key_of_def the_default_def table_inv_def)

lemma demo_detect6: "detect_public_ip 64 demo_os (Some TUMGRD_DEFAULT_IP_CHECK_URL) (Some ''ipv6'') [] 64 s =
  Some ((0, ''2001:db8::7''), s)"
proof -
  have "parse_url_host_path 64 (Some TUMGRD_DEFAULT_IP_CHECK_URL) 128 256 = Some (''ip.3322.net'', 80, ''/'')"
    by code_simp
  then show ?thesis
    by (simp add: detect_public_ip_def ip_family_from_version_def strcasecmp_eq_def tolower_def isupper_def
        detect_ipv6_wan_by_connect_def open_socket_def connect_nonblock_def Let_def TUMGRD_DEFAULT_IP_CHECK_URL_def
        TUMGRD_DEFAULT_IP_CHECK_HOST_def)
qed

lemma demo_tool_runs:
  assumes "demo_idle s"
  shows "\<exists>s'. run_ktuctl demo_os (a # argv) s = Some (0, s') \<and> demo_idle s' \<and> db s' = db s \<and>
      \<not> watchdog_timed_out (rt s')"
    and "n_has_memlimit node = False \<Longrightarrow> n_memlimit node = 0 \<Longrightarrow>
      \<exists>s'. run_tuctl_script demo_os node script ''server updated:'' s = Some (0, s') \<and> demo_idle s' \<and>
      db s' = db s"
proof -
  show "\<exists>s'. run_ktuctl demo_os (a # argv) s = Some (0, s') \<and> demo_idle s' \<and> db s' = db s \<and>
      \<not> watchdog_timed_out (rt s')"
    using demo_exec_run [OF assms, of 1024 a argv None] by (auto simp: run_ktuctl_def)
  assume m: "n_has_memlimit node = False" "n_memlimit node = 0"
  obtain a argv where v: "tuctl_argv node = a # argv" by (simp add: tuctl_argv_def)
  obtain t where t: "exec_with_stdio demo_os (tuctl_argv node) (Some script) False 0 2048 2048 s =
      Some ((0, ''server updated: server deleted:'', ''server updated: server deleted:''), t)"
      "demo_idle t" "db t = db s"
    using demo_exec_run [OF assms, of 2048 a argv "Some script"] v by auto
  have o: "trim_inplace (cstr_of ''server updated: server deleted:'') = ''server updated: server deleted:''"
    "strstr ''server updated: server deleted:'' ''server updated:'' = Some ''server updated: server deleted:''"
    by code_simp+
  have "run_tuctl_script demo_os node script ''server updated:'' s = Some (0, t)"
    unfolding run_tuctl_script_def m t(1) bind.simps prod.case Let_def o by simp
  with t show "\<exists>s'. run_tuctl_script demo_os node script ''server updated:'' s = Some (0, s') \<and> demo_idle s' \<and>
      db s' = db s" by blast
qed

lemma demo_server_add:
  assumes "demo_idle s"
  shows "\<exists>s'. tumgrd_runner_server_add demo_os demo_node6 (Some demo_config) (Some ''2001:db8::7'') s = Some (0, s') \<and>
    demo_idle s' \<and> db s' = db s"
  using demo_tool_runs(2) [OF assms, of demo_node6 "server_add_script demo_node6 ''2001:db8::7''"]
  by (auto simp: tumgrd_runner_server_add_def server_add_detected_def demo_config_def demo_data6)

lemma demo_reset:
  assumes "demo_idle s"
  shows "\<exists>s'. tumgrd_runner_reset_local_client demo_os node s = Some (0, s') \<and> demo_idle s' \<and> db s' = db s"
proof -
  obtain a argv where "client_del_argv node = a # argv" by (simp add: client_del_argv_def)
  then obtain t where t: "tumgrd_runner_client_del demo_os node s = Some (0, t)" "demo_idle t" "db t = db s"
    "\<not> watchdog_timed_out (rt t)"
    using demo_tool_runs(1) [OF assms, of a argv] by (auto simp: tumgrd_runner_client_del_def)
  obtain a argv where "client_add_argv node = a # argv" by (simp add: client_add_argv_def)
  then obtain u where u: "tumgrd_runner_client_add demo_os node t = Some (0, u)" "demo_idle u" "db u = db t"
    using demo_tool_runs(1) [OF t(2), of a argv] by (auto simp: tumgrd_runner_client_add_def)
  show ?thesis using t u by (auto simp: tumgrd_runner_reset_local_client_def)
qed

lemma demo_local:
  assumes "demo_idle s" "tbl (db s) = [demo_row6]" "db_conn (db s)"
  shows "\<exists>n s'. apply_local demo_os demo_node6 ''2001:db8::7'' True 1700000000 s = Some ((0, n), s')"
proof -
  let ?n = "demo_node6\<lparr>n_rotation_state := TUMGRD_ROTATION_PENDING_LOCAL_RECOVERY\<rparr>"
  have "\<exists>t. confirm_remote demo_os demo_node6 s = ((0, ?n), t) \<and> db_conn (db t) \<and> rt t = rt s \<and>
      world t = world s \<and> tbl (db t) = [move_rotation 2 demo_row6]"
    using assms(2,3)
    by (simp add: confirm_remote_def tumgrd_db_update_rotation_state_def demo_run_statement
        sql_update_rotation_state_def sql_update_def numeral_nat pk_def demo_data6 rotation_states move_rotation_def)
  then obtain t where t: "confirm_remote demo_os demo_node6 s = ((0, ?n), t)" "db_conn (db t)" "rt t = rt s"
      "world t = world s" "tbl (db t) = [move_rotation 2 demo_row6]" by blast
  have "demo_idle t" using assms(1) t by (simp add: demo_idle_def)
  then obtain u where u: "tumgrd_runner_reset_local_client demo_os ?n t = Some (0, u)" "db u = db t"
    using demo_reset by blast
  have "\<exists>v. mark_runtime demo_os ?n ''2001:db8::7'' TUMGRD_STATUS_ACTIVE 1700000000 u = (0, v) \<and> db_conn (db v) \<and>
      tbl (db v) = [set_runtime (Some ''2001:db8::7'') ''active'' 1700000000 (move_rotation 2 demo_row6)]"
    using t u
    by (simp add: mark_runtime_def tumgrd_db_update_runtime_def demo_run_statement sql_update_runtime_def
        sql_update_def numeral_nat pk_def demo_data6 move_rotation_def set_runtime_def TUMGRD_STATUS_ACTIVE_def)
  then obtain v where v: "mark_runtime demo_os ?n ''2001:db8::7'' TUMGRD_STATUS_ACTIVE 1700000000 u = (0, v)"
      "db_conn (db v)"
      "tbl (db v) = [set_runtime (Some ''2001:db8::7'') ''active'' 1700000000 (move_rotation 2 demo_row6)]" by blast
  have "\<exists>n w. record_applied demo_os ?n True True 1700000000 v = ((0, n), w)"
    using v
    by (simp add: record_applied_def tumgrd_db_complete_rotation_def demo_run_statement sql_complete_rotation_def
        sql_update_def numeral_nat pk_def demo_data6 rotation_states move_rotation_def set_runtime_def
        TUMGRD_MIN_SANE_TIME_def)
  then show ?thesis using t u v by (auto simp: apply_local_def)
qed

lemma demo_pass:
  obtains n s' where "tumgrd_reconcile_one 64 demo_os demo_config demo_node6 True (demo_sys [demo_row6]) = Some ((0, n), s')"
proof -
  let ?s = "demo_sys [demo_row6]"
  have "demo_idle ?s" by (simp add: demo_idle_def demo_sys_def)
  then obtain t where t: "tumgrd_runner_server_add demo_os demo_node6 (Some demo_config) (Some ''2001:db8::7'') ?s = Some (0, t)"
    "demo_idle t" "db t = db ?s" using demo_server_add by blast
  have "tbl (db t) = [demo_row6]" "db_conn (db t)" using t(3) by (simp_all add: demo_sys_def)
  then obtain n u where u: "apply_local demo_os demo_node6 ''2001:db8::7'' True 1700000000 t = Some ((0, n), u)"
    using demo_local [OF t(2)] by blast
  have "pick_ip_check_url demo_node6 = TUMGRD_DEFAULT_IP_CHECK_URL" "n_ip_version demo_node6 = ''ipv6''"
    by (simp_all add: pick_ip_check_url_def demo_data6)
  then have "apply_node 64 demo_os demo_config demo_node6 True True 1700000000 ?s = Some ((0, n, ''2001:db8::7''), u)"
    using t(1) u by (simp add: apply_node_def demo_detect6 Let_def)
  moreover have "check_rotation demo_os demo_config demo_node6 1700000000 ?s = Some ((0, demo_node6), ?s)"
    by (simp add: check_rotation_def demo_data6 rotation_states)
  moreover have "check_expiry demo_os demo_config demo_node6 True 1700000000 ?s = Some ((0, demo_node6, True, True), ?s)"
    by (simp add: check_expiry_def demo_data6 rotation_states)
  ultimately have "tumgrd_reconcile_one 64 demo_os demo_config demo_node6 True ?s = Some ((0, n), u)"
    by (simp add: tumgrd_reconcile_one_def reconcile_steps_def)
  then show ?thesis by (rule that)
qed

lemma demo_read6: "row_to_node demo_os demo_row6 s = (demo_node6, s)"
  by (simp add: row_to_node_def demo_data6 clamp_applied_def column_text_def column_int_def column_int64_def
      to_int32_id clamp_lifetime_def lifetime_bounds snprintf_s_def cstr_of_def)

lemma demo_all:
  obtains s' where "tumgrd_reconcile_all 64 demo_os demo_config True (demo_sys [demo_row6]) = Some (0, s')"
proof -
  obtain n s' where "tumgrd_reconcile_one 64 demo_os demo_config demo_node6 True (demo_sys [demo_row6]) = Some ((0, n), s')"
    by (rule demo_pass)
  moreover have "tumgrd_db_list_nodes demo_os (demo_sys [demo_row6]) = ((0, [demo_node6]), demo_sys [demo_row6])"
    by (simp add: tumgrd_db_list_nodes_def order_rows_def grow_array_def demo_read6 demo_sys_def Let_def)
  ultimately have "tumgrd_reconcile_all 64 demo_os demo_config True (demo_sys [demo_row6]) = Some (0, s')"
    by (simp add: tumgrd_reconcile_all_def)
  then show ?thesis by (rule that)
qed

section \<open>The properties on concrete data\<close>

theorem reconcile_refines_protocol_witness:
  "\<exists>n s'. tumgrd_reconcile_one 64 demo_os demo_config demo_node6 True (demo_sys [demo_row6]) = Some ((0, n), s') \<and>
     proto_steps demo_os (pk demo_row6) (demo_sys [demo_row6]) s'"
proof -
  obtain n s' where p: "tumgrd_reconcile_one 64 demo_os demo_config demo_node6 True (demo_sys [demo_row6]) = Some ((0, n), s')"
    by (rule demo_pass)
  from reconcile_refines_protocol [OF p demo_pipes demo_inet demo_sync6(1,3)] p show ?thesis by blast
qed


text \<open>A URL without a host: the address cannot be probed and the pass fails.\<close>

definition demo_bad_row :: row where "demo_bad_row = demo_row6\<lparr>c_ip_check_url := Some ''/''\<rparr>"

definition demo_bad_node :: tumgrd_node where "demo_bad_node = demo_node6\<lparr>n_ip_check_url := ''/''\<rparr>"

lemma demo_bad: "in_sync (pk demo_row6) demo_bad_node (demo_sys [demo_bad_row])"
  "lookup (tbl (db (demo_sys [demo_bad_row]))) (pk demo_row6) = Some demo_bad_row"
  "db_ok (tbl (db (demo_sys [demo_bad_row])))" "rotating demo_bad_row"
  by (simp_all add: demo_bad_row_def demo_bad_node_def demo_data6 in_sync_def node_key_def demo_sys_def pk_def
      key_of_def the_default_def table_inv_def db_ok_def row_wf_def rotation_ok_def rotating_def)

lemma demo_bad_pass:
  obtains n s' where "tumgrd_reconcile_one 64 demo_os demo_config demo_bad_node False (demo_sys [demo_bad_row])
    = Some ((- 1, n), s')"
proof -
  have "parse_url_host_path 64 (Some ''/'') 128 256 = None" by code_simp
  then have "detect_public_ip 64 demo_os (Some ''/'') v [] 64 s = Some ((- 1, []), s)" for v and s :: "nat sys"
    by (simp add: detect_public_ip_def)
  then have "\<exists>n s'. tumgrd_reconcile_one 64 demo_os demo_config demo_bad_node False (demo_sys [demo_bad_row])
      = Some ((- 1, n), s')"
    by (simp add: tumgrd_reconcile_one_def reconcile_steps_def check_rotation_def check_expiry_def apply_node_def
        demo_bad_node_def demo_data6 rotation_states pick_ip_check_url_def split: prod.split)
  then show ?thesis using that by blast
qed

theorem reconcile_failure_keeps_rotation_witness:
  "\<exists>n s' r'. tumgrd_reconcile_one 64 demo_os demo_config demo_bad_node False (demo_sys [demo_bad_row])
      = Some ((- 1, n), s') \<and> lookup (tbl (db s')) (pk demo_row6) = Some r' \<and> key_of r' = key_of demo_bad_row"
proof -
  obtain n s' where p: "tumgrd_reconcile_one 64 demo_os demo_config demo_bad_node False (demo_sys [demo_bad_row])
      = Some ((- 1, n), s')" by (rule demo_bad_pass)
  have "(- 1 :: int) \<noteq> 0" by simp
  from reconcile_failure_keeps_rotation [OF p this demo_pipes demo_inet demo_bad(1,3,2,4)] p show ?thesis by blast
qed

theorem reconcile_starts_tools_with_stored_key_witness:
  "\<exists>n s' es. tumgrd_reconcile_one 64 demo_os demo_config demo_node6 True (demo_sys [demo_row6]) = Some ((0, n), s') \<and>
     spawns (rt s') = es \<and>
     list_all (\<lambda>e. \<exists>r. lookup (sp_db e) (pk demo_row6) = Some r \<and>
       tool_allowed demo_os (pk demo_row6) r (sp_argv e) (sp_stdin e)) es"
proof -
  obtain n s' where p: "tumgrd_reconcile_one 64 demo_os demo_config demo_node6 True (demo_sys [demo_row6]) = Some ((0, n), s')"
    by (rule demo_pass)
  have "spawns (rt (demo_sys [demo_row6])) = []" by (simp add: demo_sys_def)
  with reconcile_starts_tools_with_stored_key [OF p demo_pipes demo_inet demo_sync6(1,3)] p
  show ?thesis by auto
qed

theorem reconcile_records_sane_times_witness:
  "\<exists>n s' r'. tumgrd_reconcile_one 64 demo_os demo_config demo_node6 True (demo_sys [demo_row6]) = Some ((0, n), s') \<and>
     lookup (tbl (db s')) (pk demo_row6) = Some r'"
proof -
  obtain n s' where p: "tumgrd_reconcile_one 64 demo_os demo_config demo_node6 True (demo_sys [demo_row6]) = Some ((0, n), s')"
    by (rule demo_pass)
  from reconcile_records_sane_times [OF p demo_pipes demo_inet demo_sync6(1,3,2)] p show ?thesis by blast
qed

lemma demo_row6_ok: "db_ok (tbl (db (demo_sys [demo_row6])))"
  using demo_row6(5) by (simp add: demo_sys_def)

theorem reconcile_all_keeps_invariants_witness:
  "\<exists>s'. tumgrd_reconcile_all 64 demo_os demo_config True (demo_sys [demo_row6]) = Some (0, s') \<and>
     db_ok (tbl (db s')) \<and> length (tbl (db s')) = 1"
proof -
  obtain s' where p: "tumgrd_reconcile_all 64 demo_os demo_config True (demo_sys [demo_row6]) = Some (0, s')"
    by (rule demo_all)
  note k = reconcile_all_keeps_invariants [OF p demo_pipes demo_inet demo_scan_complete demo_row6_ok]
  then have "map pk (tbl (db s')) = [pk demo_row6]" by (simp add: demo_sys_def)
  then have "length (tbl (db s')) = 1" by (metis length_map length_Cons list.size(3) One_nat_def)
  with k p show ?thesis by blast
qed

theorem forced_reconcile_settles_all_witness:
  "\<exists>s'. tumgrd_reconcile_all 64 demo_os demo_config True (demo_sys [demo_row6]) = Some (0, s') \<and>
     list_all (\<lambda>r. c_status r = Some ''active'' \<and> c_rotation_state r = Some 0) (tbl (db s'))"
proof -
  obtain s' where p: "tumgrd_reconcile_all 64 demo_os demo_config True (demo_sys [demo_row6]) = Some (0, s')"
    by (rule demo_all)
  from forced_reconcile_settles_all [OF p demo_pipes demo_inet demo_scan_complete demo_row6_ok] p
  show ?thesis by (auto simp: TUMGRD_STATUS_ACTIVE_def rotation_states)
qed

lemma hang_daemon: "daemon_live (\<lambda>_. 0) (\<lambda>killed. killed) hang_os"
  using hang_live hang_pipes hang_sockets
  by (simp add: daemon_live_def urandom_eintr_finite_def hang_os_def)

theorem reconcile_all_returns_witness:
  "\<exists>rc s'. tumgrd_reconcile_all 64 hang_os demo_config True
     \<lparr>db = db (demo_sys [demo_row6]), rt = rt (demo_sys []), world = False\<rparr> = Some (rc, s')"
  by (rule reconcile_all_returns [OF hang_daemon]) (simp_all add: demo_sys_def)

end
