(* ===== verification/Tumgrd_Service.thy ===== *)
theory Tumgrd_Service
  imports Tumgrd_Reconcile
begin

text \<open>
  What all operations of the daemon have in common, whatever node they work on: the contract
  between the operations and the event loop. A pass over a node keeps, besides, every column that
  only a registration writes, and the key of the node unless it rotates it.
\<close>

section \<open>What every operation keeps\<close>

text \<open>
  \<open>keeps s s'\<close>: the database stays consistent and open, the watchdog is as before and no
  descriptor is leaked. It holds of every operation for every node, in line with the
  database or not.
\<close>

definition keeps :: "'w sys \<Rightarrow> 'w sys \<Rightarrow> bool" where
  "keeps s s' \<longleftrightarrow> (db_ok (tbl (db s)) \<longrightarrow> db_ok (tbl (db s'))) \<and> db_conn (db s') = db_conn (db s) \<and>
     watchdog_usable (rt s') = watchdog_usable (rt s) \<and> sigalrm_blocked (rt s') = sigalrm_blocked (rt s) \<and>
     mset (open_fds (rt s')) = mset (open_fds (rt s))"

lemma keeps_refl [simp]: "keeps s s"
  by (simp add: keeps_def)

lemma keeps_trans: "keeps s t \<Longrightarrow> keeps t u \<Longrightarrow> keeps s u"
  by (simp add: keeps_def)

lemma keeps_same: "db s' = db s \<and> rt s' = rt s \<Longrightarrow> keeps s s'"
  by (simp add: keeps_def)

lemma keeps_guarded: "keeps s s' \<Longrightarrow> guarded s' = guarded s"
  by (simp add: keeps_def guarded_def)

text \<open>A pass over a node keeps, in addition, the columns of every row that a registration writes.\<close>

definition pass_keeps :: "'w sys \<Rightarrow> 'w sys \<Rightarrow> bool" where
  "pass_keeps s s' \<longleftrightarrow> keeps s s' \<and> map config_of (tbl (db s')) = map config_of (tbl (db s))"

lemma pass_keeps_refl [simp]: "pass_keeps s s"
  by (simp add: pass_keeps_def)

lemma pass_keeps_trans: "pass_keeps s t \<Longrightarrow> pass_keeps t u \<Longrightarrow> pass_keeps s u"
  using keeps_trans by (auto simp: pass_keeps_def)

lemma pass_keeps_same: "db s' = db s \<and> rt s' = rt s \<Longrightarrow> pass_keeps s s'"
  by (simp add: pass_keeps_def keeps_same)

lemma keeps_tool: "tool_effect P s s' \<Longrightarrow> pass_keeps s s'"
  using tool_effect_frame [of P s s'] by (simp add: pass_keeps_def keeps_def)

lemma keeps_world: "only_world s s' \<Longrightarrow> pass_keeps s s'"
  using only_world_frame pass_keeps_same by blast

context keyed_update
begin

lemma keeps_config:
  assumes "upd os s = (rc, s')" "\<And>r. config_of (f r) = config_of r"
  shows "map config_of (tbl (db s')) = map config_of (tbl (db s))"
  using effect [OF assms(1)] by (elim disjE) (simp_all add: upd_rows_config assms(2))

lemma keeps_all:
  assumes "upd os s = (rc, s')"
    and "\<And>r. g r \<Longrightarrow> row_wf r \<Longrightarrow> rotation_ok r \<Longrightarrow> row_wf (f r) \<and> rotation_ok (f r)"
    and "\<And>r. config_of (f r) = config_of r"
  shows "pass_keeps s s'"
  using keeps_db_ok [OF assms(1) _ assms(2)] connection_kept [OF assms(1)] runner_untouched [OF assms(1)]
    keeps_config [OF assms(1,3)]
  by (simp add: pass_keeps_def keeps_def)

end

lemma store_keeps:
  "tumgrd_db_update_runtime os h p u v ip st ts s = (rc, s') \<Longrightarrow> length st < 32 \<Longrightarrow> pass_keeps s s'"
  "tumgrd_db_update_applied os h p u v ts s = (rc, s') \<Longrightarrow> pass_keeps s s'"
  "tumgrd_db_begin_rotation os h p u v key TUMGRD_ROTATION_PENDING_REMOTE now s = (rc, s') \<Longrightarrow>
     fresh_key key \<Longrightarrow> pass_keeps s s'"
  "tumgrd_db_complete_rotation os h p u v ts s = (rc, s') \<Longrightarrow> pass_keeps s s'"
  "tumgrd_db_replace_rotation os h p u v key now s = (rc, s') \<Longrightarrow> fresh_key key \<Longrightarrow> pass_keeps s s'"
  "tumgrd_db_clear_rotation os h p u v s = (rc, s') \<Longrightarrow> pass_keeps s s'"
  by (auto elim!: update_runtime.keeps_all update_applied.keeps_all begin_rotation.keeps_all
        complete_rotation.keeps_all replace_rotation.keeps_all clear_rotation.keeps_all
      simp: row_changes row_wf_def rotation_ok_def rotation_states the_default_def fresh_key_def config_of_def)

lemma move_keeps:
  assumes "tumgrd_db_update_rotation_state os h p u v n s = (rc, s')"
  shows "pass_keeps s s'"
  using move_rotation_ok [OF assms] update_rotation_state.connection_kept [OF assms]
    update_rotation_state.runner_untouched [OF assms]
    update_rotation_state.keeps_config [OF assms]
  by (simp add: pass_keeps_def keeps_def)

lemma mark_runtime_keeps:
  "mark_runtime os node ip st ts s = (rc, s') \<Longrightarrow> length st < 32 \<Longrightarrow> pass_keeps s s'"
  unfolding mark_runtime_def by (rule store_keeps)

lemma now_keeps: "now_unix os s = (t, s') \<Longrightarrow> pass_keeps s s'"
  by (rule pass_keeps_same [OF now_unix_frame])

lemma fresh_key_keeps:
  "rsat (generate_random_hex_key os [] 129 64 s) (\<lambda>(err, key) s'. pass_keeps s s' \<and> (err = 0 \<longrightarrow> fresh_key key))"
  by (rule rsat_conseq [OF fresh_key_rsat]) (simp add: pass_keeps_def keeps_def split: prod.splits)

lemma restart_rotation_keeps: "rsat (restart_rotation os cfg node now s) (\<lambda>_ s'. pass_keeps s s')"
  unfolding restart_rotation_def Let_def
  by (intro vcg rsat_conseq [OF fresh_key_keeps]) (auto dest: store_keeps elim: pass_keeps_trans)

lemma check_rotation_keeps: "rsat (check_rotation os cfg node now s) (\<lambda>_ s'. pass_keeps s s')"
  unfolding check_rotation_def
  by (intro vcg rsat_conseq [OF restart_rotation_keeps]) (auto elim: pass_keeps_trans)

lemma check_expiry_keeps: "rsat (check_expiry os cfg node force now s) (\<lambda>_ s'. pass_keeps s s')"
  unfolding check_expiry_def Let_def
  by (intro vcg rsat_conseq [OF fresh_key_keeps]) (auto dest: store_keeps elim: pass_keeps_trans)

lemma confirm_remote_keeps: "confirm_remote os node s = (r, s') \<Longrightarrow> pass_keeps s s'"
  by (auto simp: confirm_remote_def split: if_splits prod.splits dest: move_keeps)

lemma record_applied_keeps: "record_applied os node expired b now s = (r, s') \<Longrightarrow> pass_keeps s s'"
  unfolding record_applied_def Let_def
  by (auto split: if_splits prod.splits dest: store_keeps(2) store_keeps(4))

lemma tool_keeps:
  assumes "pipe_fds_ok os"
  shows "rsat (tumgrd_runner_server_add os node cfg ip s) (\<lambda>_ s'. pass_keeps s s')"
    "rsat (tumgrd_runner_server_del os node s) (\<lambda>_ s'. pass_keeps s s')"
    "rsat (tumgrd_runner_client_del os node s) (\<lambda>_ s'. pass_keeps s s')"
    "rsat (tumgrd_runner_reset_local_client os node s) (\<lambda>_ s'. pass_keeps s s')"
  by (rule rsatI, erule keeps_tool [OF server_add.effect [OF assms]], rule rsatI,
      erule keeps_tool [OF server_del.effect [OF assms]], rule rsatI,
      erule keeps_tool [OF client_del.effect [OF assms]], rule rsatI,
      erule keeps_tool [OF reset_client.effect [OF assms]])

lemma active_length [simp]: "length TUMGRD_STATUS_ACTIVE < 32" "length TUMGRD_STATUS_ERROR < 32"
  by (simp_all add: status_strings)

lemma apply_local_keeps:
  assumes "pipe_fds_ok os"
  shows "rsat (apply_local os node ip expired now s) (\<lambda>_ s'. pass_keeps s s')"
proof -
  have reset: "rsat (tumgrd_runner_reset_local_client os n t) (\<lambda>_ s'. pass_keeps s s')"
    if "confirm_remote os node s = ((e, m), t)" for n e m t
    by (rule rsat_conseq [OF tool_keeps(4) [OF assms]])
       (rule pass_keeps_trans [OF confirm_remote_keeps [OF that]])
  have marked: "pass_keeps s v" if "pass_keeps s t" "now_unix os t = (ts, u)"
      "mark_runtime os n i TUMGRD_STATUS_ACTIVE ts u = (rc, v)" for t ts u n i rc v
    using pass_keeps_trans [OF pass_keeps_trans [OF that(1) now_keeps [OF that(2)]] mark_runtime_keeps [OF that(3)]] by simp
  have fin: "rsat (Some (record_applied os n expired b now u)) (\<lambda>_ s'. pass_keeps s s')" if "pass_keeps s u" for n b u
    by (rule rsatI) (simp add: pass_keeps_trans [OF that record_applied_keeps])
  show ?thesis
    unfolding apply_local_def Let_def
    by (intro vcg rsat_conseq [OF reset] fin) (use marked confirm_remote_keeps in auto)
qed

lemma detect_keeps: "rsat (detect_public_ip bits os url v out n s) (\<lambda>_ s'. pass_keeps s s')"
  by (rule rsat_conseq [OF detect_public_ip_outcome]) (auto intro: keeps_world)

lemma apply_node_keeps:
  assumes "pipe_fds_ok os"
  shows "rsat (apply_node bits os cfg node force expired now s) (\<lambda>_ s'. pass_keeps s s')"
  unfolding apply_node_def Let_def
  by (intro vcg rsat_conseq [OF detect_keeps] rsat_conseq [OF tool_keeps(1) [OF assms]]
      rsat_conseq [OF apply_local_keeps [OF assms]])
     (auto split: prod.splits, (meson pass_keeps_trans)+)

lemma reconcile_steps_keeps:
  assumes "pipe_fds_ok os"
  shows "rsat (reconcile_steps bits os cfg node force s) (\<lambda>_ s'. pass_keeps s s')"
proof -
  obtain now t where now: "now_unix os s = (now, t)" by fastforce
  have app: "rsat (apply_node bits os cfg n f expired now u) (\<lambda>_ s'. pass_keeps s s')" if "pass_keeps s u" for n f expired u
    by (rule rsat_conseq [OF apply_node_keeps [OF assms]]) (rule pass_keeps_trans [OF that])
  have exp: "rsat (check_expiry os cfg n force now u) (\<lambda>_ s'. pass_keeps s s')" if "pass_keeps s u" for n u
    by (rule rsat_conseq [OF check_expiry_keeps]) (rule pass_keeps_trans [OF that])
  have rot: "rsat (check_rotation os cfg node now t) (\<lambda>_ s'. pass_keeps s s')"
    by (rule rsat_conseq [OF check_rotation_keeps]) (rule pass_keeps_trans [OF now_keeps [OF now]])
  show ?thesis
    unfolding reconcile_steps_def now Let_def prod.case
    by (intro vcg rsat_conseq [OF rot] rsat_conseq [OF exp] app) auto
qed

lemma reconcile_one_pass:
  assumes "pipe_fds_ok os"
  shows "rsat (tumgrd_reconcile_one bits os cfg node force s) (\<lambda>_ s'. pass_keeps s s')"
proof -
  have marked: "pass_keeps s v" if "pass_keeps s t" "now_unix os t = (ts, u)"
      "mark_runtime os node' ip TUMGRD_STATUS_ERROR ts u = (rc, v)" for t ts u node' ip rc v
    using that now_keeps [OF that(2)] mark_runtime_keeps [OF that(3)] pass_keeps_trans by (metis active_length(2))
  show ?thesis
    unfolding tumgrd_reconcile_one_def Let_def
    by (intro vcg rsat_conseq [OF reconcile_steps_keeps [OF assms]]) (use marked in auto)
qed

lemma reconcile_one_keeps:
  assumes "pipe_fds_ok os"
  shows "rsat (tumgrd_reconcile_one bits os cfg node force s) (\<lambda>_ s'. keeps s s')"
  by (rule rsat_conseq [OF reconcile_one_pass [OF assms]]) (simp add: pass_keeps_def)

lemma reconcile_nodes_keeps:
  assumes "pipe_fds_ok os"
  shows "rsat (reconcile_nodes bits os cfg force nodes failed s) (\<lambda>_ s'. keeps s s')"
proof (induction nodes arbitrary: failed s)
  case (Cons node nodes)
  have rest: "rsat (reconcile_nodes bits os cfg force nodes f t) (\<lambda>_ s'. keeps s s')" if "keeps s t" for f t
    by (rule rsat_conseq [OF Cons.IH]) (use keeps_trans [OF that] in blast)
  show ?case
    unfolding reconcile_nodes.simps
    by (intro vcg rsat_conseq [OF reconcile_one_keeps [OF assms]] rest) auto
qed (simp add: rsat_def)

lemma list_nodes_keeps: "tumgrd_db_list_nodes os s = ((rc, ns), s') \<Longrightarrow> keeps s s'"
  using list_nodes_outcome keeps_same by blast

lemma reconcile_all_keeps:
  assumes "pipe_fds_ok os"
  shows "rsat (tumgrd_reconcile_all bits os cfg force s) (\<lambda>_ s'. keeps s s')"
  unfolding tumgrd_reconcile_all_def Let_def
  by (intro vcg rsat_conseq [OF reconcile_nodes_keeps [OF assms]])
     (auto dest: list_nodes_keeps elim: keeps_trans)

section \<open>The key in memory\<close>

text \<open>A pass leaves the key of the node as it is, or replaces it by a random one where XOR is enabled.\<close>

definition key_kept :: "tumgrd_config \<Rightarrow> tumgrd_node \<Rightarrow> tumgrd_node \<Rightarrow> bool" where
  "key_kept cfg n m \<longleftrightarrow> n_xor_key m = n_xor_key n \<or> cfg_enable_xor cfg \<and> fresh_key (n_xor_key m)"

lemma key_kept_simps [simp]:
  "key_kept cfg n n" "key_kept cfg n (m\<lparr>n_last_applied_at := t\<rparr>) = key_kept cfg n m"
  "key_kept cfg n (m\<lparr>n_rotation_state := st\<rparr>) = key_kept cfg n m"
  "key_kept cfg n (drop_rotation m) = key_kept cfg n m"
  by (simp_all add: key_kept_def)

lemma key_kept_trans: "key_kept cfg n m \<Longrightarrow> key_kept cfg m k \<Longrightarrow> key_kept cfg n k"
  by (auto simp: key_kept_def)

lemma key_kept_new: "fresh_key key \<Longrightarrow> cfg_enable_xor cfg \<Longrightarrow> key_kept cfg n (take_new_key key m)"
  using take_new_key_fields [of key m] by (simp add: key_kept_def)

lemma restart_rotation_key: "rsat (restart_rotation os cfg node now s) (\<lambda>(_, m) _. key_kept cfg node m)"
  unfolding restart_rotation_def Let_def
  by (intro vcg rsat_conseq [OF fresh_key_rsat]) (auto intro: key_kept_new)

lemma check_rotation_key: "rsat (check_rotation os cfg node now s) (\<lambda>(_, m) _. key_kept cfg node m)"
proof -
  have again: "rsat (restart_rotation os cfg m now t) (\<lambda>(_, m) _. key_kept cfg node m)" if "key_kept cfg node m" for m t
    by (rule rsat_conseq [OF restart_rotation_key]) (use key_kept_trans [OF that] in auto)
  show ?thesis
    unfolding check_rotation_def
    by (intro vcg rsat_conseq [OF restart_rotation_key] again) auto
qed

lemma check_expiry_key: "rsat (check_expiry os cfg node force now s) (\<lambda>(_, m, _) _. key_kept cfg node m)"
  unfolding check_expiry_def Let_def
  by (intro vcg rsat_conseq [OF fresh_key_rsat]) (auto intro: key_kept_new)

lemma confirm_remote_key: "confirm_remote os node s = ((e, m), s') \<Longrightarrow> n_xor_key m = n_xor_key node"
  by (auto simp: confirm_remote_def split: if_splits prod.splits)

lemma record_applied_key: "record_applied os node expired b now s = ((e, m), s') \<Longrightarrow> n_xor_key m = n_xor_key node"
  unfolding record_applied_def Let_def by (auto split: if_splits prod.splits)

lemma apply_local_key: "rsat (apply_local os node ip expired now s) (\<lambda>(_, m) _. n_xor_key m = n_xor_key node)"
proof -
  have fin: "rsat (Some (record_applied os m expired b now u)) (\<lambda>(_, m) _. n_xor_key m = n_xor_key node)"
    if "n_xor_key m = n_xor_key node" for m b u
    by (rule rsatI) (use that in \<open>auto dest: record_applied_key\<close>)
  show ?thesis
    unfolding apply_local_def Let_def
    by (intro vcg rsat_conseq [OF rsat_any [of "tumgrd_runner_reset_local_client _ _ _"]] fin)
       (auto dest: confirm_remote_key)
qed

lemma apply_node_key:
  "rsat (apply_node bits os cfg node force expired now s) (\<lambda>(_, m, _) _. n_xor_key m = n_xor_key node)"
  unfolding apply_node_def Let_def
  by (intro vcg rsat_conseq [OF rsat_any [of "detect_public_ip _ _ _ _ _ _ _"]]
      rsat_conseq [OF rsat_any [of "tumgrd_runner_server_add _ _ _ _ _"]] rsat_conseq [OF apply_local_key]) auto

lemma reconcile_one_key: "rsat (tumgrd_reconcile_one bits os cfg node force s) (\<lambda>(_, m) _. key_kept cfg node m)"
proof -
  have app: "rsat (apply_node bits os cfg m f expired now u) (\<lambda>(_, m, _) _. key_kept cfg node m)"
    if "key_kept cfg node m" for m f expired now u
    by (rule rsat_conseq [OF apply_node_key]) (use that in \<open>auto simp: key_kept_def\<close>)
  have exp: "rsat (check_expiry os cfg m force now u) (\<lambda>(_, m, _) _. key_kept cfg node m)"
    if "key_kept cfg node m" for m now u
    by (rule rsat_conseq [OF check_expiry_key]) (use key_kept_trans [OF that] in auto)
  have "rsat (reconcile_steps bits os cfg node force s) (\<lambda>(_, m, _) _. key_kept cfg node m)"
    unfolding reconcile_steps_def Let_def
    by (intro vcg rsat_conseq [OF check_rotation_key] rsat_conseq [OF exp] app) auto
  then show ?thesis
    unfolding tumgrd_reconcile_one_def Let_def
    by (intro vcg) (erule rsat_conseq, auto simp: rsat_def split: prod.splits)
qed

section \<open>The contract of a service\<close>

text \<open>
  What the event loop relies on of everything it calls: it keeps the state of the daemon in
  order, and it returns.
\<close>

locale service =
  fixes op :: "'w os \<Rightarrow> 'w sys \<Rightarrow> ('a \<times> 'w sys) option"
  assumes orderly: "pipe_fds_ok os \<Longrightarrow> rsat (op os s) (\<lambda>_ s'. keeps s s')"
    and answers: "daemon_live rank dead os \<Longrightarrow> guarded s \<Longrightarrow> tsat (op os s) (\<lambda>_ s'. guarded s')"
begin

lemma keeps_order: "pipe_fds_ok os \<Longrightarrow> op os s = Some (a, s') \<Longrightarrow> keeps s s'"
  by (rule rsatD [OF orderly])

lemma returns_in_order:
  assumes "daemon_live rank dead os" "guarded s"
  obtains a s' where "op os s = Some (a, s')" "keeps s s'" "guarded s'"
  using answers [OF assms] keeps_order assms(1) unfolding tsat_def daemon_live_def by blast

end

interpretation reconcile_all: service "\<lambda>os. tumgrd_reconcile_all bits os cfg force"
  by unfold_locales (use reconcile_all_keeps reconcile_all_total in blast)+

end
