(* ===== verification/Tumgrd_Ubus.thy ===== *)
theory Tumgrd_Ubus
  imports Tumgrd_Service
begin

text \<open>
  \<open>src/src/ubus_if.c\<close>: the methods of the ubus object \<open>tumgrd\<close>, the listener for network
  events and the two reconcile timers.

  libubus and libubox are not part of the repository: what the code asks of them is the record
  \<open>'w bus\<close>. A message is the list of its named attributes, \<open>blobmsg_parse\<close> answers with one
  attribute or NULL per entry of the policy, and the reply that a handler sends is part of its
  result. Every string taken from a message is a C string.
\<close>

section \<open>Messages\<close>

datatype blob_type = BLOBMSG_TYPE_STRING | BLOBMSG_TYPE_INT32 | BLOBMSG_TYPE_BOOL

datatype blob_attr =
    BStr string
  | BU8 "8 word"
  | BU32 "32 word"
  | BU64 "64 word"
  | BTables "(string \<times> blob_attr) list list"

type_synonym blob_msg = "(string \<times> blob_attr) list"

datatype ubus_status = UBUS_STATUS_OK | UBUS_STATUS_INVALID_ARGUMENT | UBUS_STATUS_UNKNOWN_ERROR

record 'w bus =
  bus_blobmsg_parse :: "(string \<times> blob_type) list \<Rightarrow> blob_msg \<Rightarrow> blob_attr nullable list"
  bus_connect :: "string nullable \<Rightarrow> 'w \<Rightarrow> bool \<times> 'w"
  bus_register_event_handler :: "'w \<Rightarrow> int \<times> 'w"
  bus_add_object :: "'w \<Rightarrow> int \<times> 'w"
  bus_uloop_init :: "'w \<Rightarrow> int \<times> 'w"

text \<open>
  The accessors. The policy of a method fixes the type of each attribute, so that the last
  equation of each is never used on what \<open>blobmsg_parse\<close> delivers.
\<close>

fun blobmsg_get_string :: "blob_attr nullable \<Rightarrow> string" where
  "blobmsg_get_string (Some (BStr v)) = v"
| "blobmsg_get_string _ = []"

fun blobmsg_get_u32 :: "blob_attr nullable \<Rightarrow> 32 word" where
  "blobmsg_get_u32 (Some (BU32 v)) = v"
| "blobmsg_get_u32 _ = 0"

fun blobmsg_get_u8 :: "blob_attr nullable \<Rightarrow> 8 word" where
  "blobmsg_get_u8 (Some (BU8 v)) = v"
| "blobmsg_get_u8 _ = 0"

text \<open>A 32-bit number with the sign that the cast to \<open>int\<close> gives it.\<close>

definition get_int :: "blob_attr nullable \<Rightarrow> int" where
  "get_int attr = sint (blobmsg_get_u32 attr)"

definition u32 :: "string \<Rightarrow> int \<Rightarrow> string \<times> blob_attr" where "u32 name v = (name, BU32 (word_of_int v))"

definition u64 :: "string \<Rightarrow> int \<Rightarrow> string \<times> blob_attr" where "u64 name v = (name, BU64 (word_of_int v))"

definition u8 :: "string \<Rightarrow> bool \<Rightarrow> string \<times> blob_attr" where "u8 name b = (name, BU8 (if b then 1 else 0))"

section \<open>Helpers\<close>

definition normalize_ip_version :: "string nullable \<Rightarrow> string \<Rightarrow> nat \<Rightarrow> int \<times> string" where
  "normalize_ip_version inp out out_len =
     (if out_len = 0 then (- 1, out)
      else
        let out = []
        in if inp = None \<or> inp = Some [] then (0, out)
           else if streqcase inp (Some ''4'') \<or> streqcase inp (Some ''-4'') \<or> streqcase inp (Some ''ipv4'')
           then (0, copy_string out out_len (Some ''ipv4''))
           else if streqcase inp (Some ''6'') \<or> streqcase inp (Some ''-6'') \<or> streqcase inp (Some ''ipv6'')
           then (0, copy_string out out_len (Some ''ipv6''))
           else (- 1, out))"

definition get_normalized_ip_version :: "blob_attr nullable \<Rightarrow> string \<Rightarrow> nat \<Rightarrow> int \<times> string" where
  "get_normalized_ip_version attr out out_len =
     (let raw = (if attr \<noteq> None then blobmsg_get_string attr else []);
          (rc, out) = normalize_ip_version (Some raw) out out_len
      in if rc \<noteq> 0 then (- 1, out) else (0, out))"

definition blobmsg_get_bool_default :: "blob_attr nullable \<Rightarrow> bool \<Rightarrow> bool" where
  "blobmsg_get_bool_default attr defval = (if attr = None then defval else blobmsg_get_u8 attr \<noteq> 0)"

definition reply_simple :: "string nullable \<Rightarrow> string nullable \<Rightarrow> blob_msg" where
  "reply_simple status message =
     (case status of None \<Rightarrow> [] | Some v \<Rightarrow> [(''status'', BStr v)]) @
     (case message of None \<Rightarrow> [] | Some v \<Rightarrow> [(''message'', BStr v)])"

definition opt_string :: "string \<Rightarrow> string \<Rightarrow> blob_msg" where
  "opt_string name v = (if v \<noteq> [] then [(name, BStr v)] else [])"

definition add_node_brief :: "tumgrd_node \<Rightarrow> blob_msg" where
  "add_node_brief n =
     [(''uid'', BStr (n_uid n)), (''server_host'', BStr (n_server_host n)),
      u32 ''server_port'' (n_server_port n), (''psk'', BStr (n_psk n)),
      u32 ''client_port'' (n_client_port n)] @
     opt_string ''description'' (n_description n) @
     opt_string ''client_comment'' (n_client_comment n) @
     opt_string ''ip_check_url'' (n_ip_check_url n) @
     opt_string ''ip_version'' (n_ip_version n) @
     [(''current_ip'', BStr (if n_current_ip n \<noteq> [] then n_current_ip n else [])),
      (''node_status'', BStr (if n_status n \<noteq> [] then n_status n else [])),
      u64 ''created_at'' (n_created_at n), u64 ''last_updated'' (n_last_updated n)] @
     (if n_has_memlimit n then [u32 ''memlimit'' (n_memlimit n)] else []) @
     opt_string ''xor'' (n_xor_key n) @
     [u64 ''lifetime'' (n_lifetime n)] @
     (if n_lifetime n > 0 \<and> n_last_applied_at n > 1 \<and> n_last_applied_at n \<le> INT64_MAX - n_lifetime n
      then [u64 ''expires_at'' (n_last_applied_at n + n_lifetime n)] else []) @
     (if n_rotation_state n \<noteq> TUMGRD_ROTATION_NONE
      then u32 ''rotation_state'' (n_rotation_state n) # opt_string ''xor_key_pending'' (n_xor_key_pending n)
      else [])"

definition resolve_node ::
  "'w os \<Rightarrow> string \<Rightarrow> string \<Rightarrow> int \<Rightarrow> string \<Rightarrow> tumgrd_node \<Rightarrow> 'w sys \<Rightarrow> (int \<times> tumgrd_node) \<times> 'w sys" where
  "resolve_node os uid server_host server_port ip_version out s =
     (let ((err, out), s) = tumgrd_db_get_node os server_host server_port uid ip_version out s
      in if err = 0 then ((0, out), s) else if err = 1 then ((1, out), s) else ((- 1, out), s))"

section \<open>register\<close>

abbreviation (input) REG_UID :: nat where "REG_UID \<equiv> 0"
abbreviation (input) REG_SERVER_HOST :: nat where "REG_SERVER_HOST \<equiv> 1"
abbreviation (input) REG_SERVER_PORT :: nat where "REG_SERVER_PORT \<equiv> 2"
abbreviation (input) REG_CLIENT_PORT :: nat where "REG_CLIENT_PORT \<equiv> 3"
abbreviation (input) REG_PSK :: nat where "REG_PSK \<equiv> 4"
abbreviation (input) REG_DESCRIPTION :: nat where "REG_DESCRIPTION \<equiv> 5"
abbreviation (input) REG_CLIENT_COMMENT :: nat where "REG_CLIENT_COMMENT \<equiv> 6"
abbreviation (input) REG_MEMLIMIT :: nat where "REG_MEMLIMIT \<equiv> 7"
abbreviation (input) REG_IP_CHECK_URL :: nat where "REG_IP_CHECK_URL \<equiv> 8"
abbreviation (input) REG_IP_VERSION :: nat where "REG_IP_VERSION \<equiv> 9"
abbreviation (input) REG_XOR_KEY :: nat where "REG_XOR_KEY \<equiv> 10"
abbreviation (input) REG_LIFETIME :: nat where "REG_LIFETIME \<equiv> 11"

definition reg_policy :: "(string \<times> blob_type) list" where
  "reg_policy =
     [(''uid'', BLOBMSG_TYPE_STRING), (''server_host'', BLOBMSG_TYPE_STRING),
      (''server_port'', BLOBMSG_TYPE_INT32), (''client_port'', BLOBMSG_TYPE_INT32),
      (''psk'', BLOBMSG_TYPE_STRING), (''description'', BLOBMSG_TYPE_STRING),
      (''client_comment'', BLOBMSG_TYPE_STRING), (''memlimit'', BLOBMSG_TYPE_INT32),
      (''ip_check_url'', BLOBMSG_TYPE_STRING), (''ip_version'', BLOBMSG_TYPE_STRING),
      (''xor'', BLOBMSG_TYPE_STRING), (''lifetime'', BLOBMSG_TYPE_INT32)]"

text \<open>The key and the ports of the request, or NULL if it is invalid.\<close>

definition register_args ::
  "blob_attr nullable list \<Rightarrow> (string \<times> string \<times> int \<times> int \<times> string) nullable" where
  "register_args tb =
     (if tb ! REG_UID = None \<or> tb ! REG_SERVER_HOST = None \<or> tb ! REG_SERVER_PORT = None \<or>
         tb ! REG_CLIENT_PORT = None \<or> tb ! REG_PSK = None then None
      else
        let uid = blobmsg_get_string (tb ! REG_UID);
            server_host = blobmsg_get_string (tb ! REG_SERVER_HOST);
            server_port = get_int (tb ! REG_SERVER_PORT);
            client_port = get_int (tb ! REG_CLIENT_PORT)
        in if \<not> is_safe_id (Some uid) then None
           else if server_port \<le> 0 \<or> server_port > 65535 then None
           else if client_port \<le> 0 \<or> client_port > 65535 then None
           else
             let (rc, ip_version) = get_normalized_ip_version (tb ! REG_IP_VERSION) [] 16
             in if rc \<noteq> 0 then None
                else Some (uid, server_host, server_port, client_port, ip_version))"

text \<open>The fields that the request sets: those of the key, and the optional ones.\<close>

definition register_key ::
  "blob_attr nullable list \<Rightarrow> string \<Rightarrow> string \<Rightarrow> int \<Rightarrow> int \<Rightarrow> tumgrd_node \<Rightarrow> tumgrd_node" where
  "register_key tb uid server_host server_port client_port node = node\<lparr>
     n_uid := snprintf_s 128 uid,
     n_server_host := snprintf_s 256 server_host,
     n_server_port := server_port,
     n_client_port := client_port,
     n_psk := snprintf_s 256 (blobmsg_get_string (tb ! REG_PSK))\<rparr>"

definition register_optional ::
  "blob_attr nullable list \<Rightarrow> string \<Rightarrow> tumgrd_node \<Rightarrow> tumgrd_node" where
  "register_optional tb ip_version node =
     (let node = (if tb ! REG_DESCRIPTION \<noteq> None
            then node\<lparr>n_description := snprintf_s 256 (blobmsg_get_string (tb ! REG_DESCRIPTION))\<rparr> else node);
          node = (if tb ! REG_CLIENT_COMMENT \<noteq> None
            then node\<lparr>n_client_comment := snprintf_s 256 (blobmsg_get_string (tb ! REG_CLIENT_COMMENT))\<rparr> else node);
          node = (if tb ! REG_MEMLIMIT \<noteq> None
            then let val = get_int (tb ! REG_MEMLIMIT)
                 in if val > 0 then node\<lparr>n_has_memlimit := True, n_memlimit := val\<rparr>
                    else node\<lparr>n_has_memlimit := False, n_memlimit := 0\<rparr> else node);
          node = (if tb ! REG_IP_CHECK_URL \<noteq> None
            then node\<lparr>n_ip_check_url := snprintf_s 256 (blobmsg_get_string (tb ! REG_IP_CHECK_URL))\<rparr> else node)
      in node\<lparr>n_ip_version := snprintf_s 16 ip_version\<rparr>)"

text \<open>The override of the key and the lifetime, with \<open>set_lifetime\<close>; NULL if the request is invalid.\<close>

definition register_xor :: "blob_attr nullable list \<Rightarrow> tumgrd_node \<Rightarrow> tumgrd_node nullable" where
  "register_xor tb node =
     (if tb ! REG_XOR_KEY = None then Some node
      else
        let xor_val = blobmsg_get_string (tb ! REG_XOR_KEY)
        in if \<not> is_safe_id (Some xor_val) then None
           else if n_rotation_state node \<noteq> TUMGRD_ROTATION_NONE then None
           else Some (node\<lparr>n_xor_key := snprintf_s 129 xor_val\<rparr>))"

definition register_lifetime ::
  "blob_attr nullable list \<Rightarrow> bool \<Rightarrow> tumgrd_node \<Rightarrow> (tumgrd_node \<times> bool) nullable" where
  "register_lifetime tb set_lifetime node =
     (if tb ! REG_LIFETIME = None then Some (node, set_lifetime)
      else
        let lt_value = uint (blobmsg_get_u32 (tb ! REG_LIFETIME))
        in if lt_value \<noteq> 0 \<and> lt_value < TUMGRD_LIFETIME_MIN then None
           else if lt_value > TUMGRD_LIFETIME_MAX then None
           else Some (node\<lparr>n_lifetime := lt_value\<rparr>, True))"

text \<open>The node that a request registers, the one in the database or a new one.\<close>

definition register_base ::
  "'w os \<Rightarrow> tumgrd_config \<Rightarrow> int \<Rightarrow> tumgrd_node \<Rightarrow> 'w sys \<Rightarrow> tumgrd_node \<times> 'w sys" where
  "register_base os cfg get_rc old_node s =
     (if get_rc = 0 then (old_node, s)
      else
        let (now, s) = ext (os_time os) s
        in (zero_node\<lparr>n_lifetime := cfg_default_lifetime cfg,
                      n_last_applied_at := (if now \<ge> TUMGRD_MIN_SANE_TIME then now else 0)\<rparr>, s))"

text \<open>The random key of a new node.\<close>

definition register_new_key ::
  "'w os \<Rightarrow> tumgrd_config \<Rightarrow> string \<Rightarrow> tumgrd_node \<Rightarrow> 'w sys \<Rightarrow> ((int \<times> tumgrd_node) \<times> 'w sys) option" where
  "register_new_key os cfg action node s =
     (if action = ''created'' \<and> cfg_enable_xor cfg then
        do { ((rc, key), s) \<leftarrow> generate_random_hex_key os (n_xor_key node) 129 64 s;
             Some ((rc, node\<lparr>n_xor_key := key\<rparr>), s) }
      else Some ((0, node), s))"

text \<open>From the stored node to the reply.\<close>

definition register_apply ::
  "nat \<Rightarrow> 'w os \<Rightarrow> tumgrd_config \<Rightarrow> string \<Rightarrow> tumgrd_node \<Rightarrow> 'w sys
   \<Rightarrow> ((ubus_status \<times> blob_msg nullable) \<times> 'w sys) option" where
  "register_apply bits os cfg action node s =
     do { ((err, node), s) \<leftarrow> tumgrd_reconcile_one bits os cfg node True s;
          let ((get_rc, updated_node), s) = tumgrd_db_get_node os (n_server_host node) (n_server_port node)
                (n_uid node) (n_ip_version node) zero_node s;
              node = (if get_rc = 0 then updated_node else node)
          in Some ((UBUS_STATUS_OK, Some (
               [(''status'', BStr (if err = 0 then ''ok'' else ''stored_but_apply_failed'')),
                (''action'', BStr action), u8 ''applied'' (err = 0)] @ add_node_brief node)), s) }"

text \<open>From the validated node to the reply.\<close>

definition register_store ::
  "nat \<Rightarrow> 'w os \<Rightarrow> tumgrd_config \<Rightarrow> blob_attr nullable list \<Rightarrow> string \<Rightarrow> tumgrd_node \<Rightarrow> 'w sys
   \<Rightarrow> ((ubus_status \<times> blob_msg nullable) \<times> 'w sys) option" where
  "register_store bits os cfg tb action node s =
     (case register_xor tb node of None \<Rightarrow> Some ((UBUS_STATUS_INVALID_ARGUMENT, None), s)
      | Some node \<Rightarrow>
          (case register_lifetime tb (action = ''created'') node of
             None \<Rightarrow> Some ((UBUS_STATUS_INVALID_ARGUMENT, None), s)
           | Some (node, set_lifetime) \<Rightarrow>
               let (err, s) = tumgrd_db_upsert_node os node set_lifetime s
               in if err \<noteq> 0 then Some ((UBUS_STATUS_UNKNOWN_ERROR, None), s)
                  else register_apply bits os cfg action node s))"

definition handle_register ::
  "nat \<Rightarrow> 'w os \<Rightarrow> 'w bus \<Rightarrow> tumgrd_config \<Rightarrow> blob_msg \<Rightarrow> 'w sys
   \<Rightarrow> ((ubus_status \<times> blob_msg nullable) \<times> 'w sys) option" where
  "handle_register bits os bus cfg msg s =
     (let tb = bus_blobmsg_parse bus reg_policy msg
      in case register_args tb of None \<Rightarrow> Some ((UBUS_STATUS_INVALID_ARGUMENT, None), s)
         | Some (uid, server_host, server_port, client_port, ip_version) \<Rightarrow>
             let ((get_rc, old_node), s) =
                   tumgrd_db_get_node os server_host server_port uid ip_version zero_node s
             in if get_rc \<noteq> 0 \<and> get_rc \<noteq> 1 then Some ((UBUS_STATUS_UNKNOWN_ERROR, None), s)
                else
                  let action = (if get_rc = 0 then ''updated'' else ''created'');
                      (node, s) = register_base os cfg get_rc old_node s;
                      node = register_key tb uid server_host server_port client_port node
                  in do { ((rc, node), s) \<leftarrow> register_new_key os cfg action node s;
                          if rc \<noteq> 0 then Some ((UBUS_STATUS_UNKNOWN_ERROR, None), s)
                          else register_store bits os cfg tb action (register_optional tb ip_version node) s })"

section \<open>deregister\<close>

abbreviation (input) DEREG_UID :: nat where "DEREG_UID \<equiv> 0"
abbreviation (input) DEREG_SERVER_HOST :: nat where "DEREG_SERVER_HOST \<equiv> 1"
abbreviation (input) DEREG_SERVER_PORT :: nat where "DEREG_SERVER_PORT \<equiv> 2"
abbreviation (input) DEREG_IP_VERSION :: nat where "DEREG_IP_VERSION \<equiv> 3"

definition dereg_policy :: "(string \<times> blob_type) list" where
  "dereg_policy =
     [(''uid'', BLOBMSG_TYPE_STRING), (''server_host'', BLOBMSG_TYPE_STRING),
      (''server_port'', BLOBMSG_TYPE_INT32), (''ip_version'', BLOBMSG_TYPE_STRING)]"

text \<open>The uninitialised \<open>struct tumgrd_node\<close> is \<open>zero_node\<close>; it is read only after it was written.\<close>

definition handle_deregister ::
  "'w os \<Rightarrow> 'w bus \<Rightarrow> blob_msg \<Rightarrow> 'w sys \<Rightarrow> ((ubus_status \<times> blob_msg nullable) \<times> 'w sys) option" where
  "handle_deregister os bus msg s =
     (let tb = bus_blobmsg_parse bus dereg_policy msg
      in if tb ! DEREG_UID = None \<or> tb ! DEREG_SERVER_HOST = None \<or> tb ! DEREG_SERVER_PORT = None
         then Some ((UBUS_STATUS_INVALID_ARGUMENT, None), s)
         else
           let (rc, ip_version) = get_normalized_ip_version (tb ! DEREG_IP_VERSION) [] 16
           in if rc \<noteq> 0 then Some ((UBUS_STATUS_INVALID_ARGUMENT, None), s)
              else
                let ((resolve_rc, node), s) = resolve_node os (blobmsg_get_string (tb ! DEREG_UID))
                      (blobmsg_get_string (tb ! DEREG_SERVER_HOST)) (get_int (tb ! DEREG_SERVER_PORT))
                      ip_version zero_node s
                in if resolve_rc = 1
                   then Some ((UBUS_STATUS_OK, Some (reply_simple (Some ''not_found'') (Some ''node not found''))), s)
                   else if resolve_rc \<noteq> 0 then Some ((UBUS_STATUS_UNKNOWN_ERROR, None), s)
                   else
                     do { (rc_server, s) \<leftarrow> tumgrd_runner_server_del os node s;
                          (rc_client, s) \<leftarrow> tumgrd_runner_client_del os node s;
                          let (rc_db, s) = tumgrd_db_delete_node os (n_server_host node) (n_server_port node)
                                (n_uid node) (n_ip_version node) s
                          in Some ((UBUS_STATUS_OK, Some (
                               (if rc_db \<noteq> 0 then [(''status'', BStr ''error''),
                                                    (''message'', BStr ''database delete failed'')]
                                else if rc_server = 0 \<and> rc_client = 0 then [(''status'', BStr ''deleted'')]
                                else [(''status'', BStr ''deleted_with_cleanup_errors'')]) @
                               [u8 ''server_deleted'' (rc_server = 0), u8 ''client_deleted'' (rc_client = 0),
                                u8 ''db_deleted'' (rc_db = 0)] @
                               add_node_brief node)), s) })"

section \<open>refresh\<close>

abbreviation (input) REF_UID :: nat where "REF_UID \<equiv> 0"
abbreviation (input) REF_SERVER_HOST :: nat where "REF_SERVER_HOST \<equiv> 1"
abbreviation (input) REF_SERVER_PORT :: nat where "REF_SERVER_PORT \<equiv> 2"
abbreviation (input) REF_IP_VERSION :: nat where "REF_IP_VERSION \<equiv> 3"
abbreviation (input) REF_FORCE :: nat where "REF_FORCE \<equiv> 4"
abbreviation (input) REF_ALL :: nat where "REF_ALL \<equiv> 5"

definition ref_policy :: "(string \<times> blob_type) list" where
  "ref_policy =
     [(''uid'', BLOBMSG_TYPE_STRING), (''server_host'', BLOBMSG_TYPE_STRING),
      (''server_port'', BLOBMSG_TYPE_INT32), (''ip_version'', BLOBMSG_TYPE_STRING),
      (''force'', BLOBMSG_TYPE_BOOL), (''all'', BLOBMSG_TYPE_BOOL)]"

text \<open>The branch for all nodes, and the one for the node that was found.\<close>

definition refresh_all ::
  "nat \<Rightarrow> 'w os \<Rightarrow> tumgrd_config \<Rightarrow> bool \<Rightarrow> 'w sys \<Rightarrow> ((ubus_status \<times> blob_msg nullable) \<times> 'w sys) option" where
  "refresh_all bits os cfg is_force s =
     do { (err, s) \<leftarrow> tumgrd_reconcile_all bits os cfg is_force s;
          Some ((UBUS_STATUS_OK, Some
            [(''status'', BStr (if err = 0 then ''ok'' else ''partial_error'')), (''scope'', BStr ''all''),
             u8 ''force'' is_force]), s) }"

definition refresh_one ::
  "nat \<Rightarrow> 'w os \<Rightarrow> tumgrd_config \<Rightarrow> tumgrd_node \<Rightarrow> bool \<Rightarrow> 'w sys
   \<Rightarrow> ((ubus_status \<times> blob_msg nullable) \<times> 'w sys) option" where
  "refresh_one bits os cfg node is_force s =
     do { ((err, node), s) \<leftarrow> tumgrd_reconcile_one bits os cfg node is_force s;
          let ((get_rc, updated_node), s) = tumgrd_db_get_node os (n_server_host node) (n_server_port node)
                (n_uid node) (n_ip_version node) zero_node s;
              node = (if get_rc = 0 then updated_node else node)
          in Some ((UBUS_STATUS_OK, Some (
               [(''status'', BStr (if err = 0 then ''ok'' else ''error'')), (''scope'', BStr ''one''),
                u8 ''force'' is_force,
                (''note'', BStr ''force=true forces apply; otherwise apply only when IP changed or status error'')] @
               add_node_brief node)), s) }"

definition handle_refresh ::
  "nat \<Rightarrow> 'w os \<Rightarrow> 'w bus \<Rightarrow> tumgrd_config \<Rightarrow> blob_msg \<Rightarrow> 'w sys
   \<Rightarrow> ((ubus_status \<times> blob_msg nullable) \<times> 'w sys) option" where
  "handle_refresh bits os bus cfg msg s =
     (let tb = bus_blobmsg_parse bus ref_policy msg;
          is_all = blobmsg_get_bool_default (tb ! REF_ALL) False;
          is_force = blobmsg_get_bool_default (tb ! REF_FORCE) False
      in if is_all then refresh_all bits os cfg is_force s
         else if tb ! REF_UID = None \<or> tb ! REF_SERVER_HOST = None \<or> tb ! REF_SERVER_PORT = None
         then Some ((UBUS_STATUS_INVALID_ARGUMENT, None), s)
         else
           let (rc, ip_version) = get_normalized_ip_version (tb ! REF_IP_VERSION) [] 16
           in if rc \<noteq> 0 then Some ((UBUS_STATUS_INVALID_ARGUMENT, None), s)
              else
                let ((resolve_rc, node), s) = resolve_node os (blobmsg_get_string (tb ! REF_UID))
                      (blobmsg_get_string (tb ! REF_SERVER_HOST)) (get_int (tb ! REF_SERVER_PORT))
                      ip_version zero_node s
                in if resolve_rc = 1 then Some ((UBUS_STATUS_OK, Some [(''status'', BStr ''not_found'')]), s)
                   else if resolve_rc \<noteq> 0 then Some ((UBUS_STATUS_UNKNOWN_ERROR, None), s)
                   else refresh_one bits os cfg node is_force s)"

section \<open>status and dump\<close>

definition handle_status ::
  "'w os \<Rightarrow> 'w sys \<Rightarrow> ((ubus_status \<times> blob_msg nullable) \<times> 'w sys) option" where
  "handle_status os s =
     (let ((err, nodes), s) = tumgrd_db_list_nodes os s
      in if err \<noteq> 0 then Some ((UBUS_STATUS_UNKNOWN_ERROR, None), s)
         else Some ((UBUS_STATUS_OK, Some
           [(''status'', BStr ''ok''), u32 ''count'' (int (length nodes)),
            (''nodes'', BTables (map add_node_brief nodes))]), s))"

section \<open>The context of the daemon\<close>

text \<open>
  \<open>struct tumgrd_ctx\<close>. \<open>ctx_ubus\<close> tells whether there is a connection, the two flags are those
  of the structure, and a timer is the delay in milliseconds after which it is due, if it is
  pending. The database handle is in \<open>ctx_sys\<close>.
\<close>

record 'w ctx =
  ctx_sys :: "'w sys"
  ctx_cfg :: tumgrd_config
  ctx_ubus :: bool
  ctx_net_event_registered :: bool
  ctx_ubus_obj_added :: bool
  ctx_startup_timer :: "int option"
  ctx_periodic_timer :: "int option"

definition TUMGRD_STARTUP_RECONCILE_DELAY_MS :: int where "TUMGRD_STARTUP_RECONCILE_DELAY_MS = 3000"

text \<open>\<open>ctx->cfg.interval_sec * 1000\<close>: computed in \<open>uint32_t\<close> and passed as an \<open>int\<close>.\<close>

definition interval_ms :: "tumgrd_config \<Rightarrow> int" where
  "interval_ms cfg = sint (cfg_interval_sec cfg * 1000 :: 32 word)"

text \<open>A call of libubus, libubox or the network configuration from the context.\<close>

definition ctx_call :: "('w \<Rightarrow> 'a \<times> 'w) \<Rightarrow> 'w ctx \<Rightarrow> 'a \<times> 'w ctx" where
  "ctx_call f c = (let (a, s) = ext f (ctx_sys c) in (a, c\<lparr>ctx_sys := s\<rparr>))"

definition tumgrd_ubus_cleanup :: "'w ctx \<Rightarrow> 'w ctx" where
  "tumgrd_ubus_cleanup c =
     (if \<not> ctx_ubus c then c
      else
        let c = (if ctx_net_event_registered c then c\<lparr>ctx_net_event_registered := False\<rparr> else c);
            c = (if ctx_ubus_obj_added c then c\<lparr>ctx_ubus_obj_added := False\<rparr> else c);
            c = c\<lparr>ctx_startup_timer := None\<rparr>;
            c = c\<lparr>ctx_periodic_timer := None\<rparr>
        in c\<lparr>ctx_ubus := False\<rparr>)"

definition tumgrd_ubus_init :: "'w bus \<Rightarrow> 'w ctx \<Rightarrow> int \<times> 'w ctx" where
  "tumgrd_ubus_init bus c =
     (let (connected, c) = ctx_call (bus_connect bus (cfg_socket_path (ctx_cfg c))) c;
          c = c\<lparr>ctx_ubus := connected\<rparr>
      in if \<not> connected then (- 1, c)
         else
           let c = c\<lparr>ctx_net_event_registered := False, ctx_ubus_obj_added := False\<rparr>;
               (err, c) = ctx_call (bus_register_event_handler bus) c;
               c = (if err \<noteq> 0 then c else c\<lparr>ctx_net_event_registered := True\<rparr>);
               (err, c) = ctx_call (bus_add_object bus) c
           in if err \<noteq> 0 then (err, tumgrd_ubus_cleanup c)
              else
                let c = c\<lparr>ctx_ubus_obj_added := True\<rparr>;
                    c = c\<lparr>ctx_startup_timer := Some TUMGRD_STARTUP_RECONCILE_DELAY_MS\<rparr>;
                    c = c\<lparr>ctx_periodic_timer := Some (interval_ms (ctx_cfg c))\<rparr>
                in (0, c))"

text \<open>A call that works on the database handle and the runner.\<close>

definition on_sys :: "('w sys \<Rightarrow> ('a \<times> 'w sys) option) \<Rightarrow> 'w ctx \<Rightarrow> ('a \<times> 'w ctx) option" where
  "on_sys f c = do { (a, s) \<leftarrow> f (ctx_sys c); Some (a, c\<lparr>ctx_sys := s\<rparr>) }"

definition net_policy :: "(string \<times> blob_type) list" where
  "net_policy = [(''action'', BLOBMSG_TYPE_STRING), (''interface'', BLOBMSG_TYPE_STRING)]"

definition net_event_cb ::
  "nat \<Rightarrow> bool \<Rightarrow> 'w os \<Rightarrow> 'w bus \<Rightarrow> blob_msg nullable \<Rightarrow> 'w ctx \<Rightarrow> (unit \<times> 'w ctx) option" where
  "net_event_cb bits uci_enabled os bus msg c =
     (case msg of None \<Rightarrow> Some ((), c)
      | Some msg \<Rightarrow>
          let tb = bus_blobmsg_parse bus net_policy msg
          in if tb ! 0 = None \<or> tb ! 1 = None then Some ((), c)
             else
               let action = blobmsg_get_string (tb ! 0);
                   ifname = blobmsg_get_string (tb ! 1)
               in if streq (Some action) (Some ''ifup'') then
                    let ((err, is_wan), s) =
                          check_wan_interface uci_enabled os (Some ifname) False (ctx_sys c);
                        c = c\<lparr>ctx_sys := s\<rparr>
                    in if err \<noteq> 0 then Some ((), c)
                       else if is_wan then
                         do { (_, c) \<leftarrow> on_sys (tumgrd_reconcile_all bits os (ctx_cfg c) True) c;
                              Some ((), c) }
                       else Some ((), c)
                  else Some ((), c))"

definition startup_reconcile_timer_cb :: "nat \<Rightarrow> 'w os \<Rightarrow> 'w ctx \<Rightarrow> (unit \<times> 'w ctx) option" where
  "startup_reconcile_timer_cb bits os c =
     do { (_, c) \<leftarrow> on_sys (tumgrd_reconcile_all bits os (ctx_cfg c) True) c; Some ((), c) }"

definition periodic_reconcile_timer_cb :: "nat \<Rightarrow> 'w os \<Rightarrow> 'w ctx \<Rightarrow> (unit \<times> 'w ctx) option" where
  "periodic_reconcile_timer_cb bits os c =
     do { (_, c) \<leftarrow> on_sys (tumgrd_reconcile_all bits os (ctx_cfg c) False) c;
          Some ((), c\<lparr>ctx_periodic_timer := Some (interval_ms (ctx_cfg c))\<rparr>) }"

text \<open>The methods of the object.\<close>

datatype ubus_method = Register | Deregister | Refresh | Status | Dump

fun handle_request ::
  "nat \<Rightarrow> 'w os \<Rightarrow> 'w bus \<Rightarrow> tumgrd_config \<Rightarrow> ubus_method \<Rightarrow> blob_msg \<Rightarrow> 'w sys
   \<Rightarrow> ((ubus_status \<times> blob_msg nullable) \<times> 'w sys) option" where
  "handle_request bits os bus cfg Register msg s = handle_register bits os bus cfg msg s"
| "handle_request bits os bus cfg Deregister msg s = handle_deregister os bus msg s"
| "handle_request bits os bus cfg Refresh msg s = handle_refresh bits os bus cfg msg s"
| "handle_request bits os bus cfg Status msg s = handle_status os s"
| "handle_request bits os bus cfg Dump msg s = handle_status os s"

section \<open>Requests keep the daemon in order\<close>

lemma resolve_node_outcome:
  assumes "resolve_node os uid h p v out s = ((rc, n), s')"
  shows "db s' = db s \<and> rt s' = rt s \<and>
    (rc = - 1 \<and> n = out \<or> rc = 1 \<and> n = out \<and> lookup (tbl (db s)) (h, p, uid, v) = None \<or>
     rc = 0 \<and> (\<exists>r s1. lookup (tbl (db s)) (h, p, uid, v) = Some r \<and> row_to_node os r s1 = (n, s')))"
proof -
  obtain e m t where g: "tumgrd_db_get_node os h p uid v out s = ((e, m), t)" by (metis surj_pair)
  from get_node_outcome [OF g] assms g show ?thesis by (auto simp: resolve_node_def split: if_splits)
qed

lemma get_keeps: "tumgrd_db_get_node os h p u v out s = ((rc, n), s') \<Longrightarrow> keeps s s'"
  by (drule get_node_outcome) (simp add: keeps_def)

lemma resolve_keeps: "resolve_node os u h p v out s = ((rc, n), s') \<Longrightarrow> keeps s s'"
  by (drule resolve_node_outcome) (simp add: keeps_def)

lemma delete_keeps: "tumgrd_db_delete_node os h p u v s = (rc, s') \<Longrightarrow> keeps s s'"
  using delete_db_ok [of os h p u v s rc s'] delete_outcome [of os h p u v s rc s'] by (auto simp: keeps_def)

lemma upsert_keeps:
  assumes "tumgrd_db_upsert_node os n sl s = (rc, s')" "node_wf n" "1 \<le> n_server_port n"
    "n_server_port n \<le> 65535" "1 \<le> n_client_port n" "n_client_port n \<le> 65535"
    "db_ok (tbl (db s)) \<Longrightarrow> lookup (tbl (db s)) (node_key n) = None \<Longrightarrow> n_rotation_state n = 0 \<and> n_xor_key_pending n = []"
  shows "keeps s s'"
  using upsert_db_ok [OF assms(1) _ assms(2-6)] assms(7) upsert_outcome [OF assms(1)] by (auto simp: keeps_def)

text \<open>
  The node that a valid request leads to: storable, with the key of the request, and with
  rotation columns of its own only if the database has its row.
\<close>

definition reg_ready :: "'w sys \<Rightarrow> string \<Rightarrow> tumgrd_node \<Rightarrow> bool" where
  "reg_ready s action n \<longleftrightarrow> node_wf n \<and> 1 \<le> n_server_port n \<and> n_server_port n \<le> 65535 \<and>
     1 \<le> n_client_port n \<and> n_client_port n \<le> 65535 \<and>
     (if action = ''created'' then n_rotation_state n = 0 \<and> n_xor_key_pending n = []
      else db_ok (tbl (db s)) \<longrightarrow> lookup (tbl (db s)) (node_key n) \<noteq> None)"

lemma register_args_valid:
  assumes "register_args tb = Some (uid, h, p, c, v)"
  shows "is_safe_id (Some uid) \<and> 0 < p \<and> p \<le> 65535 \<and> 0 < c \<and> c \<le> 65535 \<and> v \<in> {[], ''ipv4'', ''ipv6''}"
  using assms
  by (auto simp: register_args_def get_normalized_ip_version_def normalize_ip_version_def copy_string_def
      snprintf_s_def Let_def split: if_splits prod.splits)

lemma register_fields_simps [simp]:
  "n_rotation_state (register_key tb u h p c n) = n_rotation_state n"
  "n_xor_key_pending (register_key tb u h p c n) = n_xor_key_pending n"
  "n_xor_key (register_key tb u h p c n) = n_xor_key n"
  "n_rotation_state (register_optional tb v n) = n_rotation_state n"
  "n_xor_key_pending (register_optional tb v n) = n_xor_key_pending n"
  "n_xor_key (register_optional tb v n) = n_xor_key n"
  "n_uid (register_optional tb v n) = n_uid n" "n_server_host (register_optional tb v n) = n_server_host n"
  "n_server_port (register_optional tb v n) = n_server_port n"
  "n_client_port (register_optional tb v n) = n_client_port n" "n_psk (register_optional tb v n) = n_psk n"
  "n_ip_version (register_optional tb v n) = snprintf_s 16 v"
  by (simp_all add: register_key_def register_optional_def Let_def)

lemma register_key_wf: "node_wf n \<Longrightarrow> node_wf (register_key tb u h p c n)"
  by (simp add: node_wf_def register_key_def cstr)

lemma register_optional_wf: "node_wf n \<Longrightarrow> node_wf (register_optional tb v n)"
  by (simp add: node_wf_def register_optional_def cstr Let_def)

lemma register_xor_outcome:
  assumes "register_xor tb n = Some m"
  shows "(m = n \<or> n_rotation_state n = 0 \<and> (\<exists>x. m = n\<lparr>n_xor_key := snprintf_s 129 x\<rparr>))"
  using assms by (auto simp: register_xor_def rotation_states Let_def split: if_splits)

lemma register_lifetime_outcome:
  assumes "register_lifetime tb sl n = Some (m, sl')"
  shows "\<exists>l. m = n\<lparr>n_lifetime := l\<rparr>"
  using assms by (auto simp: register_lifetime_def Let_def split: if_splits intro: exI [of _ "n_lifetime n"])

lemma reg_ready_update:
  assumes "reg_ready s action n"
  shows "reg_ready s action (n\<lparr>n_xor_key := snprintf_s 129 x\<rparr>)" "reg_ready s action (n\<lparr>n_lifetime := l\<rparr>)"
  using assms by (auto simp: reg_ready_def node_wf_def node_key_def cstr)

lemma register_apply_keeps:
  assumes "pipe_fds_ok os"
  shows "rsat (register_apply bits os cfg action node s) (\<lambda>_ s'. keeps s s')"
  unfolding register_apply_def Let_def
  by (intro vcg rsat_conseq [OF reconcile_one_keeps [OF assms]])
     (auto dest: get_keeps elim: keeps_trans)

lemma register_store_keeps:
  assumes "pipe_fds_ok os" "reg_ready s action node"
  shows "rsat (register_store bits os cfg tb action node s) (\<lambda>_ s'. keeps s s')"
proof -
  have app: "rsat (register_apply bits os cfg action n t) (\<lambda>_ s'. keeps s s')" if "keeps s t" for n t
    by (rule rsat_conseq [OF register_apply_keeps [OF assms(1)]]) (rule keeps_trans [OF that])
  have up: "keeps s t"
    if x: "register_xor tb node = Some m" and l: "register_lifetime tb b m = Some (n, sl)"
      and u: "tumgrd_db_upsert_node os n sl s = (rc, t)" for m b n sl rc t
  proof -
    have "reg_ready s action m" using register_xor_outcome [OF x] reg_ready_update(1) assms(2) by auto
    then have "reg_ready s action n" using register_lifetime_outcome [OF l] reg_ready_update(2) by auto
    then show ?thesis
      by (intro upsert_keeps [OF u]) (auto simp: reg_ready_def split: if_splits)
  qed
  show ?thesis
    unfolding register_store_def Let_def
    by (intro vcg app) (use up in auto)
qed

text \<open>A node that is not in the database starts with the default lifetime and empty columns.\<close>

definition new_node :: "tumgrd_config \<Rightarrow> int \<Rightarrow> tumgrd_node" where
  "new_node cfg la = zero_node\<lparr>n_lifetime := cfg_default_lifetime cfg, n_last_applied_at := la\<rparr>"

lemma new_node_fields [simp]:
  "node_wf (new_node cfg la)" "n_rotation_state (new_node cfg la) = 0" "n_xor_key_pending (new_node cfg la) = []"
  "n_xor_key (new_node cfg la) = []" "n_description (new_node cfg la) = []"
  "n_client_comment (new_node cfg la) = []" "\<not> n_has_memlimit (new_node cfg la)"
  "n_memlimit (new_node cfg la) = 0" "n_ip_check_url (new_node cfg la) = []"
  "n_lifetime (new_node cfg la) = cfg_default_lifetime cfg"
  using zero_node_wf by (simp_all add: new_node_def node_wf_def zero_node_def)

lemma register_base_outcome:
  assumes "register_base os cfg rc old s = (n, s')"
  shows "db s' = db s \<and> rt s' = rt s \<and>
    (rc = 0 \<and> n = old \<or> rc \<noteq> 0 \<and> (\<exists>la. n = new_node cfg la))"
  using assms
  by (auto simp: register_base_def new_node_def split: if_splits prod.splits dest: ext_frame)

lemma register_new_key_post:
  assumes "action = ''created'' \<longrightarrow> n_xor_key node = []"
  shows "rsat (register_new_key os cfg action node s) (\<lambda>(rc, m) t. db t = db s \<and> rt t = rt s \<and>
    (rc = 0 \<longrightarrow> (\<exists>x. m = node\<lparr>n_xor_key := x\<rparr> \<and>
       (if action = ''created'' \<and> cfg_enable_xor cfg then fresh_key x else x = n_xor_key node))))"
proof (cases "action = ''created'' \<and> cfg_enable_xor cfg")
  case True
  with assms have key: "n_xor_key node = []" by simp
  show ?thesis
    unfolding register_new_key_def key if_P [OF True]
    by (intro vcg rsat_conseq [OF fresh_key_rsat [of os s]]) (use True in \<open>auto split: prod.splits\<close>)
next
  case False
  have e: "register_new_key os cfg action node s = Some ((0, node), s)"
    unfolding register_new_key_def if_not_P [OF False] ..
  have "node = node\<lparr>n_xor_key := n_xor_key node\<rparr>" by simp
  moreover have "if action = ''created'' \<and> cfg_enable_xor cfg then fresh_key (n_xor_key node)
      else n_xor_key node = n_xor_key node" unfolding if_not_P [OF False] ..
  ultimately show ?thesis unfolding e by (intro rsat_return) blast
qed

section \<open>What a registration starts from\<close>

text \<open>
  The node that \<open>handle_register\<close> hands to \<open>register_store\<close>: the key and the fields of the
  request over the stored node, or over a new one with no key or a fresh random one.
\<close>

definition reg_start ::
  "'w os \<Rightarrow> tumgrd_config \<Rightarrow> 'w sys \<Rightarrow> blob_attr nullable list \<Rightarrow> string \<Rightarrow> tumgrd_node \<Rightarrow> bool" where
  "reg_start os cfg s tb action node \<longleftrightarrow> (\<exists>uid h p c v n x. register_args tb = Some (uid, h, p, c, v) \<and>
     node = register_optional tb v ((register_key tb uid h p c n)\<lparr>n_xor_key := x\<rparr>) \<and>
     (action = ''updated'' \<and> x = n_xor_key n \<and>
        (\<exists>r t u. lookup (tbl (db s)) (h, p, uid, v) = Some r \<and> row_to_node os r t = (n, u)) \<or>
      action = ''created'' \<and> lookup (tbl (db s)) (h, p, uid, v) = None \<and> (\<exists>la. n = new_node cfg la) \<and>
        (if cfg_enable_xor cfg then fresh_key x else x = [])))"

text \<open>The rule for \<open>handle_register\<close>: a request that is not answered has touched nothing.\<close>

lemma handle_register_rule:
  assumes refused: "\<And>st t. db t = db s \<Longrightarrow> rt t = rt s \<Longrightarrow> st \<noteq> UBUS_STATUS_OK \<Longrightarrow> Q (st, None) t"
    and store: "\<And>action node t. reg_start os cfg s (bus_blobmsg_parse bus reg_policy msg) action node \<Longrightarrow>
      db t = db s \<Longrightarrow> rt t = rt s \<Longrightarrow>
      rsat (register_store bits os cfg (bus_blobmsg_parse bus reg_policy msg) action node t) Q"
  shows "rsat (handle_register bits os bus cfg msg s) Q"
proof -
  let ?tb = "bus_blobmsg_parse bus reg_policy msg"
  show ?thesis
  proof (cases "register_args ?tb")
    case None
    then show ?thesis by (simp add: handle_register_def rsat_def refused)
  next
    case (Some a)
    obtain uid h p c v where a: "a = (uid, h, p, c, v)" by (metis surj_pair)
    note args = Some [unfolded a]
    obtain rc old t where get: "tumgrd_db_get_node os h p uid v zero_node s = ((rc, old), t)" by (metis surj_pair)
    obtain n u where base: "register_base os cfg rc old t = (n, u)" by fastforce
    note g = get_node_outcome [OF get] and b = register_base_outcome [OF base]
    have fr: "db u = db s" "rt u = rt s" "db t = db s" "rt t = rt s" using g b by simp_all
    show ?thesis
    proof (cases "rc = 0 \<or> rc = 1")
      case False
      then show ?thesis using args get fr refused by (simp add: handle_register_def rsat_def)
    next
      case rc: True
      let ?act = "if rc = 0 then ''updated'' else ''created''"
      let ?m = "register_key ?tb uid h p c n"
      have new: "?act = ''created'' \<longrightarrow> n_xor_key ?m = []" using b by auto
      have start: "reg_start os cfg s ?tb ?act (register_optional ?tb v (?m\<lparr>n_xor_key := x\<rparr>))"
        if "if rc \<noteq> 0 \<and> cfg_enable_xor cfg then fresh_key x else x = n_xor_key ?m" for x
        unfolding reg_start_def
      proof (rule exI [of _ uid], rule exI [of _ h], rule exI [of _ p], rule exI [of _ c], rule exI [of _ v],
          rule exI [of _ n], rule exI [of _ x], intro conjI refl args)
        show "?act = ''updated'' \<and> x = n_xor_key n \<and>
            (\<exists>r t u. lookup (tbl (db s)) (h, p, uid, v) = Some r \<and> row_to_node os r t = (n, u)) \<or>
          ?act = ''created'' \<and> lookup (tbl (db s)) (h, p, uid, v) = None \<and> (\<exists>la. n = new_node cfg la) \<and>
            (if cfg_enable_xor cfg then fresh_key x else x = [])"
          using g b rc that by (cases "rc = 0") (auto split: if_splits)
      qed
      have "rsat (do { ((rc, node), s) \<leftarrow> register_new_key os cfg ?act ?m u;
          if rc \<noteq> 0 then Some ((UBUS_STATUS_UNKNOWN_ERROR, None), s)
          else register_store bits os cfg ?tb ?act (register_optional ?tb v node) s }) Q"
        by (intro vcg rsat_conseq [OF register_new_key_post [OF new]])
           (use store [OF start] refused fr in \<open>auto split: if_splits\<close>)
      moreover have "\<not> (rc \<noteq> 0 \<and> rc \<noteq> 1)" using rc by blast
      ultimately show ?thesis unfolding handle_register_def args Let_def by (simp add: get base) (use rc in blast)
    qed
  qed
qed

lemma reg_start_ready:
  assumes "reg_start os cfg s tb action node" "db t = db s"
  shows "reg_ready t action node"
proof -
  obtain uid h p c v n x where args: "register_args tb = Some (uid, h, p, c, v)"
    and node: "node = register_optional tb v ((register_key tb uid h p c n)\<lparr>n_xor_key := x\<rparr>)"
    and or: "action = ''updated'' \<and> x = n_xor_key n \<and>
        (\<exists>r t u. lookup (tbl (db s)) (h, p, uid, v) = Some r \<and> row_to_node os r t = (n, u)) \<or>
      action = ''created'' \<and> lookup (tbl (db s)) (h, p, uid, v) = None \<and> (\<exists>la. n = new_node cfg la) \<and>
        (if cfg_enable_xor cfg then fresh_key x else x = [])"
    using assms(1) unfolding reg_start_def by blast
  note a = register_args_valid [OF args]
  have wf: "node_wf n" using or row_to_node_wf by auto
  then have "length x < 129" using or by (auto simp: node_wf_def fresh_key_def split: if_splits)
  then have "node_wf ((register_key tb uid h p c n)\<lparr>n_xor_key := x\<rparr>)"
    using register_key_wf [OF wf, of tb uid h p c] by (simp add: node_wf_def)
  then have 1: "node_wf node" unfolding node by (rule register_optional_wf)
  have 2: "n_server_port node = p" "n_client_port node = c" by (simp_all add: node register_key_def)
  have 3: "lookup (tbl (db t)) (node_key node) \<noteq> None" if ok: "db_ok (tbl (db t))" and z: "action \<noteq> ''created''"
  proof -
    obtain r where r: "lookup (tbl (db s)) (h, p, uid, v) = Some r" using or z by auto
    then have "row_wf r \<and> pk r = (h, p, uid, v)" using ok assms(2) lookup_SomeD [OF r] by (simp add: db_ok_def)
    then have "length uid < 128" "length h < 256" "length v < 16" by (auto simp: row_wf_def pk_def)
    then have "node_key node = (h, p, uid, v)" by (simp add: node node_key_def register_key_def snprintf_s_def)
    with r assms(2) show ?thesis by simp
  qed
  have 4: "n_rotation_state node = 0 \<and> n_xor_key_pending node = []" if "action = ''created''"
    using or that by (auto simp: node)
  show ?thesis unfolding reg_ready_def using 1 2 3 4 a by simp
qed

lemma handle_register_keeps:
  assumes "pipe_fds_ok os"
  shows "rsat (handle_register bits os bus cfg msg s) (\<lambda>_ s'. keeps s s')"
proof (rule handle_register_rule)
  fix action node and t :: "'a sys"
  assume "reg_start os cfg s (bus_blobmsg_parse bus reg_policy msg) action node" and t: "db t = db s" "rt t = rt s"
  then have "reg_ready t action node" using reg_start_ready by blast
  then show "rsat (register_store bits os cfg (bus_blobmsg_parse bus reg_policy msg) action node t) (\<lambda>_ s'. keeps s s')"
    by (rule rsat_conseq [OF register_store_keeps [OF assms]]) (use t in \<open>simp add: keeps_def\<close>)
qed (simp add: keeps_def)

lemma handle_deregister_keeps:
  assumes "pipe_fds_ok os"
  shows "rsat (handle_deregister os bus msg s) (\<lambda>_ s'. keeps s s')"
proof -
  have srv: "rsat (tumgrd_runner_server_del os n t) (\<lambda>_ s'. keeps s s')" if "keeps s t" for n t
    by (rule rsat_conseq [OF tool_keeps(2) [OF assms]]) (use keeps_trans [OF that] in \<open>simp add: pass_keeps_def\<close>)
  have cli: "rsat (tumgrd_runner_client_del os n t) (\<lambda>_ s'. keeps s s')" if "keeps s t" for n t
    by (rule rsat_conseq [OF tool_keeps(3) [OF assms]]) (use keeps_trans [OF that] in \<open>simp add: pass_keeps_def\<close>)
  show ?thesis
    unfolding handle_deregister_def Let_def
    by (intro vcg rsat_conseq [OF srv] rsat_conseq [OF cli])
       (auto dest: resolve_keeps delete_keeps elim: keeps_trans)
qed

lemma refresh_one_keeps:
  assumes "pipe_fds_ok os"
  shows "rsat (refresh_one bits os cfg node force s) (\<lambda>_ s'. keeps s s')"
  unfolding refresh_one_def Let_def
  by (intro vcg rsat_conseq [OF reconcile_one_keeps [OF assms]])
     (auto dest: get_keeps elim: keeps_trans)

lemma handle_refresh_keeps:
  assumes "pipe_fds_ok os"
  shows "rsat (handle_refresh bits os bus cfg msg s) (\<lambda>_ s'. keeps s s')"
proof -
  have one: "rsat (refresh_one bits os cfg n f t) (\<lambda>_ s'. keeps s s')" if "keeps s t" for n f t
    by (rule rsat_conseq [OF refresh_one_keeps [OF assms]]) (rule keeps_trans [OF that])
  show ?thesis
    unfolding handle_refresh_def refresh_all_def Let_def
    by (intro vcg rsat_conseq [OF reconcile_all_keeps [OF assms]] one) (auto dest: resolve_keeps)
qed

lemma handle_status_keeps: "rsat (handle_status os s) (\<lambda>_ s'. keeps s s')"
  unfolding handle_status_def by (intro vcg) (auto dest: list_nodes_keeps [OF sym])

section \<open>Every handler returns\<close>

lemma on_guarded: "keeps s s' \<Longrightarrow> guarded s \<Longrightarrow> guarded s'"
  by (simp add: keeps_guarded)

text \<open>An orderly call that returns is a service.\<close>

lemma tsat_keeps:
  assumes "tsat m (\<lambda>_ s'. guarded s')" "rsat m (\<lambda>_ s'. keeps s s')"
  shows "tsat m (\<lambda>_ s'. keeps s s' \<and> guarded s')"
  using assms by (auto simp: tsat_def rsat_def)

lemma register_apply_total:
  assumes "daemon_live rank dead os" "guarded s"
  shows "tsat (register_apply bits os cfg action node s) (\<lambda>_ s'. guarded s')"
  unfolding register_apply_def Let_def
  by (intro tvcg tsat_conseq [OF reconcile_one_total [OF assms]])
     (auto dest: get_keeps keeps_guarded)

lemma register_store_total:
  assumes "daemon_live rank dead os" "guarded s"
  shows "tsat (register_store bits os cfg tb action node s) (\<lambda>_ s'. guarded s')"
proof -
  have "guarded t" if "tumgrd_db_upsert_node os n sl s = (rc, t)" for n sl rc t
    using upsert_outcome [OF that] assms(2) guarded_rt by blast
  then show ?thesis
    unfolding register_store_def Let_def
    by (intro tvcg register_apply_total [OF assms(1)]) (use assms(2) in auto)
qed

lemma register_new_key_total:
  assumes "daemon_live rank dead os" "guarded s"
  shows "tsat (register_new_key os cfg action node s) (\<lambda>_ s'. guarded s')"
  unfolding register_new_key_def
  by (intro tvcg tsat_conseq [OF fresh_key_total [OF assms(1)]]) (use assms(2) guarded_rt in auto)

lemma handle_register_total:
  assumes "daemon_live rank dead os" "guarded s"
  shows "tsat (handle_register bits os bus cfg msg s) (\<lambda>_ s'. guarded s')"
proof -
  have get: "guarded t" if "tumgrd_db_get_node os h p u v out s = ((rc, n), t)" for h p u v out rc n t
    using keeps_guarded [OF get_keeps [OF that]] assms(2) by simp
  have base: "guarded u" if "register_base os cfg rc old t = (n, u)" "guarded t" for rc old t n u
    using register_base_outcome [OF that(1)] that(2) guarded_rt by blast
  show ?thesis
    unfolding handle_register_def Let_def
    by (intro tvcg tsat_conseq [OF register_new_key_total [OF assms(1)]] register_store_total [OF assms(1)])
       (use get base assms(2) in \<open>auto dest: sym\<close>)
qed

lemma handle_deregister_total:
  assumes "daemon_live rank dead os" "guarded s"
  shows "tsat (handle_deregister os bus msg s) (\<lambda>_ s'. guarded s')"
proof -
  have res: "guarded t" if "resolve_node os u h p v out s = ((rc, n), t)" for h p u v out rc n t
    using keeps_guarded [OF resolve_keeps [OF that]] assms(2) by simp
  show ?thesis
    unfolding handle_deregister_def Let_def
    by (intro tvcg tsat_conseq [OF tool_total(2) [OF assms(1)]] tsat_conseq [OF tool_total(3) [OF assms(1)]])
       (use res assms(2) in \<open>auto dest: keeps_guarded [OF delete_keeps]\<close>)
qed

lemma refresh_one_total:
  assumes "daemon_live rank dead os" "guarded s"
  shows "tsat (refresh_one bits os cfg node force s) (\<lambda>_ s'. guarded s')"
  unfolding refresh_one_def Let_def
  by (intro tvcg tsat_conseq [OF reconcile_one_total [OF assms]])
     (auto dest: get_keeps keeps_guarded)

lemma handle_refresh_total:
  assumes "daemon_live rank dead os" "guarded s"
  shows "tsat (handle_refresh bits os bus cfg msg s) (\<lambda>_ s'. guarded s')"
proof -
  have res: "guarded t" if "resolve_node os u h p v out s = ((rc, n), t)" for h p u v out rc n t
    using keeps_guarded [OF resolve_keeps [OF that]] assms(2) by simp
  show ?thesis
    unfolding handle_refresh_def refresh_all_def Let_def
    by (intro tvcg tsat_conseq [OF reconcile_all_total [OF assms]] refresh_one_total [OF assms(1)])
       (use res assms(2) in auto)
qed

lemma handle_status_total:
  assumes "guarded s"
  shows "tsat (handle_status os s) (\<lambda>_ s'. guarded s')"
proof -
  have "guarded t" if "tumgrd_db_list_nodes os s = ((rc, ns), t)" for rc ns t
    using keeps_guarded [OF list_nodes_keeps [OF that]] assms by simp
  then show ?thesis
    unfolding handle_status_def by (intro tvcg) (auto dest: sym)
qed

interpretation register: service "\<lambda>os. handle_register bits os bus cfg msg"
  by unfold_locales (use handle_register_keeps handle_register_total in blast)+

interpretation deregister: service "\<lambda>os. handle_deregister os bus msg"
  by unfold_locales (use handle_deregister_keeps handle_deregister_total in blast)+

interpretation refresh: service "\<lambda>os. handle_refresh bits os bus cfg msg"
  by unfold_locales (use handle_refresh_keeps handle_refresh_total in blast)+

interpretation status: service handle_status
  by unfold_locales (use handle_status_keeps handle_status_total in blast)+

interpretation request: service "\<lambda>os. handle_request bits os bus cfg m msg"
proof
  show "rsat (handle_request bits os bus cfg m msg s) (\<lambda>_ s'. keeps s s')" if "pipe_fds_ok os" for os s
    using register.orderly [OF that] deregister.orderly [OF that] refresh.orderly [OF that]
      status.orderly [OF that]
    by (cases m) simp_all
  show "tsat (handle_request bits os bus cfg m msg s) (\<lambda>_ s'. guarded s')"
    if "daemon_live rank dead os" "guarded s" for rank dead os s
    using register.answers [OF that] deregister.answers [OF that] refresh.answers [OF that]
      status.answers [OF that]
    by (cases m) simp_all
qed

section \<open>A concrete bus\<close>

text \<open>A bus on which every call succeeds; \<open>blobmsg_parse\<close> takes the first attribute of the right name and type.\<close>

fun attr_has_type :: "blob_type \<Rightarrow> blob_attr \<Rightarrow> bool" where
  "attr_has_type BLOBMSG_TYPE_STRING (BStr _) = True"
| "attr_has_type BLOBMSG_TYPE_INT32 (BU32 _) = True"
| "attr_has_type BLOBMSG_TYPE_BOOL (BU8 _) = True"
| "attr_has_type _ _ = False"

definition demo_parse :: "(string \<times> blob_type) list \<Rightarrow> blob_msg \<Rightarrow> blob_attr nullable list" where
  "demo_parse policy msg = map (\<lambda>(name, type).
     map_option snd (find (\<lambda>(n, a). n = name \<and> attr_has_type type a) msg)) policy"

definition demo_bus :: "'w bus" where
  "demo_bus = \<lparr>bus_blobmsg_parse = demo_parse, bus_connect = (\<lambda>_ w. (True, w)),
     bus_register_event_handler = (\<lambda>w. (0, w)), bus_add_object = (\<lambda>w. (0, w)), bus_uloop_init = (\<lambda>w. (0, w))\<rparr>"

end
