(* ===== verification/Tumgrd_Main.thy ===== *)
theory Tumgrd_Main
  imports Tumgrd_Ubus
begin

text \<open>
  \<open>src/src/main.c\<close> and \<open>src/src/log_impl.c\<close>: options, start, event loop and shutdown.
\<close>

section \<open>Log lines\<close>

definition LOG_ERROR :: int where "LOG_ERROR = 0"
definition LOG_WARN :: int where "LOG_WARN = 1"
definition LOG_INFO :: int where "LOG_INFO = 2"
definition LOG_DEBUG :: int where "LOG_DEBUG = 3"
definition LOG_TRACE :: int where "LOG_TRACE = 4"

definition esc :: "string \<Rightarrow> string" where "esc code = CHR 0x1B # ''['' @ code @ ''m''"

definition log_prefixes :: "(string \<times> string) list" where
  "log_prefixes =
     [(esc ''1'' @ esc ''31'', ''Error''), (esc ''1'' @ esc ''33'', '' Warn''),
      (esc ''1'' @ esc ''32'', '' Info''), (esc ''1'' @ esc ''34'', ''Debug''),
      (esc ''1'' @ esc ''90'', ''Trace'')]"

text \<open>What \<open>log_any\<close> writes to \<open>stderr\<close> for the formatted \<open>text\<close>.\<close>

definition log_any :: "int \<Rightarrow> int \<Rightarrow> string \<Rightarrow> string" where
  "log_any log_verbosity level text =
     (let level = (if level < LOG_ERROR then LOG_ERROR else level);
          level = (if level > LOG_TRACE then LOG_TRACE else level)
      in if log_verbosity \<ge> level then
           fst (log_prefixes ! nat level) @ snd (log_prefixes ! nat level) @ '' '' @ esc ''0'' @
           (if level \<ge> LOG_TRACE then esc ''90'' else []) @ text @
           (if level \<ge> LOG_TRACE then esc ''0'' else []) @ [CHR 0x0A]
         else [])"

section \<open>Options\<close>

definition DEFAULT_INTERVAL :: "32 word" where "DEFAULT_INTERVAL = 60"
definition DEFAULT_LOG_LEVEL :: string where "DEFAULT_LOG_LEVEL = ''info''"
definition TUMGRD_IPDETECT_FWMARK :: int where "TUMGRD_IPDETECT_FWMARK = 2"

definition config_init :: tumgrd_config where
  "config_init = \<lparr>cfg_db_path = TUMGRD_DB_PATH, cfg_socket_path = None,
     cfg_log_level = DEFAULT_LOG_LEVEL, cfg_interval_sec = DEFAULT_INTERVAL, cfg_enable_xor = False,
     cfg_use_client_ip = True, cfg_fwmark = TUMGRD_IPDETECT_FWMARK, cfg_default_lifetime = 0\<rparr>"

text \<open>
  What \<open>getopt_long\<close> answers for the options of \<open>long_opts\<close> and \<open>"d:i:s:h"\<close>, one value per
  call up to -1, with \<open>optarg\<close>; \<open>OptBad\<close> is the \<open>'?'\<close> of an unknown option or a missing
  argument. How it splits \<open>argv\<close> into these and the positional arguments is left to it.
\<close>

datatype opt = OptDatabase string | OptInterval string | OptSocket string | OptLogLevel string
  | OptEnableXor | OptDisableXor | OptFwmark string | OptUseClientIp | OptNoClientIp
  | OptLifetime string | OptHelp | OptBad

text \<open>One turn of the \<open>switch\<close>: NULL continues the loop, a number is \<open>err\<close>.\<close>

fun parse_opt :: "nat \<Rightarrow> opt \<Rightarrow> tumgrd_config \<Rightarrow> int nullable \<times> tumgrd_config" where
  "parse_opt bits (OptDatabase optarg) cfg = (None, cfg\<lparr>cfg_db_path := optarg\<rparr>)"
| "parse_opt bits (OptInterval optarg) cfg =
     (let (err, v) = parse_interval bits optarg (cfg_interval_sec cfg)
      in (if err < 0 then Some err else None, cfg\<lparr>cfg_interval_sec := v\<rparr>))"
| "parse_opt bits (OptSocket optarg) cfg = (None, cfg\<lparr>cfg_socket_path := Some optarg\<rparr>)"
| "parse_opt bits (OptLogLevel optarg) cfg = (None, cfg\<lparr>cfg_log_level := optarg\<rparr>)"
| "parse_opt bits OptEnableXor cfg = (None, cfg\<lparr>cfg_enable_xor := True\<rparr>)"
| "parse_opt bits OptDisableXor cfg = (None, cfg\<lparr>cfg_enable_xor := False\<rparr>)"
| "parse_opt bits (OptFwmark optarg) cfg =
     (case strtol bits 10 optarg of (val, endptr, erange) \<Rightarrow>
        if endptr = None \<or> endptr \<noteq> Some [] \<or> val < 0 \<or> val > 255 then (Some (- 1), cfg)
        else (None, cfg\<lparr>cfg_fwmark := val\<rparr>))"
| "parse_opt bits OptUseClientIp cfg = (None, cfg\<lparr>cfg_use_client_ip := True\<rparr>)"
| "parse_opt bits OptNoClientIp cfg = (None, cfg\<lparr>cfg_use_client_ip := False\<rparr>)"
| "parse_opt bits (OptLifetime optarg) cfg =
     (let (err, v) = parse_lifetime optarg (cfg_default_lifetime cfg)
      in (if err < 0 then Some err else None, cfg\<lparr>cfg_default_lifetime := v\<rparr>))"
| "parse_opt bits OptHelp cfg = (Some 1, cfg)"
| "parse_opt bits OptBad cfg = (Some (- 1), cfg)"

text \<open>The loop over the options, then the check for positional arguments.\<close>

fun parse_args :: "nat \<Rightarrow> opt list \<Rightarrow> string list \<Rightarrow> tumgrd_config \<Rightarrow> int \<times> tumgrd_config" where
  "parse_args bits [] positional cfg = (if positional \<noteq> [] then (- 1, cfg) else (0, cfg))"
| "parse_args bits (c # cs) positional cfg =
     (let (err, cfg) = parse_opt bits c cfg
      in case err of Some err \<Rightarrow> (err, cfg) | None \<Rightarrow> parse_args bits cs positional cfg)"

definition parse_log_level :: "string nullable \<Rightarrow> int \<Rightarrow> int \<times> int" where
  "parse_log_level s out =
     (if s = None \<or> s = Some [] then (- 1, out)
      else if streqcase s (Some ''error'') then (0, LOG_ERROR)
      else if streqcase s (Some ''warn'') then (0, LOG_WARN)
      else if streqcase s (Some ''info'') then (0, LOG_INFO)
      else if streqcase s (Some ''debug'') then (0, LOG_DEBUG)
      else if streqcase s (Some ''trace'') then (0, LOG_TRACE)
      else (- 1, out))"

section \<open>The event loop\<close>

text \<open>
  What uloop can deliver: a request to the object, a network event, a timer that is due, and
  SIGINT or SIGTERM, whose handler ends the loop. Only pending timers fire, a request needs
  the object on the bus and an event its registration; the rest is ignored.
\<close>

datatype daemon_event =
    Request ubus_method blob_msg
  | NetEvent "blob_msg nullable"
  | StartupTimer
  | PeriodicTimer

definition dispatch ::
  "nat \<Rightarrow> bool \<Rightarrow> 'w os \<Rightarrow> 'w bus \<Rightarrow> daemon_event \<Rightarrow> 'w ctx \<Rightarrow> (unit \<times> 'w ctx) option" where
  "dispatch bits uci_enabled os bus e c =
     (case e of
        Request m msg \<Rightarrow>
          if ctx_ubus c \<and> ctx_ubus_obj_added c
          then do { (_, c) \<leftarrow> on_sys (handle_request bits os bus (ctx_cfg c) m msg) c; Some ((), c) }
          else Some ((), c)
      | NetEvent msg \<Rightarrow>
          if ctx_ubus c \<and> ctx_net_event_registered c then net_event_cb bits uci_enabled os bus msg c
          else Some ((), c)
      | StartupTimer \<Rightarrow>
          if ctx_startup_timer c \<noteq> None
          then startup_reconcile_timer_cb bits os (c\<lparr>ctx_startup_timer := None\<rparr>) else Some ((), c)
      | PeriodicTimer \<Rightarrow>
          if ctx_periodic_timer c \<noteq> None
          then periodic_reconcile_timer_cb bits os (c\<lparr>ctx_periodic_timer := None\<rparr>) else Some ((), c))"

text \<open>\<open>uloop_run\<close> until \<open>signal_handler\<close> calls \<open>uloop_end\<close>, at the end of the list.\<close>

fun uloop_run ::
  "nat \<Rightarrow> bool \<Rightarrow> 'w os \<Rightarrow> 'w bus \<Rightarrow> daemon_event list \<Rightarrow> 'w ctx \<Rightarrow> (unit \<times> 'w ctx) option" where
  "uloop_run bits uci_enabled os bus [] c = Some ((), c)"
| "uloop_run bits uci_enabled os bus (e # es) c =
     do { (_, c) \<leftarrow> dispatch bits uci_enabled os bus e c; uloop_run bits uci_enabled os bus es c }"

section \<open>main\<close>

text \<open>From \<open>set_ipdetect_fwmark\<close> to \<open>uloop_run\<close>, with \<open>err\<close> and \<open>db_opened\<close>.\<close>

definition main_start ::
  "'w os \<Rightarrow> 'w bus \<Rightarrow> 'w ctx \<Rightarrow> (int \<times> bool) \<times> 'w ctx" where
  "main_start os bus c =
     (let c = c\<lparr>ctx_sys := set_ipdetect_fwmark (cfg_fwmark (ctx_cfg c)) (ctx_sys c)\<rparr>;
          c = c\<lparr>ctx_sys := tumgrd_runner_install_watchdog os (ctx_sys c)\<rparr>;
          (err, s) = tumgrd_db_open os (Some (cfg_db_path (ctx_cfg c))) (ctx_sys c);
          c = c\<lparr>ctx_sys := s\<rparr>
      in if err < 0 then ((err, False), c)
         else
           let (err, s) = tumgrd_db_init_schema os (ctx_sys c);
               c = c\<lparr>ctx_sys := s\<rparr>
           in if err < 0 then ((err, True), c)
              else
                let (err, c) = tumgrd_ubus_init bus c
                in if err < 0 then ((err, True), c) else ((0, True), c))"

text \<open>The code at \<open>err_cleanup\<close>.\<close>

definition main_cleanup :: "bool \<Rightarrow> 'w ctx \<Rightarrow> 'w ctx" where
  "main_cleanup db_opened c =
     (let c = tumgrd_ubus_cleanup c;
          c = c\<lparr>ctx_startup_timer := None\<rparr>;
          c = c\<lparr>ctx_periodic_timer := None\<rparr>
      in if db_opened then c\<lparr>ctx_sys := tumgrd_db_close (ctx_sys c)\<rparr> else c)"

text \<open>The context that \<open>main\<close> starts with, in a process whose state is \<open>s\<close>.\<close>

definition zero_ctx :: "'w sys \<Rightarrow> 'w ctx" where
  "zero_ctx s = \<lparr>ctx_sys = s, ctx_cfg = config_init, ctx_ubus = False, ctx_net_event_registered = False,
     ctx_ubus_obj_added = False, ctx_startup_timer = None, ctx_periodic_timer = None\<rparr>"

definition tumgrd_main ::
  "nat \<Rightarrow> bool \<Rightarrow> 'w os \<Rightarrow> 'w bus \<Rightarrow> opt list \<Rightarrow> string list \<Rightarrow> daemon_event list \<Rightarrow> 'w sys
   \<Rightarrow> (int \<times> 'w ctx) option" where
  "tumgrd_main bits uci_enabled os bus opts positional events s =
     (let c = zero_ctx s;
          (err, cfg) = parse_args bits opts positional (ctx_cfg c);
          c = c\<lparr>ctx_cfg := cfg\<rparr>
      in if err > 0 then Some (0, c)
         else if err < 0 then Some (err, main_cleanup False c)
         else
           let (err, log_verbosity) = parse_log_level (Some (cfg_log_level cfg)) 2
           in if err < 0 then Some (err, main_cleanup False c)
              else
                let (err, c) = ctx_call (bus_uloop_init bus) c
                in if err < 0 then Some (err, main_cleanup False c)
                   else
                     let ((err, db_opened), c) = main_start os bus c
                     in if err < 0 then Some (err, main_cleanup db_opened c)
                        else
                          do { (_, c) \<leftarrow> uloop_run bits uci_enabled os bus events c;
                               Some (0, main_cleanup db_opened c) })"

section \<open>What a turn of the event loop keeps\<close>

text \<open>
  The context apart from the database handle, the runner and the startup timer is as before,
  and a periodic timer that was pending with the interval is so again.
\<close>

definition turn :: "'w ctx \<Rightarrow> 'w ctx \<Rightarrow> bool" where
  "turn c c' \<longleftrightarrow> keeps (ctx_sys c) (ctx_sys c') \<and> ctx_cfg c' = ctx_cfg c \<and> ctx_ubus c' = ctx_ubus c \<and>
     ctx_net_event_registered c' = ctx_net_event_registered c \<and>
     ctx_ubus_obj_added c' = ctx_ubus_obj_added c \<and>
     (ctx_periodic_timer c = Some (interval_ms (ctx_cfg c)) \<longrightarrow>
        ctx_periodic_timer c' = Some (interval_ms (ctx_cfg c)))"

lemma turn_refl [simp]: "turn c c"
  by (simp add: turn_def)

lemma turn_trans: "turn c d \<Longrightarrow> turn d e \<Longrightarrow> turn c e"
  unfolding turn_def using keeps_trans by metis

context service
begin

lemma on_ctx:
  assumes "pipe_fds_ok os"
  shows "rsat (on_sys (op os) c) (\<lambda>_ c'. \<exists>s'. keeps (ctx_sys c) s' \<and> c' = c\<lparr>ctx_sys := s'\<rparr>)"
  unfolding on_sys_def by (intro vcg rsat_conseq [OF orderly [OF assms]]) auto

lemma on_ctx_total:
  assumes "daemon_live rank dead os" "guarded (ctx_sys c)"
  shows "tsat (on_sys (op os) c) (\<lambda>_ c'. guarded (ctx_sys c'))"
  unfolding on_sys_def by (intro tvcg tsat_conseq [OF answers [OF assms]]) auto

end

lemma wan_frame: "check_wan_interface uci os i b s = (r, s') \<Longrightarrow> db s' = db s \<and> rt s' = rt s"
  by (auto simp: check_wan_interface_def split: if_splits prod.splits uci_answer.splits dest: ext_frame)

lemma net_event_turn:
  assumes "pipe_fds_ok os"
  shows "rsat (net_event_cb bits uci os bus msg c) (\<lambda>_ c'. turn c c')"
proof -
  have wan: "keeps (ctx_sys c) t" if "check_wan_interface uci os i False (ctx_sys c) = (r, t)" for i r t
    by (rule keeps_same [OF wan_frame [OF that]])
  have all: "rsat (on_sys (tumgrd_reconcile_all bits os (ctx_cfg d) True) d) (\<lambda>_ c'. turn c c')"
    if d: "d = c\<lparr>ctx_sys := t\<rparr>" "keeps (ctx_sys c) t" for d t
    by (rule rsat_conseq [OF reconcile_all.on_ctx [OF assms]])
       (use d keeps_trans [OF d(2)] in \<open>auto simp: turn_def\<close>)
  show ?thesis
    unfolding net_event_cb_def Let_def
    by (intro vcg rsat_conseq [OF all]) (use wan in \<open>auto simp: turn_def\<close>)
qed

lemma dispatch_turn:
  assumes "pipe_fds_ok os"
  shows "rsat (dispatch bits uci os bus e c) (\<lambda>_ c'. turn c c')"
proof (cases e)
  case (Request m msg)
  then show ?thesis
    unfolding dispatch_def daemon_event.case Request
    by (intro vcg rsat_conseq [OF request.on_ctx [OF assms]]) (auto simp: turn_def)
next
  case (NetEvent msg)
  show ?thesis
    unfolding dispatch_def NetEvent daemon_event.case
    by (intro vcg net_event_turn [OF assms]) simp
next
  case StartupTimer
  show ?thesis
    unfolding dispatch_def StartupTimer daemon_event.case startup_reconcile_timer_cb_def
    by (intro vcg rsat_conseq [OF reconcile_all.on_ctx [OF assms]]) (auto simp: turn_def)
next
  case PeriodicTimer
  show ?thesis
    unfolding dispatch_def PeriodicTimer daemon_event.case periodic_reconcile_timer_cb_def
    by (intro vcg rsat_conseq [OF reconcile_all.on_ctx [OF assms]]) (auto simp: turn_def)
qed

lemma uloop_run_turn:
  assumes "pipe_fds_ok os"
  shows "rsat (uloop_run bits uci os bus es c) (\<lambda>_ c'. turn c c')"
proof (induction es arbitrary: c)
  case (Cons e es)
  have rest: "rsat (uloop_run bits uci os bus es d) (\<lambda>_ c'. turn c c')" if "turn c d" for d
    by (rule rsat_conseq [OF Cons.IH]) (rule turn_trans [OF that])
  show ?case
    unfolding uloop_run.simps by (intro vcg rsat_conseq [OF dispatch_turn [OF assms]] rest) auto
qed (simp add: rsat_def)

lemma dispatch_total:
  assumes "daemon_live rank dead os" "guarded (ctx_sys c)"
  shows "tsat (dispatch bits uci os bus e c) (\<lambda>_ c'. guarded (ctx_sys c'))"
proof -
  have all: "tsat (on_sys (tumgrd_reconcile_all bits os cfg force) d) (\<lambda>_ c'. guarded (ctx_sys c'))"
    if "guarded (ctx_sys d)" for cfg force d
    by (rule reconcile_all.on_ctx_total [OF assms(1) that])
  have req: "tsat (on_sys (handle_request bits os bus cfg m msg) c) (\<lambda>_ c'. guarded (ctx_sys c'))" for cfg m msg
    by (rule request.on_ctx_total [OF assms])
  have wan: "guarded t" if "check_wan_interface uci os i False (ctx_sys c) = (r, t)" for i r t
    using wan_frame [OF that] guarded_rt assms(2) by blast
  show ?thesis
    unfolding dispatch_def net_event_cb_def startup_reconcile_timer_cb_def periodic_reconcile_timer_cb_def Let_def
    by (cases e; simp only: daemon_event.case; intro tvcg tsat_conseq [OF all] tsat_conseq [OF req])
       (use wan assms(2) in auto)
qed

lemma uloop_run_total:
  assumes "daemon_live rank dead os" "guarded (ctx_sys c)"
  shows "tsat (uloop_run bits uci os bus es c) (\<lambda>_ c'. guarded (ctx_sys c'))"
  using assms(2)
proof (induction es arbitrary: c)
  case (Cons e es)
  show ?case
    unfolding uloop_run.simps
    by (intro tvcg tsat_conseq [OF dispatch_total [OF assms(1) Cons.prems]] Cons.IH) auto
qed (simp add: tsat_def)

end
