(* ===== verification/Tumgrd_Requests.thy ===== *)
theory Tumgrd_Requests
  imports Tumgrd_Ubus
begin

text \<open>
  What the requests to the ubus object do: a refused request changes nothing, \<open>register\<close> stores
  and applies what it was asked for, \<open>deregister\<close> removes one row, and a forced \<open>refresh\<close> that
  answers \<open>ok\<close> has settled its nodes. The last section runs requests on a router whose external
  tools never answer.
\<close>

section \<open>Rejected requests\<close>

lemma register_store_quiet:
  assumes "Q (UBUS_STATUS_INVALID_ARGUMENT, None) s"
    and "\<And>st a t. st \<noteq> UBUS_STATUS_INVALID_ARGUMENT \<Longrightarrow> Q (st, a) t"
  shows "rsat (register_store bits os cfg tb action node s) Q"
  unfolding register_store_def register_apply_def Let_def
  by (intro vcg rsat_conseq [OF rsat_any]) (auto simp: assms)

lemma refused_register:
  "rsat (handle_register bits os bus cfg msg s) (\<lambda>(st, reply) t. st = UBUS_STATUS_INVALID_ARGUMENT \<longrightarrow>
     reply = None \<and> db t = db s \<and> rt t = rt s)"
  by (rule handle_register_rule) (simp, rule register_store_quiet, simp_all)

lemma refused_deregister:
  "rsat (handle_deregister os bus msg s) (\<lambda>(st, reply) t. st = UBUS_STATUS_INVALID_ARGUMENT \<longrightarrow>
     reply = None \<and> db t = db s \<and> rt t = rt s)"
  unfolding handle_deregister_def Let_def by (intro vcg rsat_conseq [OF rsat_any]) simp_all

lemma refused_refresh:
  "rsat (handle_refresh bits os bus cfg msg s) (\<lambda>(st, reply) t. st = UBUS_STATUS_INVALID_ARGUMENT \<longrightarrow>
     reply = None \<and> db t = db s \<and> rt t = rt s)"
  unfolding handle_refresh_def refresh_all_def refresh_one_def Let_def
  by (intro vcg rsat_conseq [OF rsat_any]) simp_all

text \<open>
  C16: A request that is refused as invalid, whatever the method, changes neither the database
  nor the state of the runner, starts no tool and sends no reply.
\<close>

theorem invalid_request_changes_nothing:
  assumes "handle_request bits os bus cfg m msg s = Some ((UBUS_STATUS_INVALID_ARGUMENT, reply), s')"
  shows "reply = None \<and> db s' = db s \<and> rt s' = rt s"
proof (cases m)
  case Register
  with rsatD [OF refused_register] assms show ?thesis by fastforce
next
  case Deregister
  with rsatD [OF refused_deregister] assms show ?thesis by fastforce
next
  case Refresh
  with rsatD [OF refused_refresh] assms show ?thesis by fastforce
qed (use assms in \<open>auto simp: handle_status_def Let_def split: prod.splits if_splits\<close>)

section \<open>What a registration asks for\<close>

text \<open>
  The row that a request \<open>tb\<close> stores, for the row \<open>old\<close> under its key, if there is one: what the
  request names is taken from it, everything else from \<open>old\<close> or the defaults of a new node.
\<close>

definition requested_text :: "blob_attr nullable \<Rightarrow> string option \<Rightarrow> string" where
  "requested_text attr old = (if attr \<noteq> None then snprintf_s 256 (blobmsg_get_string attr) else column_text old 256)"

definition requested_memlimit :: "blob_attr nullable \<Rightarrow> int option \<Rightarrow> int option" where
  "requested_memlimit attr old = (if attr = None then map_option to_int32 old
     else if get_int attr > 0 then Some (get_int attr) else None)"

definition requested_config :: "tumgrd_config \<Rightarrow> blob_attr nullable list \<Rightarrow> int \<Rightarrow> row option \<Rightarrow> row \<Rightarrow> bool" where
  "requested_config cfg tb c old q \<longleftrightarrow>
     c_psk q = snprintf_s 256 (blobmsg_get_string (tb ! REG_PSK)) \<and> c_client_port q = c \<and>
     c_description q = nonempty_or_null (Some (requested_text (tb ! REG_DESCRIPTION) (Option.bind old c_description))) \<and>
     c_client_comment q =
       nonempty_or_null (Some (requested_text (tb ! REG_CLIENT_COMMENT) (Option.bind old c_client_comment))) \<and>
     c_memlimit q = requested_memlimit (tb ! REG_MEMLIMIT) (Option.bind old c_memlimit) \<and>
     c_ip_check_url q = Some (let url = requested_text (tb ! REG_IP_CHECK_URL) (Option.bind old c_ip_check_url)
       in if url = [] then TUMGRD_DEFAULT_IP_CHECK_URL else url) \<and>
     c_lifetime q = (if tb ! REG_LIFETIME \<noteq> None then Some (uint (blobmsg_get_u32 (tb ! REG_LIFETIME)))
       else case old of None \<Rightarrow> Some (cfg_default_lifetime cfg) | Some r \<Rightarrow> c_lifetime r)"

text \<open>
  The key: the one of the request, which is refused while a rotation is in progress, or the
  stored one, or for a new node a random one, or none where \<open>enable_xor\<close> is off.
\<close>

definition base_key :: "tumgrd_config \<Rightarrow> row option \<Rightarrow> string \<Rightarrow> bool" where
  "base_key cfg old key \<longleftrightarrow> (case old of
     None \<Rightarrow> if cfg_enable_xor cfg then fresh_key key else key = []
   | Some r \<Rightarrow> key = key_of r)"

definition requested_key :: "tumgrd_config \<Rightarrow> blob_attr nullable list \<Rightarrow> row option \<Rightarrow> string \<Rightarrow> bool" where
  "requested_key cfg tb old key \<longleftrightarrow>
     (if tb ! REG_XOR_KEY \<noteq> None
      then key = snprintf_s 129 (blobmsg_get_string (tb ! REG_XOR_KEY)) \<and> (\<forall>r. old = Some r \<longrightarrow> \<not> rotating r)
      else base_key cfg old key)"

definition requested_row :: "tumgrd_config \<Rightarrow> blob_attr nullable list \<Rightarrow> int \<Rightarrow> row option \<Rightarrow> row \<Rightarrow> bool" where
  "requested_row cfg tb c old q \<longleftrightarrow> requested_config cfg tb c old q \<and> requested_key cfg tb old (key_of q) \<and>
     c_rotation_state q = (case old of None \<Rightarrow> Some TUMGRD_ROTATION_NONE | Some r \<Rightarrow> c_rotation_state r) \<and>
     the_default [] (c_xor_key_pending q) = the_default [] (Option.bind old c_xor_key_pending)"

lemma requested_config_cong:
  "config_of q = config_of r \<Longrightarrow> requested_config cfg tb c old q = requested_config cfg tb c old r"
  unfolding requested_config_def
  by (drule arg_cong [of _ _ "\<lambda>r. (c_psk r, c_client_port r, c_description r, c_client_comment r, c_memlimit r,
     c_ip_check_url r, c_lifetime r)"]) simp

definition node_memlimit :: "tumgrd_node \<Rightarrow> int option" where
  "node_memlimit n = (if n_has_memlimit n then Some (n_memlimit n) else None)"

text \<open>The node in memory that carries all this, before the key and the lifetime of the request.\<close>

definition reg_wanted :: "tumgrd_config \<Rightarrow> blob_attr nullable list \<Rightarrow> int \<Rightarrow> row option \<Rightarrow> tumgrd_node \<Rightarrow> bool" where
  "reg_wanted cfg tb c old n \<longleftrightarrow>
     n_psk n = snprintf_s 256 (blobmsg_get_string (tb ! REG_PSK)) \<and> n_client_port n = c \<and>
     n_description n = requested_text (tb ! REG_DESCRIPTION) (Option.bind old c_description) \<and>
     n_client_comment n = requested_text (tb ! REG_CLIENT_COMMENT) (Option.bind old c_client_comment) \<and>
     node_memlimit n = requested_memlimit (tb ! REG_MEMLIMIT) (Option.bind old c_memlimit) \<and>
     n_ip_check_url n = requested_text (tb ! REG_IP_CHECK_URL) (Option.bind old c_ip_check_url) \<and>
     (old = None \<longrightarrow> n_lifetime n = cfg_default_lifetime cfg) \<and> base_key cfg old (n_xor_key n) \<and>
     (case old of
        None \<Rightarrow> n_rotation_state n = 0 \<and> n_xor_key_pending n = []
      | Some r \<Rightarrow> c_rotation_state r = Some (n_rotation_state n) \<and>
          n_xor_key_pending n = the_default [] (c_xor_key_pending r))"

lemma register_optional_fields [simp]:
  "n_description (register_optional tb v n) = (if tb ! REG_DESCRIPTION \<noteq> None
     then snprintf_s 256 (blobmsg_get_string (tb ! REG_DESCRIPTION)) else n_description n)"
  "n_client_comment (register_optional tb v n) = (if tb ! REG_CLIENT_COMMENT \<noteq> None
     then snprintf_s 256 (blobmsg_get_string (tb ! REG_CLIENT_COMMENT)) else n_client_comment n)"
  "n_ip_check_url (register_optional tb v n) = (if tb ! REG_IP_CHECK_URL \<noteq> None
     then snprintf_s 256 (blobmsg_get_string (tb ! REG_IP_CHECK_URL)) else n_ip_check_url n)"
  "node_memlimit (register_optional tb v n) = (if tb ! REG_MEMLIMIT = None then node_memlimit n
      else if get_int (tb ! REG_MEMLIMIT) > 0 then Some (get_int (tb ! REG_MEMLIMIT)) else None)"
  "n_lifetime (register_optional tb v n) = n_lifetime n"
  by (simp_all add: register_optional_def node_memlimit_def Let_def)

lemma register_key_fields [simp]:
  "n_description (register_key tb u h p c n) = n_description n" "n_lifetime (register_key tb u h p c n) = n_lifetime n"
  "n_client_comment (register_key tb u h p c n) = n_client_comment n"
  "n_ip_check_url (register_key tb u h p c n) = n_ip_check_url n"
  "node_memlimit (register_key tb u h p c n) = node_memlimit n" "node_memlimit (n\<lparr>n_xor_key := x\<rparr>) = node_memlimit n"
  "node_memlimit (n\<lparr>n_lifetime := l\<rparr>) = node_memlimit n"
  by (simp_all add: register_key_def node_memlimit_def)

lemma reg_start_wanted:
  assumes "reg_start os cfg s tb action node" "register_args tb = Some (uid, h, p, c, v)" "db_ok (tbl (db s))"
  defines "old \<equiv> lookup (tbl (db s)) (h, p, uid, v)"
  shows "node_key node = (snprintf_s 256 h, p, snprintf_s 128 uid, v) \<and> reg_wanted cfg tb c old node \<and>
    action = (if old = None then ''created'' else ''updated'')"
proof -
  obtain uid' h' p' c' v' n x where args: "register_args tb = Some (uid', h', p', c', v')"
    and node': "node = register_optional tb v' ((register_key tb uid' h' p' c' n)\<lparr>n_xor_key := x\<rparr>)"
    and or': "action = ''updated'' \<and> x = n_xor_key n \<and>
        (\<exists>r t u. lookup (tbl (db s)) (h', p', uid', v') = Some r \<and> row_to_node os r t = (n, u)) \<or>
      action = ''created'' \<and> lookup (tbl (db s)) (h', p', uid', v') = None \<and> (\<exists>la. n = new_node cfg la) \<and>
        (if cfg_enable_xor cfg then fresh_key x else x = [])"
    using assms(1) unfolding reg_start_def by blast
  have eq: "uid' = uid" "h' = h" "p' = p" "c' = c" "v' = v" using args assms(2) by simp_all
  note node = node' [unfolded eq] and or = or' [unfolded eq, folded old_def]
  have "length v < 16" using register_args_valid [OF assms(2)] by auto
  then have key: "node_key node = (snprintf_s 256 h, p, snprintf_s 128 uid, v)" "n_client_port node = c"
    "n_psk node = snprintf_s 256 (blobmsg_get_string (tb ! REG_PSK))"
    by (simp_all add: node node_key_def register_key_def snprintf_s_id)
  note w = reg_wanted_def base_key_def requested_text_def requested_memlimit_def
  show ?thesis
  proof (cases old)
    case None
    then obtain la where "action = ''created''" "n = new_node cfg la" "if cfg_enable_xor cfg then fresh_key x else x = []"
      using or by auto
    then show ?thesis using None key by (simp add: w) (simp add: node column_text_def node_memlimit_def [of "new_node cfg la"])
  next
    case (Some r)
    then obtain t u where n: "row_to_node os r t = (n, u)" and a: "action = ''updated''" "x = n_xor_key n"
      using or by auto
    have r: "row_wf r" "rotation_ok r" using assms(3) lookup_SomeD [of _ _ r] Some by (auto simp: db_ok_def old_def)
    note rot = row_to_node_rotation [OF n r] and f = row_to_node_fields [OF n]
    show ?thesis using Some a key
      by (simp add: w) (simp add: node f(2,3,11) node_memlimit_def [of n] f(9,10) rot key_of_def column_int_def column_int64_def split: option.split)
  qed
qed

section \<open>Registration\<close>

lemma excluded_row_fields [simp]:
  "c_psk (excluded_row n sl ca lu) = n_psk n" "c_client_port (excluded_row n sl ca lu) = n_client_port n"
  "key_of (excluded_row n sl ca lu) = n_xor_key n"
  "c_rotation_state (excluded_row n sl ca lu) = Some (n_rotation_state n)"
  "the_default [] (c_xor_key_pending (excluded_row n sl ca lu)) = n_xor_key_pending n"
  "c_description (excluded_row n sl ca lu) = nonempty_or_null (Some (n_description n))"
  "c_client_comment (excluded_row n sl ca lu) = nonempty_or_null (Some (n_client_comment n))"
  "c_memlimit (excluded_row n sl ca lu) = node_memlimit n"
  "c_ip_check_url (excluded_row n sl ca lu) =
     Some (if n_ip_check_url n = [] then TUMGRD_DEFAULT_IP_CHECK_URL else n_ip_check_url n)"
  "c_lifetime (excluded_row n sl ca lu) = (if sl then Some (n_lifetime n) else None)"
  by (simp_all add: excluded_row_def key_of_def nonempty_or_null_Some the_default_def node_memlimit_def)

lemma conflict_update_fields [simp]:
  "c_psk (conflict_update e r) = c_psk e" "c_client_port (conflict_update e r) = c_client_port e"
  "c_rotation_state (conflict_update e r) = c_rotation_state r"
  "c_xor_key_pending (conflict_update e r) = c_xor_key_pending r"
  "c_description (conflict_update e r) = c_description e" "c_client_comment (conflict_update e r) = c_client_comment e"
  "c_memlimit (conflict_update e r) = c_memlimit e" "c_ip_check_url (conflict_update e r) = c_ip_check_url e"
  "c_lifetime (conflict_update e r) = (if c_lifetime e \<noteq> None then c_lifetime e else c_lifetime r)"
  "key_of (conflict_update e r) = (if rotating r then key_of r else key_of e)"
  by (simp_all add: conflict_update_def key_of_def rotating_def)

text \<open>The row after the upsert.\<close>

definition reg_stored :: "blob_attr nullable list \<Rightarrow> string \<Rightarrow> tumgrd_node \<Rightarrow> tumgrd_node \<Rightarrow> bool \<Rightarrow> bool" where
  "reg_stored tb action node n sl \<longleftrightarrow>
     n = node\<lparr>n_xor_key := (if tb ! REG_XOR_KEY \<noteq> None then snprintf_s 129 (blobmsg_get_string (tb ! REG_XOR_KEY))
         else n_xor_key node),
       n_lifetime := (if tb ! REG_LIFETIME \<noteq> None then uint (blobmsg_get_u32 (tb ! REG_LIFETIME))
         else n_lifetime node)\<rparr> \<and>
     sl = (tb ! REG_LIFETIME \<noteq> None \<or> action = ''created'') \<and>
     (tb ! REG_XOR_KEY \<noteq> None \<longrightarrow> n_rotation_state node = 0)"

lemma register_store_rule:
  assumes refused: "\<And>st t. st \<noteq> UBUS_STATUS_OK \<Longrightarrow> Q (st, None) t"
    and answer: "\<And>n sl t. reg_stored tb action node n sl \<Longrightarrow> tumgrd_db_upsert_node os n sl s = (0, t) \<Longrightarrow>
      rsat (register_apply bits os cfg action n t) Q"
  shows "rsat (register_store bits os cfg tb action node s) Q"
proof -
  have stored: "reg_stored tb action node n sl"
    if "register_xor tb node = Some m" "register_lifetime tb (action = ''created'') m = Some (n, sl)" for m n sl
    using that by (auto simp: reg_stored_def register_xor_def register_lifetime_def rotation_states Let_def
        split: if_splits)
  show ?thesis
    unfolding register_store_def Let_def
    by (intro vcg) (auto intro: refused answer stored)
qed

lemma stored_row_requested:
  assumes w: "reg_wanted cfg tb c old node" "reg_stored tb action node n sl"
    and a: "action = (if old = None then ''created'' else ''updated'')"
  defines "e \<equiv> \<lambda>ca lu. excluded_row n sl ca lu"
  shows "old = None \<Longrightarrow> requested_row cfg tb c None (e ca lu)"
    and "old = None \<Longrightarrow> requested_config cfg tb c None (conflict_update (e ca lu) r)"
    and "old = Some r \<Longrightarrow> requested_row cfg tb c (Some r) (conflict_update (e ca lu) r)"
proof -
  note w = w [unfolded reg_wanted_def reg_stored_def base_key_def]
  have config: "requested_config cfg tb c old q"
    if "c_psk q = n_psk n" "c_client_port q = n_client_port n" "c_description q = nonempty_or_null (Some (n_description n))"
      "c_client_comment q = nonempty_or_null (Some (n_client_comment n))"
      "c_memlimit q = node_memlimit n"
      "c_ip_check_url q = Some (if n_ip_check_url n = [] then TUMGRD_DEFAULT_IP_CHECK_URL else n_ip_check_url n)"
      "c_lifetime q = (case old of Some r \<Rightarrow> if sl then Some (n_lifetime n) else c_lifetime r
         | None \<Rightarrow> Some (n_lifetime n))" for q
    using w a that by (cases old; cases "tb ! REG_LIFETIME") (simp_all add: requested_config_def Let_def del: if_split)
  have sl: "old = None \<Longrightarrow> sl" using w a by simp
  have row: "requested_row cfg tb c old q"
    if "requested_config cfg tb c old q" "key_of q = (case old of Some r \<Rightarrow> if rotating r then key_of r else n_xor_key n
         | None \<Rightarrow> n_xor_key n)" "c_rotation_state q = (case old of Some r \<Rightarrow> c_rotation_state r | None \<Rightarrow> Some (n_rotation_state n))"
      "the_default [] (c_xor_key_pending q) = n_xor_key_pending n" for q
    using w that
    by (cases old; cases "tb ! REG_XOR_KEY")
       (simp_all add: requested_row_def requested_key_def base_key_def rotation_states rotating_def the_default_def)
  have pending: "n_xor_key_pending n = (case old of Some r \<Rightarrow> the_default [] (c_xor_key_pending r) | None \<Rightarrow> [])"
    using w by (cases old) simp_all
  show "requested_row cfg tb c None (e ca lu)" if "old = None"
    using row [OF config, of "e ca lu"] that sl by (simp add: e_def)
  show "requested_config cfg tb c None (conflict_update (e ca lu) r)" if "old = None"
    using config [of "conflict_update (e ca lu) r"] that sl by (simp add: e_def)
  show "requested_row cfg tb c (Some r) (conflict_update (e ca lu) r)" if "old = Some r"
    using row [OF config, of "conflict_update (e ca lu) r"] that pending by (simp add: e_def)
qed

text \<open>The stored row has what was asked for, and the node in memory is in line with it.\<close>

lemma reg_node_stored:
  assumes up: "tumgrd_db_upsert_node os n sl s = (0, t)" and k: "node_key n = k"
    and w: "reg_wanted cfg tb c (lookup (tbl (db s)) k) node" "reg_stored tb action node n sl"
    and a: "action = (if lookup (tbl (db s)) k = None then ''created'' else ''updated'')"
  obtains q where "lookup (tbl (db t)) k = Some q" "in_sync k n t" "requested_row cfg tb c (lookup (tbl (db s)) k) q"
    "\<And>k'. k' \<noteq> k \<Longrightarrow> lookup (tbl (db t)) k' = lookup (tbl (db s)) k'"
    "\<And>r. lookup (tbl (db s)) k = Some r \<Longrightarrow> rotating r \<Longrightarrow> rotating q \<and> key_of q = key_of r"
proof -
  obtain ca lu where t: "tbl (db t) = merge_row (excluded_row n sl ca lu) (tbl (db s))"
    using upsert_success [OF up] by blast
  let ?e = "excluded_row n sl ca lu"
  let ?q = "case lookup (tbl (db s)) k of None \<Rightarrow> ?e | Some r \<Rightarrow> conflict_update ?e r"
  have pk: "pk ?e = k" using k by (simp add: excluded_row_pk)
  have q: "lookup (tbl (db t)) k = Some ?q" unfolding t merge_row_lookup pk by (simp only: refl if_True)
  have other: "lookup (tbl (db t)) k' = lookup (tbl (db s)) k'" if "k' \<noteq> k" for k'
    unfolding t merge_row_lookup pk using that by (simp only: if_False)
  note wanted = w [unfolded reg_wanted_def reg_stored_def base_key_def]
  have req: "requested_row cfg tb c (lookup (tbl (db s)) k) ?q"
    using stored_row_requested [OF w a] by (cases "lookup (tbl (db s)) k") simp_all
  have "n_xor_key n = key_of ?q" "n_xor_key_pending n = the_default [] (c_xor_key_pending ?q)"
    "c_rotation_state ?q = Some (n_rotation_state n)"
    using wanted by (auto simp: rotating_def split: option.splits)
  then have "in_sync k n t" using k q by (simp add: in_sync_def)
  moreover have "rotating ?q \<and> key_of ?q = key_of r" if "lookup (tbl (db s)) k = Some r" "rotating r" for r
    using that by (simp add: rotating_def)
  ultimately show thesis using that [OF q] req other by blast
qed

text \<open>The node is at rest with a valid address, and the client was set up with the key of its row.\<close>

definition tunnel_up :: "'w os \<Rightarrow> node_key \<Rightarrow> 'w sys \<Rightarrow> bool" where
  "tunnel_up os k s \<longleftrightarrow> (\<exists>ip r. valid_ip os ip \<and> lookup (tbl (db s)) k = Some r \<and>
     c_status r = Some TUMGRD_STATUS_ACTIVE \<and> c_current_ip r = Some ip \<and>
     c_rotation_state r = Some TUMGRD_ROTATION_NONE \<and> last_tool (client_set k r) s)"

lemma tunnel_up_frame: "tunnel_up os k s \<Longrightarrow> db t = db s \<and> rt t = rt s \<Longrightarrow> tunnel_up os k t"
  by (auto simp: tunnel_up_def last_tool_def)

text \<open>What a forced pass over a stored node gives, and the read of the node after it.\<close>

lemma forced_pass:
  fixes s :: "'w sys"
  assumes "pipe_fds_ok os" "inet_text_ok os" "in_sync k node s" "table_inv (tbl (db s))"
    "lookup (tbl (db s)) k = Some q" "rotation_ok q"
  shows "rsat (tumgrd_reconcile_one bits os cfg node True s) (\<lambda>(err, node') t. proto_steps os k s t \<and>
    in_sync k node' t \<and> (err = 0 \<longrightarrow> tunnel_up os k t) \<and>
    (rotating q \<longrightarrow> (\<exists>r'. lookup (tbl (db t)) k = Some r' \<and> key_of r' = key_of q)))"
proof -
  have main: "proto_steps os k s t \<and> in_sync k node' t \<and> (err = 0 \<longrightarrow> tunnel_up os k t) \<and>
      (rotating q \<longrightarrow> (\<exists>r'. lookup (tbl (db t)) k = Some r' \<and> key_of r' = key_of q))"
    if post: "rec_post os k s node' t \<and> (rotation_ok q \<longrightarrow>
      (err \<noteq> 0 \<longrightarrow> rotating q \<longrightarrow> n_rotation_state node' \<noteq> 0 \<and> n_xor_key node' = key_of q) \<and>
      (err = 0 \<longrightarrow> (\<exists>ip. pass_outcome os k q True s 0 node' ip t)))" for err node' and t :: "'w sys"
  proof -
    from post have p: "proto_steps os k s t" "in_sync k node' t" by (simp_all add: rec_post_def)
    have up: "tunnel_up os k t \<and> (rotating q \<longrightarrow> (\<exists>r'. lookup (tbl (db t)) k = Some r' \<and> key_of r' = key_of q))"
      if z: "err = 0"
    proof -
      obtain ip r' where "valid_ip os ip" "settled_row k (n_xor_key node') ip t r'"
        "rotating q \<longrightarrow> key_of r' = key_of q"
        using post z assms(6) by (auto simp: pass_outcome_def)
      then show ?thesis by (auto simp: tunnel_up_def settled_row_def rotation_states)
    qed
    have "\<exists>r'. lookup (tbl (db t)) k = Some r' \<and> key_of r' = key_of q" if "err \<noteq> 0" "rotating q"
    proof -
      have "n_xor_key node' = key_of q" using post that assms(6) by simp
      with p(2) show ?thesis by (auto simp: in_sync_def)
    qed
    with up p show ?thesis by (cases "err = 0") simp_all
  qed
  show ?thesis
    by (rule rsat_conseq [OF reconcile_one_post [OF assms(1-5)]]) (simp only: split_paired_all prod.case, rule main)
qed

text \<open>
  The effect of a registration under key \<open>k\<close>. First the requested row \<open>q\<close> is stored; then a
  forced pass is made over it, and the reply says whether it succeeded (\<open>ok\<close>). The pass leaves
  what was asked for as it is, up to a rotation of the key where its lifetime is over.
\<close>

definition registered ::
  "nat \<Rightarrow> 'w os \<Rightarrow> tumgrd_config \<Rightarrow> blob_attr nullable list \<Rightarrow> 'w sys \<Rightarrow> node_key \<Rightarrow> int \<Rightarrow>
   bool \<Rightarrow> blob_msg nullable \<Rightarrow> 'w sys \<Rightarrow> bool" where
  "registered bits os cfg tb s k c ok reply s' \<longleftrightarrow> (let old = lookup (tbl (db s)) k in
     (\<exists>q n t err n' u r' m.
        reply = Some ((''status'', BStr (if ok then ''ok'' else ''stored_but_apply_failed'')) #
          (''action'', BStr (if old = None then ''created'' else ''updated'')) # u8 ''applied'' ok #
          add_node_brief m) \<and>
        (m = n' \<or> (\<exists>v w. row_to_node os r' v = (m, w))) \<and>
        lookup (tbl (db t)) k = Some q \<and> requested_row cfg tb c old q \<and> in_sync k n t \<and>
        (\<forall>k'. k' \<noteq> k \<longrightarrow> lookup (tbl (db t)) k' = lookup (tbl (db s)) k') \<and>
        tumgrd_reconcile_one bits os cfg n True t = Some ((err, n'), u) \<and> ok = (err = 0) \<and>
        db s' = db u \<and> rt s' = rt u \<and>
        lookup (tbl (db s')) k = Some r' \<and> requested_config cfg tb c old r' \<and>
        (key_of r' = key_of q \<or> cfg_enable_xor cfg \<and> fresh_key (key_of r')) \<and>
        (\<forall>r. old = Some r \<longrightarrow> rotating r \<longrightarrow> key_of r' = key_of r)) \<and>
     (\<forall>k'. k' \<noteq> k \<longrightarrow> lookup (tbl (db s')) k' = lookup (tbl (db s)) k') \<and>
     (ok \<longrightarrow> tunnel_up os k s'))"

lemma register_apply_run:
  assumes "register_apply bits os cfg action n t = Some ((st, reply), s')"
  obtains err n' u m where "tumgrd_reconcile_one bits os cfg n True t = Some ((err, n'), u)"
    "db s' = db u" "rt s' = rt u" "st = UBUS_STATUS_OK"
    "reply = Some ((''status'', BStr (if err = 0 then ''ok'' else ''stored_but_apply_failed'')) #
       (''action'', BStr action) # u8 ''applied'' (err = 0) # add_node_brief m)"
    "m = n' \<or> (\<exists>r v w. lookup (tbl (db u)) (node_key n') = Some r \<and> row_to_node os r v = (m, w))"
proof -
  obtain err n' u where p: "tumgrd_reconcile_one bits os cfg n True t = Some ((err, n'), u)"
    using assms by (auto simp: register_apply_def bind_eq_Some_conv)
  obtain rc m v where g: "tumgrd_db_get_node os (n_server_host n') (n_server_port n') (n_uid n') (n_ip_version n')
      zero_node u = ((rc, m), v)" by (metis surj_pair)
  show thesis
  proof (rule that [OF p, of "if rc = 0 then m else n'"])
    show "(if rc = 0 then m else n') = n' \<or>
        (\<exists>r v w. lookup (tbl (db u)) (node_key n') = Some r \<and> row_to_node os r v = ((if rc = 0 then m else n'), w))"
      using get_node_outcome [OF g] by (cases "rc = 0") (auto simp: node_key_def)
  qed (use assms get_node_outcome [OF g] in \<open>auto simp: register_apply_def p g Let_def\<close>)
qed

lemma register_apply_registered:
  assumes os: "pipe_fds_ok os" "inet_text_ok os" and ok: "db_ok (tbl (db t))"
    and up: "tumgrd_db_upsert_node os n sl s = (0, t)" "node_key n = k"
    and w: "reg_wanted cfg tb c (lookup (tbl (db s)) k) node" "reg_stored tb action node n sl"
    and a: "action = (if lookup (tbl (db s)) k = None then ''created'' else ''updated'')"
    and run: "register_apply bits os cfg action n t = Some ((st, reply), s')"
  shows "\<exists>ok. registered bits os cfg tb s k c ok reply s'"
proof -
  let ?old = "lookup (tbl (db s)) k"
  obtain q where q: "lookup (tbl (db t)) k = Some q" "in_sync k n t" "requested_row cfg tb c ?old q"
    and other: "\<And>k'. k' \<noteq> k \<Longrightarrow> lookup (tbl (db t)) k' = lookup (tbl (db s)) k'"
    and rot: "\<And>r. ?old = Some r \<Longrightarrow> rotating r \<Longrightarrow> rotating q \<and> key_of q = key_of r"
    using reg_node_stored [OF up w a] by metis
  have inv: "table_inv (tbl (db t))" "rotation_ok q" using ok lookup_SomeD [OF q(1)] by (auto simp: db_ok_def)
  obtain err n' u m where p: "tumgrd_reconcile_one bits os cfg n True t = Some ((err, n'), u)"
    and fr: "db s' = db u" "rt s' = rt u"
    and reply: "reply = Some ((''status'', BStr (if err = 0 then ''ok'' else ''stored_but_apply_failed'')) #
       (''action'', BStr action) # u8 ''applied'' (err = 0) # add_node_brief m)"
    and m: "m = n' \<or> (\<exists>r v w. lookup (tbl (db u)) (node_key n') = Some r \<and> row_to_node os r v = (m, w))"
    by (rule register_apply_run [OF run])
  from rsatD [OF forced_pass [OF os q(2) inv(1) q(1) inv(2)] p]
  have steps: "proto_steps os k t u" "in_sync k n' u" and tunnel: "err = 0 \<longrightarrow> tunnel_up os k u"
    and key: "rotating q \<longrightarrow> (\<exists>r'. lookup (tbl (db u)) k = Some r' \<and> key_of r' = key_of q)" by simp_all
  obtain r' where r': "lookup (tbl (db u)) k = Some r'" "n_xor_key n' = key_of r'" and k': "node_key n' = k"
    using steps(2) by (auto simp: in_sync_def)
  have m: "m = n' \<or> (\<exists>v w. row_to_node os r' v = (m, w))" using m r'(1) unfolding k' by auto
  have cfg: "config_of r' = config_of q"
    using rsatD [OF reconcile_one_pass [OF os(1)] p] lookup_config [of "tbl (db u)" "tbl (db t)" k] q(1) r'(1)
    by (simp add: pass_keeps_def)
  then have config: "requested_config cfg tb c ?old r'"
    using requested_config_cong [OF cfg] q(3) by (simp add: requested_row_def)
  have nk: "n_xor_key n = key_of q" using q(1,2) by (auto simp: in_sync_def)
  have kept: "key_of r' = key_of q \<or> cfg_enable_xor cfg \<and> fresh_key (key_of r')"
    using rsatD [OF reconcile_one_key p] nk r'(2) by (simp add: key_kept_def)
  have same: "\<forall>r. ?old = Some r \<longrightarrow> rotating r \<longrightarrow> key_of r' = key_of r" using rot key r'(1) by auto
  have others: "\<forall>k'. k' \<noteq> k \<longrightarrow> lookup (tbl (db s')) k' = lookup (tbl (db s)) k'"
    using other proto_steps_other [OF steps(1)] fr(1) by simp
  have up: "err = 0 \<longrightarrow> tunnel_up os k s'" using tunnel tunnel_up_frame fr by blast
  show ?thesis
    unfolding registered_def Let_def
    by (rule exI [of _ "err = 0"], intro conjI, rule exI [of _ q], rule exI [of _ n], rule exI [of _ t],
        rule exI [of _ err], rule exI [of _ n'], rule exI [of _ u], rule exI [of _ r'], rule exI [of _ m], intro conjI)
       (use q r' fr p config kept same others other up m in \<open>simp_all add: reply a del: split_paired_All\<close>)
qed

lemma register_store_registered:
  assumes os: "pipe_fds_ok os" "inet_text_ok os" and ok: "db_ok (tbl (db s))" and k: "node_key node = k"
    and w: "reg_wanted cfg tb c (lookup (tbl (db s)) k) node" "reg_ready s action node"
    and a: "action = (if lookup (tbl (db s)) k = None then ''created'' else ''updated'')"
  shows "rsat (register_store bits os cfg tb action node s) (\<lambda>(st, reply) s'. st = UBUS_STATUS_OK \<longrightarrow>
    (\<exists>b. registered bits os cfg tb s k c b reply s'))"
proof (rule register_store_rule)
  fix n sl t
  assume n: "reg_stored tb action node n sl" and u: "tumgrd_db_upsert_node os n sl s = (0, t)"
  have "reg_ready s action n" "node_key n = k"
    using n w(2) k by (auto simp: reg_stored_def reg_ready_def node_wf_def node_key_def cstr)
  then have "keeps s t" by (intro upsert_keeps [OF u]) (auto simp: reg_ready_def split: if_splits)
  with ok have "db_ok (tbl (db t))" by (simp add: keeps_def)
  from register_apply_registered [OF os this u \<open>node_key n = k\<close> w(1) n a]
  show "rsat (register_apply bits os cfg action n t) (\<lambda>(st, reply) s'. st = UBUS_STATUS_OK \<longrightarrow>
      (\<exists>b. registered bits os cfg tb s k c b reply s'))"
    by (intro rsatI) (auto simp del: split_paired_All)
qed simp

text \<open>
  C5: A registration with a uid of less than 128 and a host of less than 256 characters, once it
  is answered, has stored the row that was asked for: port, pre-shared key, description,
  comment, memory limit, address check, lifetime and XOR key come from the request, where it
  names them, and else from the row that was there, or are the defaults of a new node (with a
  random key where \<open>enable_xor\<close> is on). A rotation in progress keeps its key, and no other row
  has changed. Then the tunnel was set up by a forced pass over this row, which leaves what was
  asked for in place; the reply tells whether the row is new, and describes the node. It says
  \<open>ok\<close> only if that pass succeeded: then the node is active, at rest, and the local client was
  set up last with the key in the database.
\<close>

theorem register_stores_and_applies:
  fixes s :: "'w sys"
  assumes "handle_register bits os bus cfg msg s = Some ((UBUS_STATUS_OK, reply), s')"
    and "tb = bus_blobmsg_parse bus reg_policy msg" "register_args tb = Some (uid, h, p, c, v)"
    and "length uid < 128" "length h < 256"
    and "pipe_fds_ok os" "inet_text_ok os" "db_ok (tbl (db s))"
  shows "\<exists>ok. registered bits os cfg tb s (h, p, uid, v) c ok reply s'"
proof -
  let ?k = "(h, p, uid, v)"
  let ?Q = "\<lambda>(st, reply) s'. st = UBUS_STATUS_OK \<longrightarrow> (\<exists>ok. registered bits os cfg tb s ?k c ok reply s')"
  have "rsat (handle_register bits os bus cfg msg s) ?Q"
  proof (rule handle_register_rule, simp, unfold assms(2) [symmetric])
    fix action node and t :: "'w sys"
    assume st: "reg_start os cfg s tb action node" and t: "db t = db s" "rt t = rt s"
    note n = reg_start_wanted [OF st assms(3,8)]
    have k: "node_key node = ?k" using n assms(4,5) by (simp add: snprintf_s_id)
    have "rsat (register_store bits os cfg tb action node t) (\<lambda>(st, reply) s'. st = UBUS_STATUS_OK \<longrightarrow>
        (\<exists>ok. registered bits os cfg tb t ?k c ok reply s'))"
      by (rule register_store_registered [OF assms(6,7) _ k _ reg_start_ready [OF st t(1)]]) (use n t assms(8) in simp_all)
    then show "rsat (register_store bits os cfg tb action node t) ?Q"
      unfolding registered_def t(1) .
  qed
  from rsatD [OF this assms(1)] show ?thesis by (simp del: split_paired_All)
qed

text \<open>What a registration stores, whether its name fits the columns or not.\<close>

lemma register_apply_config:
  assumes "pipe_fds_ok os" "register_apply bits os cfg action n t = Some ((st, reply), s')"
  shows "map_option config_of (lookup (tbl (db s')) k) = map_option config_of (lookup (tbl (db t)) k)"
proof -
  obtain err n' u where "tumgrd_reconcile_one bits os cfg n True t = Some ((err, n'), u)" "db s' = db u"
    by (rule register_apply_run [OF assms(2)])
  with rsatD [OF reconcile_one_pass [OF assms(1)]] lookup_config [of "tbl (db u)" "tbl (db t)" k] show ?thesis
    by (fastforce simp: pass_keeps_def)
qed

lemma register_store_config:
  assumes os: "pipe_fds_ok os" and w: "reg_wanted cfg tb c None node"
  shows "rsat (register_store bits os cfg tb ''created'' node s) (\<lambda>(st, reply) s'. st = UBUS_STATUS_OK \<longrightarrow>
    (\<exists>r'. lookup (tbl (db s')) (node_key node) = Some r' \<and> requested_config cfg tb c None r') \<and>
    (\<forall>k. k \<noteq> node_key node \<longrightarrow> map_option config_of (lookup (tbl (db s')) k) = map_option config_of (lookup (tbl (db s)) k)) \<and>
    (\<exists>x rest. reply = Some (x # (''action'', BStr ''created'') # rest)))"
proof (rule register_store_rule, simp)
  fix n sl t
  assume n: "reg_stored tb ''created'' node n sl" and u: "tumgrd_db_upsert_node os n sl s = (0, t)"
  obtain ca lu where t: "tbl (db t) = merge_row (excluded_row n sl ca lu) (tbl (db s))"
    using upsert_success [OF u] by blast
  have "node_key n = node_key node" using n by (simp add: reg_stored_def node_key_def)
  then have pk: "pk (excluded_row n sl ca lu) = node_key node" by (simp add: excluded_row_pk)
  let ?k = "node_key node"
  obtain q where q: "lookup (tbl (db t)) ?k = Some q" "requested_config cfg tb c None q"
    using stored_row_requested(1,2) [OF w n] unfolding t merge_row_lookup pk
    by (cases "lookup (tbl (db s)) ?k") (auto simp: requested_row_def)
  show "rsat (register_apply bits os cfg ''created'' n t) (\<lambda>(st, reply) s'. st = UBUS_STATUS_OK \<longrightarrow>
    (\<exists>r'. lookup (tbl (db s')) ?k = Some r' \<and> requested_config cfg tb c None r') \<and>
    (\<forall>k. k \<noteq> ?k \<longrightarrow> map_option config_of (lookup (tbl (db s')) k) = map_option config_of (lookup (tbl (db s)) k)) \<and>
    (\<exists>x rest. reply = Some (x # (''action'', BStr ''created'') # rest)))"
  proof (rule rsatI, clarify)
    fix reply s'
    assume run: "register_apply bits os cfg ''created'' n t = Some ((UBUS_STATUS_OK, reply), s')"
    note c = register_apply_config [OF os run]
    obtain r' where r': "lookup (tbl (db s')) ?k = Some r'" "config_of r' = config_of q" using c [of ?k] q(1) by auto
    moreover have "map_option config_of (lookup (tbl (db s')) k) = map_option config_of (lookup (tbl (db s)) k)"
      if "k \<noteq> ?k" for k
      using c [of k] that unfolding t merge_row_lookup pk by (simp only: if_False)
    moreover have "\<exists>x rest. reply = Some (x # (''action'', BStr ''created'') # rest)"
      by (rule register_apply_run [OF run]) simp
    ultimately show "(\<exists>r'. lookup (tbl (db s')) ?k = Some r' \<and> requested_config cfg tb c None r') \<and>
      (\<forall>k. k \<noteq> ?k \<longrightarrow> map_option config_of (lookup (tbl (db s')) k) = map_option config_of (lookup (tbl (db s)) k)) \<and>
      (\<exists>x rest. reply = Some (x # (''action'', BStr ''created'') # rest))"
      using q(2) requested_config_cong by blast
  qed
qed


section \<open>Deregistration\<close>

text \<open>
  The effect of \<open>deregister\<close> on the node with key \<open>k\<close>, if it is in the database: both tools are
  run, first the one for the server, and then, whatever they returned (\<open>a\<close> and \<open>b\<close>), the row is
  deleted. The status \<open>error\<close> says that the database refused this (\<open>e \<noteq> 0\<close>), which it cannot
  where SQLite works; \<open>deleted\<close> says that both tools ran to their end.
\<close>

definition deregistered :: "'w os \<Rightarrow> 'w sys \<Rightarrow> node_key \<Rightarrow> blob_msg nullable \<Rightarrow> 'w sys \<Rightarrow> bool" where
  "deregistered os s k reply s' \<longleftrightarrow>
     (if lookup (tbl (db s)) k = None
      then reply = Some (reply_simple (Some ''not_found'') (Some ''node not found'')) \<and> db s' = db s \<and> rt s' = rt s
      else \<exists>n t a u b w e rest. node_key n = k \<and> db t = db s \<and> rt t = rt s \<and>
        tumgrd_runner_server_del os n t = Some (a, u) \<and> tumgrd_runner_client_del os n u = Some (b, w) \<and>
        db w = db s \<and> (case k of (h, p, uid, v) \<Rightarrow> tumgrd_db_delete_node os h p uid v w = (e, s')) \<and>
        reply = Some ((''status'', BStr (if e \<noteq> 0 then ''error''
          else if a = 0 \<and> b = 0 then ''deleted'' else ''deleted_with_cleanup_errors'')) # rest) \<and>
        (if e = 0 then tbl (db s') = filter (\<lambda>q. pk q \<noteq> k) (tbl (db s)) else db s' = db s) \<and>
        (sqlite_works os \<and> db_conn (db s) \<longrightarrow> e = 0) \<and>
        (a = 0 \<longrightarrow> tool_success (is_tuctl n {server_del_script n}) t u) \<and>
        (b = 0 \<longrightarrow> tool_success (is_ktuctl {client_del_argv n}) u w))"

text \<open>
  C7: \<open>deregister\<close> removes the row of the node and no other one, whatever its tools return: the
  delete is run in any case, and the reply is \<open>error\<close> just if it failed. A node that is not in
  the database is reported as not found and nothing is started.
\<close>

theorem deregister_removes_node:
  fixes s :: "'w sys"
  assumes "handle_deregister os bus msg s = Some ((UBUS_STATUS_OK, reply), s')"
    and "tb = bus_blobmsg_parse bus dereg_policy msg"
    and "get_normalized_ip_version (tb ! DEREG_IP_VERSION) [] 16 = (0, v)"
    and "k = (blobmsg_get_string (tb ! DEREG_SERVER_HOST), get_int (tb ! DEREG_SERVER_PORT),
      blobmsg_get_string (tb ! DEREG_UID), v)"
    and "pipe_fds_ok os" "db_ok (tbl (db s))"
  shows "deregistered os s k reply s'"
proof -
  obtain rc n t where res: "resolve_node os (blobmsg_get_string (tb ! DEREG_UID))
      (blobmsg_get_string (tb ! DEREG_SERVER_HOST)) (get_int (tb ! DEREG_SERVER_PORT)) v zero_node s = ((rc, n), t)"
    by (metis surj_pair)
  have fr: "db t = db s" "rt t = rt s" using resolve_node_outcome [OF res] by simp_all
  consider "rc = - 1" | "rc = 1" "lookup (tbl (db s)) k = None"
    | r t' where "rc = 0" "lookup (tbl (db s)) k = Some r" "row_to_node os r t' = (n, t)"
    using resolve_node_outcome [OF res] assms(4) by auto
  then show ?thesis
  proof cases
    case 1
    with assms(1) show ?thesis
      unfolding handle_deregister_def assms(2) [symmetric] Let_def assms(3) prod.case res by (simp split: if_splits)
  next
    case 2
    with assms(1) fr show ?thesis
      unfolding handle_deregister_def assms(2) [symmetric] Let_def assms(3) prod.case res
      by (simp add: deregistered_def split: if_splits)
  next
    case (3 r)
    have wf: "row_wf r" "pk r = k" using assms(6) lookup_SomeD [OF 3(2)] by (auto simp: db_ok_def)
    have key: "node_key n = k" using row_to_node_key [OF 3(3) wf(1)] wf(2) by simp
    then have k: "k = (n_server_host n, n_server_port n, n_uid n, n_ip_version n)" by (simp add: node_key_def)
    note main = assms(1) [unfolded handle_deregister_def assms(2) [symmetric] Let_def assms(3) prod.case res 3(1)]
    have tb: "tb ! DEREG_UID \<noteq> None" "tb ! DEREG_SERVER_HOST \<noteq> None" "tb ! DEREG_SERVER_PORT \<noteq> None"
      using main by (simp_all split: if_splits)
    obtain a u where sd: "tumgrd_runner_server_del os n t = Some (a, u)"
      using main tb by (cases "tumgrd_runner_server_del os n t") auto
    obtain b w where cd: "tumgrd_runner_client_del os n u = Some (b, w)"
      using main tb sd by (cases "tumgrd_runner_client_del os n u") auto
    obtain e x where x: "tumgrd_db_delete_node os (n_server_host n) (n_server_port n) (n_uid n) (n_ip_version n) w = (e, x)"
      by fastforce
    have del: "tumgrd_db_delete_node os (n_server_host n) (n_server_port n) (n_uid n) (n_ip_version n) w = (e, s')"
      and reply: "\<exists>rest. reply = Some ((''status'', BStr (if e \<noteq> 0 then ''error'' else if a = 0 \<and> b = 0
        then ''deleted'' else ''deleted_with_cleanup_errors'')) # rest)"
      using main tb sd cd x by auto
    have d: "db w = db s"
      using server_del.database_unchanged [OF assms(5) sd] client_del.database_unchanged [OF assms(5) cd] fr by simp
    have table: "if e = 0 then tbl (db s') = filter (\<lambda>q. pk q \<noteq> k) (tbl (db s)) else db s' = db s"
      using delete_outcome [OF del] 3(2) unfolding k d by auto
    have works: "sqlite_works os \<and> db_conn (db s) \<longrightarrow> e = 0"
      using delete_works [of os w] del 3(2) unfolding k d by fastforce
    have tools: "a = 0 \<longrightarrow> tool_success (is_tuctl n {server_del_script n}) t u"
      "b = 0 \<longrightarrow> tool_success (is_ktuctl {client_del_argv n}) u w"
      using server_del.success [OF assms(5), of n t u] client_del.success [OF assms(5), of n u w] sd cd by auto
    from reply obtain rest where rest: "reply = Some ((''status'', BStr (if e \<noteq> 0 then ''error'' else if a = 0 \<and> b = 0
        then ''deleted'' else ''deleted_with_cleanup_errors'')) # rest)" ..
    have "case k of (h, p, uid, v) \<Rightarrow> tumgrd_db_delete_node os h p uid v w = (e, s')" using del by (simp add: k)
    then show ?thesis
      unfolding deregistered_def using 3(2) key fr sd cd d rest table works tools
      by (simp only: option.distinct if_False) blast
  qed
qed

section \<open>Refresh\<close>

lemma refresh_one_up:
  assumes "pipe_fds_ok os" "inet_text_ok os" "in_sync k node s" "table_inv (tbl (db s))"
    "lookup (tbl (db s)) k = Some q" "rotation_ok q"
  shows "rsat (refresh_one bits os cfg node True s) (\<lambda>(st, reply) t.
    (\<exists>rest. reply = Some ((''status'', BStr ''ok'') # rest)) \<longrightarrow> tunnel_up os k t)"
proof -
  have up: "tunnel_up os k v" if "tunnel_up os k u" "tumgrd_db_get_node os h p uid w out u = ((rc, n), v)"
    for u v h p uid w out rc n
    using tunnel_up_frame [OF that(1)] get_node_outcome [OF that(2)] by blast
  show ?thesis
    unfolding refresh_one_def Let_def
    by (intro vcg rsat_conseq [OF forced_pass [OF assms]]) (use up in \<open>auto split: if_splits\<close>)
qed

text \<open>
  C6: When a forced refresh is answered with \<open>ok\<close>, it has done what it says: with \<open>all\<close> every
  node of the database is active and no rotation is in progress, otherwise this holds for the
  node that was asked for, whose client was set up last with the key in the database.
\<close>

theorem forced_refresh_ok_is_true:
  fixes s :: "'w sys"
  assumes "handle_refresh bits os bus cfg msg s = Some ((UBUS_STATUS_OK, Some ((''status'', BStr ''ok'') # rest)), s')"
    and "tb = bus_blobmsg_parse bus ref_policy msg" "blobmsg_get_bool_default (tb ! REF_FORCE) False"
    and "pipe_fds_ok os" "inet_text_ok os" "scan_complete os" "db_ok (tbl (db s))"
  shows "if blobmsg_get_bool_default (tb ! REF_ALL) False
    then list_all (\<lambda>r. c_status r = Some TUMGRD_STATUS_ACTIVE \<and> c_rotation_state r = Some TUMGRD_ROTATION_NONE)
      (tbl (db s'))
    else \<exists>v. get_normalized_ip_version (tb ! REF_IP_VERSION) [] 16 = (0, v) \<and>
      tunnel_up os (blobmsg_get_string (tb ! REF_SERVER_HOST), get_int (tb ! REF_SERVER_PORT),
        blobmsg_get_string (tb ! REF_UID), v) s'"
proof (cases "blobmsg_get_bool_default (tb ! REF_ALL) False")
  case True
  have "handle_refresh bits os bus cfg msg s = refresh_all bits os cfg True s"
    using True assms(3) unfolding handle_refresh_def assms(2) [symmetric] Let_def by simp
  with assms(1) have "tumgrd_reconcile_all bits os cfg True s = Some (0, s')"
    by (auto simp: refresh_all_def bind_eq_Some_conv split: if_splits)
  from rsatD [OF reconcile_all_post [OF assms(4-7)] this] have "sweep os s s'" "\<forall>r \<in> set (tbl (db s)). at_rest s' (pk r)"
    by simp_all
  then show ?thesis using at_rest_all [OF _ assms(7)] True by simp
next
  case False
  note main = assms(1) [unfolded handle_refresh_def assms(2) [symmetric] Let_def if_not_P [OF False]]
  obtain rc v where v: "get_normalized_ip_version (tb ! REF_IP_VERSION) [] 16 = (rc, v)" by fastforce
  let ?k = "(blobmsg_get_string (tb ! REF_SERVER_HOST), get_int (tb ! REF_SERVER_PORT),
      blobmsg_get_string (tb ! REF_UID), v)"
  obtain rc2 n t where res: "resolve_node os (blobmsg_get_string (tb ! REF_UID))
      (blobmsg_get_string (tb ! REF_SERVER_HOST)) (get_int (tb ! REF_SERVER_PORT)) v zero_node s = ((rc2, n), t)"
    by (metis surj_pair)
  from main v res have rc: "rc = 0" "rc2 = 0" and one: "refresh_one bits os cfg n True t =
      Some ((UBUS_STATUS_OK, Some ((''status'', BStr ''ok'') # rest)), s')"
    using assms(3) by (simp_all split: if_splits)
  obtain r t' where r: "lookup (tbl (db s)) ?k = Some r" "row_to_node os r t' = (n, t)" and d: "db t = db s"
    using resolve_node_outcome [OF res] rc by auto
  have wf: "row_wf r" "rotation_ok r" "pk r = ?k" "table_inv (tbl (db s))"
    using assms(7) lookup_SomeD [OF r(1)] by (auto simp: db_ok_def)
  have "in_sync ?k n t" using read_in_sync [OF r(2) wf(1,2), of t] r(1) d wf(3) by simp
  from rsatD [OF refresh_one_up [OF assms(4,5) this] one] have "tunnel_up os ?k s'"
    using wf r(1) d by simp
  with False v rc show ?thesis by simp
qed

section \<open>The description of a node\<close>

text \<open>
  The expiry time in a reply is the time of the last application plus the lifetime, with
  no overflow of the signed 64-bit sum, and it is given only for a node with a lifetime.
\<close>

theorem expires_at_exact:
  assumes "(''expires_at'', BU64 w) \<in> set (add_node_brief n)"
  shows "uint w = n_last_applied_at n + n_lifetime n \<and> 0 < n_lifetime n \<and>
    n_last_applied_at n < uint w \<and> uint w \<le> INT64_MAX"
proof -
  have c: "n_lifetime n > 0" "n_last_applied_at n > 1" "n_last_applied_at n \<le> INT64_MAX - n_lifetime n"
    and w: "w = word_of_int (n_last_applied_at n + n_lifetime n)"
    using assms by (auto simp: add_node_brief_def opt_string_def u32_def u64_def split: if_splits)
  have "uint w = n_last_applied_at n + n_lifetime n"
    unfolding w uint_word_of_int using c by (intro mod_pos_pos_trivial) (simp_all add: INT64_MAX_def)
  with c show ?thesis by simp
qed

lemma list_all2_map_eq:
  "list_all2 P xs ys \<Longrightarrow> (\<And>x y. x \<in> set xs \<Longrightarrow> P x y \<Longrightarrow> g y = f x) \<Longrightarrow> map g ys = map f xs"
  by (induction rule: list_all2_induct) auto

section \<open>Status\<close>

text \<open>
  C17: \<open>status\<close> and \<open>dump\<close> report every node of the database exactly once, with the right
  count, and change nothing.
\<close>

theorem status_reports_every_node:
  assumes "handle_request bits os bus cfg m msg s = Some ((UBUS_STATUS_OK, reply), s')" "m = Status \<or> m = Dump"
    and "scan_complete os" "db_ok (tbl (db s))"
  shows "\<exists>nodes. reply = Some [(''status'', BStr ''ok''), u32 ''count'' (int (length (tbl (db s)))),
      (''nodes'', BTables (map add_node_brief nodes))] \<and>
    mset (map node_key nodes) = mset (map pk (tbl (db s))) \<and> db s' = db s \<and> rt s' = rt s"
proof -
  obtain rc nodes t where l: "tumgrd_db_list_nodes os s = ((rc, nodes), t)" by (metis surj_pair)
  have run: "rc = 0" "s' = t" "reply = Some [(''status'', BStr ''ok''), u32 ''count'' (int (length nodes)),
      (''nodes'', BTables (map add_node_brief nodes))]"
    using assms(1,2) l by (auto simp: handle_status_def split: if_splits)
  obtain rows where eq: "mset rows = mset (tbl (db s))"
    and rel: "list_all2 (\<lambda>q m. \<exists>s s'. row_to_node os q s = (m, s')) (order_rows rows) nodes"
    using list_nodes_outcome [OF l] run(1) assms(3) by auto
  have o: "mset (order_rows rows) = mset (tbl (db s))" using eq by (simp add: order_rows_def)
  have "map node_key nodes = map pk (order_rows rows)"
    using rel
  proof (rule list_all2_map_eq)
    show "node_key n = pk q" if "q \<in> set (order_rows rows)" "\<exists>s s'. row_to_node os q s = (n, s')" for q n
      using that assms(4) mset_eq_setD [OF o] row_to_node_key unfolding db_ok_def by blast
  qed
  then have keys: "mset (map node_key nodes) = mset (map pk (tbl (db s)))" using o by (metis mset_map)
  moreover have "length nodes = length (tbl (db s))"
    using arg_cong [OF keys, of size] by simp
  moreover have "db t = db s \<and> rt t = rt s" using list_nodes_outcome [OF l] by simp
  ultimately show ?thesis using run by auto
qed

section \<open>Concrete requests\<close>

text \<open>A router whose tools never answer, with the given rows.\<close>

definition hang_sys :: "row list \<Rightarrow> bool sys" where
  "hang_sys rows = \<lparr>db = db (demo_sys rows), rt = rt (demo_sys []), world = False\<rparr>"

definition demo_request :: "string \<Rightarrow> blob_msg" where
  "demo_request uid =
     [(''uid'', BStr uid), (''server_host'', BStr ''vpn.example''), (''server_port'', BU32 4433),
      (''client_port'', BU32 5001), (''psk'', BStr ''hunter2''), (''ip_version'', BStr ''4'')]"

lemma hang_sys_simps [simp]: "tbl (db (hang_sys rows)) = rows" "guarded (hang_sys rows)" "db_conn (db (hang_sys rows))"
  by (simp_all add: hang_sys_def guarded_def demo_sys_def)

lemma hang_calls [simp]:
  "ext (os_sqlite hang_os) s = (None, s)" "ext (os_time hang_os) s = (1700000000, s)"
  "ext (os_scan hang_os t) s = (t, s)" "ext (os_mkdir hang_os d) s = (None, s)"
  "ext (os_journal_mode hang_os) s = (None, s)" "ext (os_sigaction hang_os) s = (0, s)"
  by (simp_all add: ext_def hang_os_def)

lemma hang_sqlite [simp]: "sqlite_ok hang_os s = (True, s)" "now_unix hang_os s = (1700000000, s)"
  by (simp_all add: sqlite_ok_def now_unix_def)

lemma hang_tries [simp]: "sqlite_tries hang_os n s = (True, s)"
  by (induction n) simp_all

lemma hang_inet: "inet_text_ok hang_os"
  by (simp add: inet_text_ok_def hang_os_def)

lemma hang_scan: "scan_complete hang_os"
  by (simp add: scan_complete_def hang_os_def)

lemma hang_run_statement:
  "run_statement hang_os stmt ps s =
    (case stmt ps (tbl (db s)) of None \<Rightarrow> (None, s)
     | Some (t, n) \<Rightarrow> (Some n, s\<lparr>db := (db s)\<lparr>tbl := t\<rparr>\<rparr>))"
  by (simp add: run_statement_def del: sqlite_tries.simps)

lemma demo_request_parse:
  "bus_blobmsg_parse demo_bus reg_policy (demo_request uid) =
     [Some (BStr uid), Some (BStr ''vpn.example''), Some (BU32 4433), Some (BU32 5001), Some (BStr ''hunter2''),
      None, None, None, None, Some (BStr ''4''), None, None]"
  by (simp add: demo_bus_def demo_parse_def reg_policy_def demo_request_def)

lemma demo_request_args:
  "is_safe_id (Some uid) \<Longrightarrow>
     register_args (bus_blobmsg_parse demo_bus reg_policy (demo_request uid)) =
     Some (uid, ''vpn.example'', 4433, 5001, ''ipv4'')"
  by (simp add: demo_request_parse register_args_def get_int_def get_normalized_ip_version_def
      normalize_ip_version_def copy_string_def snprintf_s_def Let_def)


lemma hang_upsert:
  assumes "db_conn (db s)" "list_all (\<lambda>r. c_client_port r \<noteq> n_client_port n) (tbl (db s))"
  shows "fst (tumgrd_db_upsert_node hang_os n sl s) = 0"
proof -
  obtain ps ca lu t where run: "tumgrd_db_upsert_node hang_os n sl s =
      (let (r, s) = run_statement hang_os sql_upsert ps t in (if r = None then - 1 else 0, s))"
    and ps: "list_all (\<lambda>i. ps ! i \<noteq> SqlNull) [0, 4, 5, 6, 7, 10]" "insert_row ps = excluded_row n sl ca lu"
    and t: "db t = db s"
    using upsert_run [OF assms(1)] by blast
  have "\<not> port_conflict (excluded_row n sl ca lu) (tbl (db s))"
    using assms(2) by (auto simp: port_conflict_def excluded_row_uk uk_def list_all_iff)
  with sql_upsert_merge [OF ps(1)] ps(2) t show ?thesis by (simp add: run hang_run_statement)
qed

lemma demo_upsert_runs:
  assumes "list_all (\<lambda>r. c_client_port r \<noteq> n_client_port n) rows"
  obtains t where "tumgrd_db_upsert_node hang_os n sl (hang_sys rows) = (0, t)" "guarded t"
proof -
  obtain rc t where u: "tumgrd_db_upsert_node hang_os n sl (hang_sys rows) = (rc, t)" by fastforce
  moreover from hang_upsert [of "hang_sys rows" n sl] assms u have "rc = 0" by simp
  moreover have "guarded t" using upsert_outcome [OF u] guarded_rt [of t "hang_sys rows"] by simp
  ultimately show thesis using that by blast
qed

text \<open>A registration of a new node on this router is answered, although no tool ever is.\<close>

definition hang_config :: tumgrd_config where "hang_config = demo_config\<lparr>cfg_enable_xor := False\<rparr>"

lemma hang_register_runs:
  assumes "is_safe_id (Some uid)" "lookup rows (''vpn.example'', 4433, uid, ''ipv4'') = None"
    "list_all (\<lambda>r. c_client_port r \<noteq> 5001) rows"
  obtains reply s' where "handle_register 64 hang_os demo_bus hang_config (demo_request uid) (hang_sys rows) =
    Some ((UBUS_STATUS_OK, reply), s')"
proof -
  let ?tb = "bus_blobmsg_parse (demo_bus :: bool bus) reg_policy (demo_request uid)"
  let ?s = "hang_sys rows"
  let ?n = "zero_node\<lparr>n_lifetime := 3600, n_last_applied_at := 1700000000\<rparr>"
  let ?m = "register_optional ?tb ''ipv4'' (register_key ?tb uid ''vpn.example'' 4433 5001 ?n)"
  have get: "tumgrd_db_get_node hang_os ''vpn.example'' 4433 uid ''ipv4'' zero_node ?s = ((1, zero_node), ?s)"
    by (simp add: tumgrd_db_get_node_def sql_select_lookup assms(2) del: sqlite_tries.simps)
  have base: "register_base hang_os hang_config 1 zero_node ?s = (?n, ?s)"
    by (simp add: register_base_def hang_config_def demo_config_def TUMGRD_MIN_SANE_TIME_def)
  have port: "n_client_port ?m = 5001" by (simp add: register_key_def)
  obtain t where up: "tumgrd_db_upsert_node hang_os ?m True ?s = (0, t)" "guarded t"
    by (rule demo_upsert_runs [of ?m rows True]) (use assms(3) port in auto)
  obtain st reply s' where app: "register_apply 64 hang_os hang_config ''created'' ?m t = Some ((st, reply), s')"
    using register_apply_total [OF hang_daemon up(2)] unfolding tsat_def by (metis surj_pair)
  have "rsat (register_apply 64 hang_os hang_config ''created'' ?m t) (\<lambda>(st, _) _. st = UBUS_STATUS_OK)"
    unfolding register_apply_def Let_def by (intro vcg rsat_conseq [OF rsat_any]) simp
  from rsatD [OF this app] have "st = UBUS_STATUS_OK" by simp
  moreover have "register_xor ?tb ?m = Some ?m" "register_lifetime ?tb True ?m = Some (?m, True)"
    by (simp_all add: register_xor_def register_lifetime_def demo_request_parse)
  then have "handle_register 64 hang_os demo_bus hang_config (demo_request uid) ?s = Some ((st, reply), s')"
    unfolding handle_register_def Let_def demo_request_args [OF assms(1)]
    using get base up(1) app
    by (simp add: register_new_key_def register_store_def hang_config_def demo_config_def)
  ultimately show thesis using that by blast
qed

theorem register_stores_and_applies_witness:
  "\<exists>ok reply s'. handle_register 64 hang_os demo_bus hang_config (demo_request ''bob'') (hang_sys [demo_row6]) =
       Some ((UBUS_STATUS_OK, reply), s') \<and>
     registered 64 hang_os hang_config (bus_blobmsg_parse (demo_bus :: bool bus) reg_policy (demo_request ''bob''))
       (hang_sys [demo_row6]) (''vpn.example'', 4433, ''bob'', ''ipv4'') 5001 ok reply s'"
proof -
  have safe: "is_safe_id (Some ''bob'')" by code_simp
  have none: "lookup [demo_row6] (''vpn.example'', 4433, ''bob'', ''ipv4'') = None" by (simp add: demo_row6)
  obtain reply s' where run: "handle_register 64 hang_os demo_bus hang_config (demo_request ''bob'') (hang_sys [demo_row6]) =
      Some ((UBUS_STATUS_OK, reply), s')"
    by (rule hang_register_runs [OF safe none]) (simp add: demo_data6)
  have "db_ok (tbl (db (hang_sys [demo_row6])))" using demo_row6(5) by simp
  from register_stores_and_applies [OF run refl demo_request_args [OF safe] _ _ hang_pipes hang_inet this] run
  show ?thesis by (simp del: split_paired_Ex)
qed

text \<open>A uid of 128 characters whose first 127 are those of a stored node.\<close>

definition long_row :: row where
  "long_row = demo_row6\<lparr>c_uid := replicate 127 CHR ''a'', c_ip_version := ''ipv4''\<rparr>"


theorem invalid_request_changes_nothing_witness:
  "handle_request 64 hang_os demo_bus hang_config Register [(''uid'', BStr ''bob'')] (hang_sys [demo_row6]) =
     Some ((UBUS_STATUS_INVALID_ARGUMENT, None), hang_sys [demo_row6])"
proof -
  have run: "handle_request 64 hang_os demo_bus hang_config Register [(''uid'', BStr ''bob'')] (hang_sys [demo_row6]) =
      Some ((UBUS_STATUS_INVALID_ARGUMENT, None), hang_sys [demo_row6])"
    by (simp add: handle_register_def register_args_def demo_bus_def demo_parse_def reg_policy_def)
  from invalid_request_changes_nothing [OF run] run show ?thesis by simp
qed

definition demo_target :: blob_msg where
  "demo_target = [(''uid'', BStr ''alice''), (''server_host'', BStr ''vpn.example''), (''server_port'', BU32 4433),
     (''ip_version'', BStr ''6'')]"

lemma demo_target_version: "get_normalized_ip_version (Some (BStr ''6'')) [] 16 = (0, ''ipv6'')"
  by code_simp

theorem deregister_removes_node_witness:
  "\<exists>reply s'. handle_deregister hang_os demo_bus demo_target (hang_sys [demo_row6]) = Some ((UBUS_STATUS_OK, reply), s') \<and>
     deregistered hang_os (hang_sys [demo_row6]) (pk demo_row6) reply s' \<and> tbl (db s') = []"
proof -
  let ?s = "hang_sys [demo_row6]"
  let ?tb = "[Some (BStr ''alice''), Some (BStr ''vpn.example''), Some (BU32 4433), Some (BStr ''6'')]"
  have tb: "?tb = bus_blobmsg_parse (demo_bus :: bool bus) dereg_policy demo_target"
    by (simp add: demo_bus_def demo_parse_def dereg_policy_def demo_target_def)
  have v: "get_normalized_ip_version (?tb ! DEREG_IP_VERSION) [] 16 = (0, ''ipv6'')" using demo_target_version by simp
  have k: "pk demo_row6 = (blobmsg_get_string (?tb ! DEREG_SERVER_HOST), get_int (?tb ! DEREG_SERVER_PORT),
      blobmsg_get_string (?tb ! DEREG_UID), ''ipv6'')"
    by (simp add: demo_row6 get_int_def)
  have "fst (fst (resolve_node hang_os ''alice'' ''vpn.example'' 4433 ''ipv6'' zero_node ?s)) = 0"
    by (simp add: resolve_node_def tumgrd_db_get_node_def sql_select_lookup demo_row6 del: sqlite_tries.simps
        split: prod.split)
  then obtain n t where res: "resolve_node hang_os ''alice'' ''vpn.example'' 4433 ''ipv6'' zero_node ?s = ((0, n), t)"
    by (metis surj_pair fst_conv)
  have "rsat (handle_deregister hang_os demo_bus demo_target ?s) (\<lambda>(st, _) _. st = UBUS_STATUS_OK)"
    unfolding handle_deregister_def tb [symmetric] Let_def v prod.case
    by (simp add: res get_int_def) (intro vcg rsat_conseq [OF rsat_any] | simp)+
  moreover obtain st reply s' where run: "handle_deregister hang_os demo_bus demo_target ?s = Some ((st, reply), s')"
    using handle_deregister_total [OF hang_daemon, of ?s demo_bus demo_target] unfolding tsat_def
    by (metis surj_pair hang_sys_simps(2))
  ultimately have run: "handle_deregister hang_os demo_bus demo_target ?s = Some ((UBUS_STATUS_OK, reply), s')"
    using rsatD by fastforce
  have "db_ok (tbl (db ?s))" using demo_row6(5) by simp
  from deregister_removes_node [OF run tb v k hang_pipes this]
  have d: "deregistered hang_os ?s (pk demo_row6) reply s'" .
  have "sqlite_works hang_os" by (simp add: sqlite_works_def hang_os_def)
  with d have "tbl (db s') = []" unfolding deregistered_def by (auto simp: hang_sys_def demo_sys_def split: if_splits)
  with d run show ?thesis by blast
qed

theorem forced_refresh_ok_is_true_witness:
  "\<exists>rest s'. handle_refresh 64 demo_os demo_bus demo_config ((''force'', BU8 1) # demo_target) (demo_sys [demo_row6]) =
       Some ((UBUS_STATUS_OK, Some ((''status'', BStr ''ok'') # rest)), s') \<and>
     tunnel_up demo_os (pk demo_row6) s'"
proof -
  let ?s = "demo_sys [demo_row6]"
  let ?msg = "(''force'', BU8 1) # demo_target"
  let ?tb = "[Some (BStr ''alice''), Some (BStr ''vpn.example''), Some (BU32 4433), Some (BStr ''6''),
      Some (BU8 1), None]"
  have tb: "?tb = bus_blobmsg_parse (demo_bus :: nat bus) ref_policy ?msg"
    by (simp add: demo_bus_def demo_parse_def ref_policy_def demo_target_def)
  have v: "get_normalized_ip_version (?tb ! REF_IP_VERSION) [] 16 = (0, ''ipv6'')" using demo_target_version by simp
  have res: "resolve_node demo_os ''alice'' ''vpn.example'' 4433 ''ipv6'' zero_node ?s = ((0, demo_node6), ?s)"
    by (simp add: resolve_node_def tumgrd_db_get_node_def sql_select_lookup demo_row6 demo_read6 demo_sys_def
        del: sqlite_tries.simps)
  obtain n u where p: "tumgrd_reconcile_one 64 demo_os demo_config demo_node6 True ?s = Some ((0, n), u)"
    by (rule demo_pass)
  have "\<exists>rest s'. refresh_one 64 demo_os demo_config demo_node6 True ?s =
      Some ((UBUS_STATUS_OK, Some ((''status'', BStr ''ok'') # rest)), s')"
    unfolding refresh_one_def p Let_def by (simp split: prod.split)
  then obtain rest s' where "refresh_one 64 demo_os demo_config demo_node6 True ?s =
      Some ((UBUS_STATUS_OK, Some ((''status'', BStr ''ok'') # rest)), s')" by blast
  then have run: "handle_refresh 64 demo_os demo_bus demo_config ?msg ?s =
      Some ((UBUS_STATUS_OK, Some ((''status'', BStr ''ok'') # rest)), s')"
    unfolding handle_refresh_def tb [symmetric] Let_def v prod.case
    by (simp add: res get_int_def blobmsg_get_bool_default_def v [simplified])
  have f: "blobmsg_get_bool_default (?tb ! REF_FORCE) False" by (simp add: blobmsg_get_bool_default_def)
  from forced_refresh_ok_is_true [OF run tb f demo_pipes demo_inet demo_scan_complete demo_row6_ok] run
  show ?thesis by (simp add: blobmsg_get_bool_default_def demo_target_version get_int_def demo_row6)
qed

theorem expires_at_exact_witness:
  "\<exists>w. (''expires_at'', BU64 w) \<in> set (add_node_brief (demo_node\<lparr>n_last_applied_at := 1700000000\<rparr>)) \<and>
     uint w = 1700003600"
proof -
  let ?n = "demo_node\<lparr>n_last_applied_at := 1700000000\<rparr>"
  have "(''expires_at'', BU64 1700003600) \<in> set (add_node_brief ?n)"
    by (simp add: add_node_brief_def u64_def INT64_MAX_def demo_node_def zero_node_def)
  from expires_at_exact [OF this] this show ?thesis by (auto simp: demo_node_def)
qed

theorem status_reports_every_node_witness:
  "\<exists>nodes s'. handle_request 64 demo_os demo_bus demo_config Dump [] (demo_sys [demo_row6]) =
       Some ((UBUS_STATUS_OK, Some [(''status'', BStr ''ok''), u32 ''count'' 1,
         (''nodes'', BTables (map add_node_brief nodes))]), s') \<and>
     mset (map node_key nodes) = {#pk demo_row6#}"
proof -
  let ?s = "demo_sys [demo_row6]"
  have "tumgrd_db_list_nodes demo_os ?s = ((0, [demo_node6]), ?s)"
    by (simp add: tumgrd_db_list_nodes_def order_rows_def grow_array_def demo_read6 demo_sys_def Let_def)
  then obtain reply s' where run: "handle_request 64 demo_os demo_bus demo_config Dump [] ?s =
      Some ((UBUS_STATUS_OK, reply), s')"
    by (simp add: handle_status_def)
  have "\<exists>nodes. reply = Some [(''status'', BStr ''ok''), u32 ''count'' (int (length (tbl (db ?s)))),
        (''nodes'', BTables (map add_node_brief nodes))] \<and>
      mset (map node_key nodes) = mset (map pk (tbl (db ?s)))"
    using status_reports_every_node [OF run _ demo_scan_complete demo_row6_ok] by blast
  with run show ?thesis by (auto simp: demo_sys_def)
qed

end
