(* ===== verification/Tumgrd_Daemon.thy ===== *)
theory Tumgrd_Daemon
  imports Tumgrd_Main Tumgrd_Requests
begin

text \<open>
  Start, event loop and shutdown of the daemon: what \<open>main_start\<close> and \<open>tumgrd_ubus_init\<close> leave
  behind, the properties of whole runs, and concrete runs of a daemon whose tools never answer.
\<close>

section \<open>Start and shutdown\<close>

text \<open>A database file that the daemon can start with: none, or one whose rows are consistent once migrated.\<close>

definition disk_ok :: "db_state \<Rightarrow> bool" where
  "disk_ok d \<longleftrightarrow> db_columns d = [] \<or> db_ok (map (migrated (db_columns d)) (tbl d))"

lemma db_open_frame:
  assumes "tumgrd_db_open os path s = (rc, s')"
  shows "rt s' = rt s \<and> tbl (db s') = tbl (db s) \<and> db_columns (db s') = db_columns (db s) \<and>
    (rc = 0 \<and> db_conn (db s') \<or> rc < 0 \<and> \<not> db_conn (db s'))"
proof -
  let ?file = "case path of Some p \<Rightarrow> if p \<noteq> [] then p else TUMGRD_DB_PATH | None \<Rightarrow> TUMGRD_DB_PATH"
  let ?s = "s\<lparr>db := (db s)\<lparr>db_conn := False, db_path := copy_string [] 256 (Some ?file)\<rparr>\<rparr>"
  obtain err t where e: "ensure_parent_dir os (Some (db_path (db ?s))) ?s = (err, t)" by fastforce
  have f: "db t = db ?s" "rt t = rt ?s" using ensure_parent_dir_frame [OF e] by simp_all
  show ?thesis
    using assms e f
    by (auto simp: tumgrd_db_open_def Let_def split: if_splits prod.splits dest!: sqlite_ok_frame ext_frame)
qed

lemma init_schema_frame:
  assumes "tumgrd_db_init_schema os s = (rc, s')"
  shows "rt s' = rt s \<and> db_conn (db s') = db_conn (db s) \<and> (rc = 0 \<or> rc = - 1)"
proof -
  have m: "rt u = rt t \<and> db_conn (db u) = db_conn (db t)" if "migrate_if b os col fill t = (ok, u)"
    for b col fill t ok u
    using that by (auto simp: migrate_if_def migrate_add_column_def split: if_splits prod.splits
        dest!: sqlite_ok_frame)
  show ?thesis
    using assms
    by (auto simp: tumgrd_db_init_schema_def Let_def simp del: sqlite_tries.simps split: if_splits prod.splits
        dest!: m sqlite_ok_frame sqlite_tries_frame)
qed

lemma init_schema_new:
  assumes "tumgrd_db_init_schema os s = (0, s')" "db_columns (db s) = []"
  shows "tbl (db s') = []"
  using assms
  by (auto simp: tumgrd_db_init_schema_def Let_def schema_columns_def migrate_if_def simp del: sqlite_tries.simps
      split: if_splits prod.splits dest!: sqlite_ok_frame sqlite_tries_frame)

lemma init_schema_db_ok:
  assumes "tumgrd_db_init_schema os s = (0, s')" "disk_ok (db s)"
  shows "db_ok (tbl (db s'))"
proof (cases "db_columns (db s) = []")
  case True
  then show ?thesis using init_schema_new [OF assms(1)] by (simp add: db_ok_def table_inv_def)
next
  case False
  then show ?thesis using init_schema_existing [OF assms(1)] assms(2) by (simp add: disk_ok_def)
qed

lemma ctx_call_frame:
  assumes "ctx_call f c = (a, c')"
  shows "db (ctx_sys c') = db (ctx_sys c) \<and> rt (ctx_sys c') = rt (ctx_sys c) \<and> (\<exists>s. c' = c\<lparr>ctx_sys := s\<rparr>)"
  using assms by (auto simp: ctx_call_def split: prod.splits dest: ext_frame)

text \<open>After \<open>tumgrd_ubus_init\<close> the registrations and timers are complete, or all are undone.\<close>

definition ubus_up :: "'w ctx \<Rightarrow> bool" where
  "ubus_up c \<longleftrightarrow> ctx_ubus c \<and> ctx_ubus_obj_added c \<and>
     ctx_startup_timer c = Some TUMGRD_STARTUP_RECONCILE_DELAY_MS \<and>
     ctx_periodic_timer c = Some (interval_ms (ctx_cfg c))"

definition ubus_down :: "'w ctx \<Rightarrow> bool" where
  "ubus_down c \<longleftrightarrow> \<not> ctx_ubus c \<and> \<not> ctx_ubus_obj_added c \<and> \<not> ctx_net_event_registered c \<and>
     ctx_startup_timer c = None \<and> ctx_periodic_timer c = None"

lemma cleanup_down: "ctx_ubus c \<or> ubus_down c \<Longrightarrow> ubus_down (tumgrd_ubus_cleanup c)"
  by (auto simp: tumgrd_ubus_cleanup_def ubus_down_def Let_def)

lemma cleanup_frame: "ctx_sys (tumgrd_ubus_cleanup c) = ctx_sys c" "ctx_cfg (tumgrd_ubus_cleanup c) = ctx_cfg c"
  by (simp_all add: tumgrd_ubus_cleanup_def Let_def)

lemma ubus_init_outcome:
  assumes "tumgrd_ubus_init bus c = (err, c')" "ubus_down c"
  shows "db (ctx_sys c') = db (ctx_sys c) \<and> rt (ctx_sys c') = rt (ctx_sys c) \<and> ctx_cfg c' = ctx_cfg c \<and>
    (err = 0 \<and> ubus_up c' \<or> err \<noteq> 0 \<and> ubus_down c')"
proof -
  obtain conn c1 where 1: "ctx_call (bus_connect bus (cfg_socket_path (ctx_cfg c))) c = (conn, c1)" by fastforce
  let ?c1 = "c1\<lparr>ctx_ubus := conn\<rparr>"
  let ?c2 = "?c1\<lparr>ctx_net_event_registered := False, ctx_ubus_obj_added := False\<rparr>"
  obtain e2 c2 where 2: "ctx_call (bus_register_event_handler bus) ?c2 = (e2, c2)" by fastforce
  let ?c3 = "if e2 \<noteq> 0 then c2 else c2\<lparr>ctx_net_event_registered := True\<rparr>"
  obtain e3 c3 where 3: "ctx_call (bus_add_object bus) ?c3 = (e3, c3)" by fastforce
  note f = ctx_call_frame [OF 1] ctx_call_frame [OF 2] ctx_call_frame [OF 3]
  have sys: "db (ctx_sys c3) = db (ctx_sys c) \<and> rt (ctx_sys c3) = rt (ctx_sys c) \<and> ctx_cfg c3 = ctx_cfg c \<and>
      ctx_ubus c3 = conn"
    using f by (cases "e2 \<noteq> 0") auto
  have down: "\<not> conn \<Longrightarrow> ubus_down ?c1" using f(1) assms(2) by (auto simp: ubus_down_def)
  have eq: "tumgrd_ubus_init bus c =
    (if \<not> conn then (- 1, ?c1) else if e3 \<noteq> 0 then (e3, tumgrd_ubus_cleanup c3)
     else (0, c3\<lparr>ctx_ubus_obj_added := True, ctx_startup_timer := Some TUMGRD_STARTUP_RECONCILE_DELAY_MS,
                 ctx_periodic_timer := Some (interval_ms (ctx_cfg c3))\<rparr>))"
    unfolding tumgrd_ubus_init_def 1 2 3 Let_def prod.case by (simp split: if_split)
  consider "\<not> conn" | "conn" "e3 \<noteq> 0" | "conn" "e3 = 0" by blast
  then show ?thesis
  proof cases
    case 1
    then show ?thesis using assms(1) eq down ctx_call_frame [OF \<open>ctx_call _ _ = (conn, c1)\<close>] by auto
  next
    case 2
    then have "ubus_down (tumgrd_ubus_cleanup c3)" using cleanup_down sys by blast
    then show ?thesis using 2 assms(1) eq sys by (auto simp: cleanup_frame)
  next
    case 3
    then show ?thesis using assms(1) eq sys by (auto simp: ubus_up_def)
  qed
qed

lemma main_start_steps:
  assumes "tumgrd_db_open os (Some (cfg_db_path (ctx_cfg c))) (tumgrd_runner_install_watchdog os
      (set_ipdetect_fwmark (cfg_fwmark (ctx_cfg c)) (ctx_sys c))) = (e3, s3)"
    "tumgrd_db_init_schema os s3 = (e4, s4)" "tumgrd_ubus_init bus (c\<lparr>ctx_sys := s4\<rparr>) = (e5, c5)"
  shows "main_start os bus c =
    (if e3 < 0 then ((e3, False), c\<lparr>ctx_sys := s3\<rparr>) else if e4 < 0 then ((e4, True), c\<lparr>ctx_sys := s4\<rparr>)
     else if e5 < 0 then ((e5, True), c5) else ((0, True), c5))"
  by (simp add: main_start_def assms)

lemma main_start_outcome:
  assumes "main_start os bus c = ((err, opened), c')" "ubus_down c"
  shows "rt (ctx_sys c') = (rt (ctx_sys c))\<lparr>ipdetect_fwmark := cfg_fwmark (ctx_cfg c),
      watchdog_usable := watchdog_usable (rt (ctx_sys c'))\<rparr> \<and>
    watchdog_usable (rt (ctx_sys c')) = (0 \<le> fst (os_sigaction os (world (ctx_sys c)))) \<and>
    ctx_cfg c' = ctx_cfg c \<and> (ubus_up c' \<or> ubus_down c') \<and> err \<le> 0 \<and> opened = db_conn (db (ctx_sys c')) \<and>
    (err = 0 \<longrightarrow> opened \<and> (disk_ok (db (ctx_sys c)) \<longrightarrow> db_ok (tbl (db (ctx_sys c')))))"
proof -
  let ?s1 = "set_ipdetect_fwmark (cfg_fwmark (ctx_cfg c)) (ctx_sys c)"
  let ?s2 = "tumgrd_runner_install_watchdog os ?s1"
  obtain e3 s3 where 3: "tumgrd_db_open os (Some (cfg_db_path (ctx_cfg c))) ?s2 = (e3, s3)" by fastforce
  obtain e4 s4 where 4: "tumgrd_db_init_schema os s3 = (e4, s4)" by fastforce
  obtain e5 c5 where 5: "tumgrd_ubus_init bus (c\<lparr>ctx_sys := s4\<rparr>) = (e5, c5)" by fastforce
  have d2: "db ?s2 = db (ctx_sys c)"
    by (auto simp: tumgrd_runner_install_watchdog_def set_ipdetect_fwmark_def split: prod.splits dest: ext_frame)
  have r2: "rt ?s2 = (rt (ctx_sys c))\<lparr>ipdetect_fwmark := cfg_fwmark (ctx_cfg c),
      watchdog_usable := watchdog_usable (rt ?s2)\<rparr>"
    by (auto simp: tumgrd_runner_install_watchdog_def set_ipdetect_fwmark_def split: prod.splits dest: ext_frame)
  have w2: "watchdog_usable (rt ?s2) = (0 \<le> fst (os_sigaction os (world (ctx_sys c))))"
    by (auto simp: tumgrd_runner_install_watchdog_def set_ipdetect_fwmark_def ext_def split: prod.splits)
  have down: "ubus_down (c\<lparr>ctx_sys := s4\<rparr>)" "ubus_down (c\<lparr>ctx_sys := s3\<rparr>)"
    using assms(2) by (simp_all add: ubus_down_def)
  note o3 = db_open_frame [OF 3] and o4 = init_schema_frame [OF 4] and o5 = ubus_init_outcome [OF 5 down(1)]
  note eq = main_start_steps [OF 3 4 5]
  consider "e3 < 0" | "\<not> e3 < 0" "e4 < 0" | "\<not> e3 < 0" "\<not> e4 < 0" by blast
  then show ?thesis
  proof cases
    case 1
    then show ?thesis using assms(1) eq o3 r2 w2 down by auto
  next
    case 2
    then show ?thesis using assms(1) eq o3 o4 r2 w2 down by auto
  next
    case 3
    then have "db_ok (tbl (db s4))" if "disk_ok (db (ctx_sys c))"
      using init_schema_db_ok [of os s3 s4] 4 o3 o4 that d2 by (simp add: disk_ok_def)
    then show ?thesis using 3 assms(1) eq o3 o4 o5 r2 w2 by (auto split: if_splits)
  qed
qed

section \<open>Properties of the daemon\<close>

lemma interval_ms_exact:
  assumes "10 \<le> cfg_interval_sec cfg" "cfg_interval_sec cfg \<le> 3600"
  shows "interval_ms cfg = 1000 * uint (cfg_interval_sec cfg) \<and> 10000 \<le> interval_ms cfg \<and> interval_ms cfg \<le> 3600000"
proof -
  let ?w = "cfg_interval_sec cfg"
  have u: "10 \<le> uint ?w" "uint ?w \<le> 3600" using assms by (simp_all add: word_le_def)
  have m: "uint (?w * 1000) = uint ?w * 1000"
    using u by (simp add: uint_word_ariths(3))
  have "sint (?w * 1000) = uint (?w * 1000)"
    using u by (simp add: sint_uint m signed_take_bit_int_eq_self)
  with m u show ?thesis by (simp add: interval_ms_def)
qed

definition config_ok :: "tumgrd_config \<Rightarrow> bool" where
  "config_ok cfg \<longleftrightarrow> 10 \<le> cfg_interval_sec cfg \<and> cfg_interval_sec cfg \<le> 3600 \<and>
     0 \<le> cfg_fwmark cfg \<and> cfg_fwmark cfg \<le> 255 \<and>
     (cfg_default_lifetime cfg = 0 \<or>
      TUMGRD_LIFETIME_MIN \<le> cfg_default_lifetime cfg \<and> cfg_default_lifetime cfg \<le> TUMGRD_LIFETIME_MAX)"

lemma parse_opt_config_ok:
  assumes "parse_opt bits opt cfg = (None, cfg')" "config_ok cfg"
  shows "config_ok cfg'"
  using assms
  by (cases opt)
     (auto simp: config_ok_def parse_interval_def parse_lifetime_def Let_def neg_EINVAL_def split: if_splits prod.splits)

lemma parse_args_config_ok:
  "parse_args bits opts positional cfg = (0, cfg') \<Longrightarrow> config_ok cfg \<Longrightarrow> config_ok cfg' \<and> positional = []"
proof (induction opts arbitrary: cfg)
  case (Cons c cs)
  obtain e d where p: "parse_opt bits c cfg = (e, d)" by fastforce
  have "e = None"
  proof (rule ccontr)
    assume "e \<noteq> None"
    then have "e = Some 0" using Cons.prems(1) p by auto
    then show False using p
      by (cases c) (auto simp: Let_def split: if_splits prod.splits)
  qed
  with Cons p parse_opt_config_ok show ?case by auto
qed (auto split: if_splits)

text \<open>
  C8: Whatever requests, network events and timers arrive after a successful start, in any
  order and number, the database stays open and consistent, the watchdog stays as
  installed and no file descriptor is leaked.
\<close>

theorem daemon_keeps_order:
  assumes "main_start os bus c = ((0, opened), c1)" "ubus_down c" "disk_ok (db (ctx_sys c))" "pipe_fds_ok os"
    and "uloop_run bits uci_enabled os bus events c1 = Some ((), c2)"
  shows "db_ok (tbl (db (ctx_sys c2))) \<and> db_conn (db (ctx_sys c2)) \<and>
    watchdog_usable (rt (ctx_sys c2)) = watchdog_usable (rt (ctx_sys c1)) \<and>
    mset (open_fds (rt (ctx_sys c2))) = mset (open_fds (rt (ctx_sys c)))"
proof -
  note st = main_start_outcome [OF assms(1,2)]
  have "open_fds (rt (ctx_sys c1)) = open_fds (rt (ctx_sys c))"
    by (subst conjunct1 [OF st]) simp
  moreover have "db_conn (db (ctx_sys c1))" "db_ok (tbl (db (ctx_sys c1)))" using st assms(3) by blast+
  ultimately show ?thesis
    using rsatD [OF uloop_run_turn [OF assms(4)] assms(5)] unfolding turn_def keeps_def by simp
qed

text \<open>
  C10: The periodic reconcile never dies out: with the configuration that \<open>parse_args\<close>
  accepted, once the object is on the bus the periodic timer is pending after every sequence
  of events, and it is due within 10 seconds to one hour.
\<close>

theorem periodic_timer_always_pending:
  assumes "parse_args bits opts positional config_init = (0, cfg)"
    and "tumgrd_ubus_init bus c = (0, c1)" "ubus_down c" "ctx_cfg c = cfg" "pipe_fds_ok os"
    and "uloop_run bits' uci_enabled os bus events c1 = Some ((), c2)"
  shows "\<exists>ms. ctx_periodic_timer c2 = Some ms \<and> ms = 1000 * uint (cfg_interval_sec cfg) \<and>
    10000 \<le> ms \<and> ms \<le> 3600000"
proof -
  have "config_ok config_init"
    by (simp add: config_ok_def config_init_def DEFAULT_INTERVAL_def TUMGRD_IPDETECT_FWMARK_def)
  then have ok: "config_ok cfg" using parse_args_config_ok [OF assms(1)] by blast
  have "ubus_up c1" "ctx_cfg c1 = cfg" using ubus_init_outcome [OF assms(2,3)] assms(4) by simp_all
  with rsatD [OF uloop_run_turn [OF assms(5)] assms(6)] have "ctx_periodic_timer c2 = Some (interval_ms cfg)"
    by (simp add: turn_def ubus_up_def)
  with interval_ms_exact [of cfg] ok show ?thesis by (simp add: config_ok_def)
qed

text \<open>
  C20: The options that \<open>parse_args\<close> accepts give a sane configuration: an interval of 10
  seconds to one hour, a firewall mark of one byte, a lifetime that is off or at least a
  minute, and no positional argument left over.
\<close>

theorem parse_args_config_sane:
  assumes "parse_args bits opts positional config_init = (0, cfg)"
  shows "10 \<le> cfg_interval_sec cfg \<and> cfg_interval_sec cfg \<le> 3600 \<and> 0 \<le> cfg_fwmark cfg \<and> cfg_fwmark cfg \<le> 255 \<and>
    (cfg_default_lifetime cfg = 0 \<or>
     TUMGRD_LIFETIME_MIN \<le> cfg_default_lifetime cfg \<and> cfg_default_lifetime cfg \<le> TUMGRD_LIFETIME_MAX) \<and>
    positional = []"
proof -
  have "config_ok config_init"
    by (simp add: config_ok_def config_init_def DEFAULT_INTERVAL_def TUMGRD_IPDETECT_FWMARK_def)
  from parse_args_config_ok [OF assms this] show ?thesis by (simp add: config_ok_def)
qed

lemma zero_ctx_simps [simp]: "ctx_cfg (zero_ctx s) = config_init" "ctx_sys (zero_ctx s) = s"
  "ubus_down (zero_ctx s)" "ubus_down ((zero_ctx s)\<lparr>ctx_cfg := cfg\<rparr>)"
  by (simp_all add: zero_ctx_def ubus_down_def)

lemma main_cleanup_down:
  "ctx_ubus c \<or> \<not> ctx_ubus_obj_added c \<and> \<not> ctx_net_event_registered c \<Longrightarrow> ubus_down (main_cleanup opened c)"
  by (auto simp: main_cleanup_def tumgrd_ubus_cleanup_def ubus_down_def Let_def)

lemma main_cleanup_sys:
  "rt (ctx_sys (main_cleanup opened c)) = rt (ctx_sys c)"
  "tbl (db (ctx_sys (main_cleanup opened c))) = tbl (db (ctx_sys c))"
  "db_conn (db (ctx_sys (main_cleanup opened c))) = (\<not> opened \<and> db_conn (db (ctx_sys c)))"
  by (simp_all add: main_cleanup_def Let_def cleanup_frame tumgrd_db_close_def)

text \<open>What is left of the daemon when it has ended: nothing on the bus, no handle, no descriptor.\<close>

definition ended :: "'w sys \<Rightarrow> 'w ctx \<Rightarrow> bool" where
  "ended s c \<longleftrightarrow> ubus_down c \<and> \<not> db_conn (db (ctx_sys c)) \<and>
     mset (open_fds (rt (ctx_sys c))) = mset (open_fds (rt s))"

lemma cleanup_ended:
  assumes "ctx_ubus c \<or> \<not> ctx_ubus_obj_added c \<and> \<not> ctx_net_event_registered c"
    "opened = db_conn (db (ctx_sys c))" "mset (open_fds (rt (ctx_sys c))) = mset (open_fds (rt s))"
  shows "ended s (main_cleanup opened c)"
  using main_cleanup_down [OF assms(1)] assms(2,3) by (simp add: ended_def main_cleanup_sys)

text \<open>
  C9: However \<open>main\<close> ends, with the help text, a refused option, a failed start or after any
  number of events, everything it set up is undone: the bus connection, the object, the event
  handler, both timers, the database handle and every descriptor.
\<close>

theorem main_releases_everything:
  assumes "tumgrd_main bits uci_enabled os bus opts positional events s = Some (rc, c)"
    and "\<not> db_conn (db s)" "pipe_fds_ok os"
  shows "ubus_down c \<and> \<not> db_conn (db (ctx_sys c)) \<and> mset (open_fds (rt (ctx_sys c))) = mset (open_fds (rt s))"
proof -
  obtain e cfg where a: "parse_args bits opts positional config_init = (e, cfg)" by fastforce
  let ?c = "(zero_ctx s)\<lparr>ctx_cfg := cfg\<rparr>"
  have zero: "ubus_down ?c" "ended s ?c" "ctx_sys ?c = s"
    using assms(2) by (simp_all add: ended_def)
  obtain e2 v where l: "parse_log_level (Some (cfg_log_level cfg)) 2 = (e2, v)" by fastforce
  obtain e3 c3 where u: "ctx_call (bus_uloop_init bus) ?c = (e3, c3)" by fastforce
  have c3: "ubus_down c3" "\<not> db_conn (db (ctx_sys c3))" "rt (ctx_sys c3) = rt s"
    using ctx_call_frame [OF u] zero assms(2) by (auto simp: ubus_down_def zero_ctx_def)
  obtain e4 opened c4 where m: "main_start os bus c3 = ((e4, opened), c4)" by (metis surj_pair)
  note st = main_start_outcome [OF m c3(1)]
  have fds: "mset (open_fds (rt (ctx_sys c4))) = mset (open_fds (rt s))"
    by (subst conjunct1 [OF st]) (simp add: c3(3))
  have up: "ctx_ubus c4 \<or> \<not> ctx_ubus_obj_added c4 \<and> \<not> ctx_net_event_registered c4"
    and op: "opened = db_conn (db (ctx_sys c4))"
    using conjunct2 [OF st] by (auto simp: ubus_up_def ubus_down_def)
  have early: "ended s (main_cleanup False ?c)" "ended s (main_cleanup False c3)"
    using zero c3 assms(2) by (auto simp: ubus_down_def intro!: cleanup_ended)
  let ?run = "do { (_, c) \<leftarrow> uloop_run bits uci_enabled os bus events c4;
      Some (0 :: int, main_cleanup opened c) }"
  have after: "ended s (main_cleanup opened d)" if t: "turn c4 d" for d
  proof (rule cleanup_ended)
    show "ctx_ubus d \<or> \<not> ctx_ubus_obj_added d \<and> \<not> ctx_net_event_registered d"
      using t up by (simp add: turn_def)
    show "opened = db_conn (db (ctx_sys d))" using t op by (simp add: turn_def keeps_def)
    show "mset (open_fds (rt (ctx_sys d))) = mset (open_fds (rt s))" using t fds by (simp add: turn_def keeps_def)
  qed
  have run: "rsat ?run (\<lambda>_ c. ended s c)"
    by (intro vcg rsat_conseq [OF uloop_run_turn [OF assms(3)]])
       (use after in blast)
  have late: "ended s (main_cleanup opened c4)" using up op fds by (intro cleanup_ended)
  have eq: "tumgrd_main bits uci_enabled os bus opts positional events s =
      (if e > 0 then Some (0, ?c) else if e < 0 then Some (e, main_cleanup False ?c)
       else if e2 < 0 then Some (e2, main_cleanup False ?c) else if e3 < 0 then Some (e3, main_cleanup False c3)
       else if e4 < 0 then Some (e4, main_cleanup opened c4) else ?run)"
    unfolding tumgrd_main_def zero_ctx_simps a l u m Let_def prod.case ..
  have "rsat (tumgrd_main bits uci_enabled os bus opts positional events s) (\<lambda>_ c. ended s c)"
    unfolding eq by (intro rsat_if rsat_return run late early zero(2))
  from rsatD [OF this assms(1)] show ?thesis by (simp add: ended_def)
qed

lemma main_total:
  assumes "daemon_live rank dead os" "\<forall>w. 0 \<le> fst (os_sigaction os w)" "\<not> sigalrm_blocked (rt s)"
  shows "\<exists>rc c. tumgrd_main bits uci_enabled os bus opts positional events s = Some (rc, c)"
proof -
  obtain e cfg where a: "parse_args bits opts positional config_init = (e, cfg)" by fastforce
  let ?c = "(zero_ctx s)\<lparr>ctx_cfg := cfg\<rparr>"
  obtain e3 c3 where u: "ctx_call (bus_uloop_init bus) ?c = (e3, c3)" by fastforce
  have c3: "ubus_down c3" "rt (ctx_sys c3) = rt s"
    using ctx_call_frame [OF u] by (auto simp: ubus_down_def zero_ctx_def)
  obtain e4 opened c4 where m: "main_start os bus c3 = ((e4, opened), c4)" by (metis surj_pair)
  have "watchdog_usable (rt (ctx_sys c4))" "sigalrm_blocked (rt (ctx_sys c4)) = sigalrm_blocked (rt s)"
    using main_start_outcome [OF m c3(1)] assms(2) by (simp, subst conjunct1 [OF main_start_outcome [OF m c3(1)]], simp add: c3(2))
  then have "guarded (ctx_sys c4)" using assms(3) by (simp add: guarded_def)
  then have "tsat (uloop_run bits uci_enabled os bus events c4) (\<lambda>_ c'. guarded (ctx_sys c'))"
    by (rule uloop_run_total [OF assms(1)])
  then obtain c5 where "uloop_run bits uci_enabled os bus events c4 = Some ((), c5)" by (auto simp: tsat_def)
  then show ?thesis
    by (simp add: tumgrd_main_def Let_def a u m split: prod.split)
qed

text \<open>
  C11: If the watchdog can be installed and the rest of the system is live (\<open>daemon_live\<close>: among
  others, \<open>posix_spawn\<close> returns), \<open>main\<close> returns after the last event, even if every external tool,
  once started, and every server hangs.
\<close>

theorem main_returns:
  assumes "daemon_live rank dead os" "\<forall>w. 0 \<le> fst (os_sigaction os w)" "\<not> sigalrm_blocked (rt s)"
  shows "\<exists>rc c. tumgrd_main bits uci_enabled os bus opts positional events s = Some (rc, c)"
  by (rule main_total [OF assms])

lemma ubus_init_positive:
  assumes "\<forall>path w. fst (bus_connect bus path w)" "\<forall>w. 0 < fst (bus_add_object bus w)"
  shows "0 < fst (tumgrd_ubus_init bus c)"
proof -
  have call: "fst (ctx_call f d) = fst (f (world (ctx_sys d)))" for f :: "'a \<Rightarrow> 'b \<times> 'a" and d
    by (simp add: ctx_call_def ext_def split: prod.split)
  have "fst (ctx_call (bus_connect bus path) d)" "0 < fst (ctx_call (bus_add_object bus) d)" for path d
    using assms by (simp_all add: call)
  then show ?thesis by (auto simp: tumgrd_ubus_init_def Let_def split: prod.split) (metis fst_conv less_irrefl)+
qed

text \<open>
  C18: A positive status of \<open>ubus_add_object\<close>, as libubus reports every failure, goes unnoticed:
  when the database could be opened and the bus connected, \<open>tumgrd_ubus_init\<close> undoes everything
  and returns that status, but \<open>try2\<close> tests for a negative value only. So the start of \<open>main\<close>
  succeeds all the same, and the event loop runs without object, event handler or timer: no
  event has any effect.
\<close>

theorem main_ignores_ubus_status:
  assumes "tumgrd_db_open os (Some (cfg_db_path (ctx_cfg c))) (tumgrd_runner_install_watchdog os
      (set_ipdetect_fwmark (cfg_fwmark (ctx_cfg c)) (ctx_sys c))) = (0, s3)"
    and "tumgrd_db_init_schema os s3 = (0, s4)"
    and "\<forall>path w. fst (bus_connect bus path w)" "\<forall>w. 0 < fst (bus_add_object bus w)" "ubus_down c"
  shows "\<exists>e c1. tumgrd_ubus_init bus (c\<lparr>ctx_sys := s4\<rparr>) = (e, c1) \<and> 0 < e \<and>
    main_start os bus c = ((0, True), c1) \<and> ubus_down c1 \<and>
    uloop_run bits uci_enabled os bus events c1 = Some ((), c1)"
proof -
  obtain e c1 where 5: "tumgrd_ubus_init bus (c\<lparr>ctx_sys := s4\<rparr>) = (e, c1)" by fastforce
  have e: "0 < e" using ubus_init_positive [OF assms(3,4), of "c\<lparr>ctx_sys := s4\<rparr>"] 5 by simp
  have "main_start os bus c = ((0, True), c1)" using main_start_steps [OF assms(1,2) 5] e by simp
  moreover have "ubus_down (c\<lparr>ctx_sys := s4\<rparr>)" using assms(5) by (simp add: ubus_down_def)
  then have "ubus_down c1" using ubus_init_outcome [OF 5] e by auto
  moreover from this have "dispatch bits uci_enabled os bus e c1 = Some ((), c1)" for e
    by (cases e) (simp_all add: dispatch_def ubus_down_def)
  then have "uloop_run bits uci_enabled os bus events c1 = Some ((), c1)" by (induction events) simp_all
  ultimately show ?thesis using 5 e by blast
qed

section \<open>Concrete runs of the daemon\<close>

text \<open>
  A process that has just been started, on a router whose external tools never answer, with a
  database that holds one node.
\<close>

definition boot_sys :: "row list \<Rightarrow> bool sys" where
  "boot_sys rows = \<lparr>db = (db (demo_sys rows))\<lparr>db_conn := False, db_columns := schema_columns\<rparr>,
     rt = (rt (demo_sys []))\<lparr>watchdog_usable := False\<rparr>, world = False\<rparr>"

lemma boot_simps [simp]:
  "db_columns (db (boot_sys rows)) = schema_columns" "tbl (db (boot_sys rows)) = rows"
  "\<not> db_conn (db (boot_sys rows))" "\<not> sigalrm_blocked (rt (boot_sys rows))"
  by (simp_all add: boot_sys_def demo_sys_def)

lemma boot_disk_ok: "disk_ok (db (boot_sys [demo_row]))"
proof -
  have "migrated schema_columns demo_row = demo_row" by (simp add: migrated_def schema_columns_def)
  then show ?thesis using demo_db_ok by (simp add: disk_ok_def)
qed

lemma hang_mkdir_seq [simp]: "mkdir_seq hang_os ds s = (0, s)"
  by (induction ds) simp_all

lemma hang_parent_dir: "ensure_parent_dir hang_os (Some TUMGRD_DB_PATH) s = (0, s)"
  by (simp add: ensure_parent_dir_def mkdir_p_def mkdir_p_loop_seq PATH_MAX_def TUMGRD_DB_PATH_def
      snprintf_s_def Let_def)

lemma bus_calls [simp]:
  "ctx_call (bus_connect demo_bus p) c = (True, c)" "ctx_call (bus_register_event_handler demo_bus) c = (0, c)"
  "ctx_call (bus_add_object demo_bus) c = (0, c)" "ctx_call (bus_uloop_init demo_bus) c = (0, c)"
  by (simp_all add: ctx_call_def ext_def demo_bus_def)

lemma boot_steps:
  "fst (tumgrd_db_open hang_os (Some TUMGRD_DB_PATH) s) = 0 \<and>
   db_columns (db (snd (tumgrd_db_open hang_os (Some TUMGRD_DB_PATH) s))) = db_columns (db s) \<and>
   db_conn (db (snd (tumgrd_db_open hang_os (Some TUMGRD_DB_PATH) s)))"
  "db_columns (db s) = schema_columns \<Longrightarrow> db_conn (db s) \<Longrightarrow> fst (tumgrd_db_init_schema hang_os s) = 0"
proof -
  have "copy_string [] 256 (Some TUMGRD_DB_PATH) = TUMGRD_DB_PATH"
    by (simp add: TUMGRD_DB_PATH_def snprintf_s_def)
  moreover have "TUMGRD_DB_PATH \<noteq> []" by (simp add: TUMGRD_DB_PATH_def)
  ultimately show "fst (tumgrd_db_open hang_os (Some TUMGRD_DB_PATH) s) = 0 \<and>
     db_columns (db (snd (tumgrd_db_open hang_os (Some TUMGRD_DB_PATH) s))) = db_columns (db s) \<and>
     db_conn (db (snd (tumgrd_db_open hang_os (Some TUMGRD_DB_PATH) s)))"
    by (simp add: tumgrd_db_open_def hang_parent_dir Let_def)
  show "fst (tumgrd_db_init_schema hang_os s) = 0" if "db_columns (db s) = schema_columns" "db_conn (db s)"
    using that by (simp add: tumgrd_db_init_schema_def migrate_if_def migrate_add_column_def Let_def
        schema_columns_def del: sqlite_tries.simps)
qed

lemma boot_database:
  obtains s3 s4 where "tumgrd_db_open hang_os (Some (cfg_db_path (ctx_cfg (zero_ctx (boot_sys rows)))))
      (tumgrd_runner_install_watchdog hang_os (set_ipdetect_fwmark (cfg_fwmark (ctx_cfg (zero_ctx (boot_sys rows))))
        (ctx_sys (zero_ctx (boot_sys rows))))) = (0, s3)"
    "tumgrd_db_init_schema hang_os s3 = (0, s4)"
proof -
  let ?c = "zero_ctx (boot_sys rows)"
  let ?s2 = "tumgrd_runner_install_watchdog hang_os (set_ipdetect_fwmark (cfg_fwmark (ctx_cfg ?c)) (ctx_sys ?c))"
  have path: "cfg_db_path (ctx_cfg ?c) = TUMGRD_DB_PATH" by (simp add: config_init_def)
  have cols: "db_columns (db ?s2) = schema_columns"
    by (simp add: tumgrd_runner_install_watchdog_def set_ipdetect_fwmark_def split: prod.splits)
  obtain s3 where 3: "tumgrd_db_open hang_os (Some (cfg_db_path (ctx_cfg ?c))) ?s2 = (0, s3)"
    "db_columns (db s3) = schema_columns" "db_conn (db s3)"
    using boot_steps(1) [of ?s2] cols path by (metis prod.collapse)
  obtain s4 where "tumgrd_db_init_schema hang_os s3 = (0, s4)"
    using boot_steps(2) [OF 3(2,3)] by (metis prod.collapse)
  with 3(1) show thesis by (rule that)
qed

lemma boot_start: "fst (main_start hang_os demo_bus (zero_ctx (boot_sys [demo_row]))) = (0, True)"
proof -
  obtain s3 s4 where steps: "tumgrd_db_open hang_os (Some (cfg_db_path (ctx_cfg (zero_ctx (boot_sys [demo_row])))))
      (tumgrd_runner_install_watchdog hang_os (set_ipdetect_fwmark (cfg_fwmark (ctx_cfg (zero_ctx (boot_sys [demo_row]))))
        (ctx_sys (zero_ctx (boot_sys [demo_row]))))) = (0, s3)"
    "tumgrd_db_init_schema hang_os s3 = (0, s4)" by (rule boot_database)
  obtain e c where u: "tumgrd_ubus_init demo_bus (zero_ctx (boot_sys [demo_row])\<lparr>ctx_sys := s4\<rparr>) = (e, c)" by fastforce
  then have "e = 0" by (auto simp: tumgrd_ubus_init_def Let_def)
  with main_start_steps [OF steps u] show ?thesis by simp
qed

lemma boot_watchdog: "\<forall>w. 0 \<le> fst (os_sigaction hang_os w)"
  by (simp add: hang_os_def)


lemma boot_run:
  obtains c1 c2 where "main_start hang_os demo_bus (zero_ctx (boot_sys [demo_row])) = ((0, True), c1)"
    "uloop_run 64 True hang_os demo_bus events c1 = Some ((), c2)"
proof -
  obtain c1 where m: "main_start hang_os demo_bus (zero_ctx (boot_sys [demo_row])) = ((0, True), c1)"
    using boot_start by (metis prod.collapse)
  note st = main_start_outcome [OF m zero_ctx_simps(3)]
  have "sigalrm_blocked (rt (ctx_sys c1)) = False" by (subst conjunct1 [OF st]) simp
  moreover have "watchdog_usable (rt (ctx_sys c1))" using conjunct2 [OF st] boot_watchdog by simp
  ultimately have "guarded (ctx_sys c1)" by (simp add: guarded_def)
  from uloop_run_total [OF hang_daemon this] obtain c2
    where "uloop_run 64 True hang_os demo_bus events c1 = Some ((), c2)" unfolding tsat_def by (metis old.unit.exhaust)
  with m show ?thesis by (rule that)
qed

theorem daemon_keeps_order_witness:
  "\<exists>c1 c2. uloop_run 64 True hang_os demo_bus [StartupTimer, Request Status [], PeriodicTimer] c1 = Some ((), c2) \<and>
     main_start hang_os demo_bus (zero_ctx (boot_sys [demo_row])) = ((0, True), c1) \<and>
     db_ok (tbl (db (ctx_sys c2))) \<and> mset (open_fds (rt (ctx_sys c2))) = {#}"
proof -
  obtain c1 c2 where m: "main_start hang_os demo_bus (zero_ctx (boot_sys [demo_row])) = ((0, True), c1)"
    and u: "uloop_run 64 True hang_os demo_bus [StartupTimer, Request Status [], PeriodicTimer] c1 = Some ((), c2)"
    by (rule boot_run)
  have "disk_ok (db (ctx_sys (zero_ctx (boot_sys [demo_row]))))" using boot_disk_ok by simp
  from daemon_keeps_order [OF m zero_ctx_simps(3) this hang_pipes u] m u show ?thesis
    by (auto simp: boot_sys_def demo_sys_def)
qed

theorem periodic_timer_always_pending_witness:
  "\<exists>c1 c2. uloop_run 64 True hang_os demo_bus [PeriodicTimer, NetEvent None, PeriodicTimer] c1 = Some ((), c2) \<and>
     ctx_periodic_timer c2 = Some 300000"
proof -
  let ?cfg = "config_init\<lparr>cfg_interval_sec := 300\<rparr>"
  let ?c = "zero_ctx (boot_sys []\<lparr>rt := rt (demo_sys [])\<rparr>)\<lparr>ctx_cfg := ?cfg\<rparr>"
  have p: "parse_args 64 [OptInterval ''300''] [] config_init = (0, ?cfg)"
    by (simp add: parse_interval_def parse_u32_def strtoul_def c_scan)
  obtain c1 where i: "tumgrd_ubus_init demo_bus ?c = (0, c1)"
    by (simp add: tumgrd_ubus_init_def Let_def)
  have down: "ubus_down ?c" by (rule zero_ctx_simps)
  have "guarded (ctx_sys c1)"
    using ubus_init_outcome [OF i down] by (simp add: guarded_def zero_ctx_def demo_sys_def)
  from uloop_run_total [OF hang_daemon this] obtain c2
    where u: "uloop_run 64 True hang_os demo_bus [PeriodicTimer, NetEvent None, PeriodicTimer] c1 = Some ((), c2)"
    unfolding tsat_def by (metis old.unit.exhaust)
  from periodic_timer_always_pending [OF p i down _ hang_pipes u] u show ?thesis by auto
qed

theorem parse_args_config_sane_witness:
  "\<exists>cfg. parse_args 64 [OptInterval ''300'', OptFwmark ''7'', OptLifetime ''3600'', OptEnableXor] [] config_init = (0, cfg) \<and>
     cfg_interval_sec cfg \<le> 3600 \<and> cfg_fwmark cfg \<le> 255"
proof -
  let ?o = "[OptInterval ''300'', OptFwmark ''7'', OptLifetime ''3600'', OptEnableXor]"
  have "fst (parse_args 64 ?o [] config_init) = 0"
    by (simp add: parse_interval_def parse_lifetime_def parse_u32_def strtoul_def strtol_def c_scan lifetime_bounds)
  then obtain cfg where p: "parse_args 64 ?o [] config_init = (0, cfg)" by (metis prod.collapse)
  from parse_args_config_sane [OF p] p show ?thesis by blast
qed

theorem main_releases_everything_witness:
  "\<exists>rc c. tumgrd_main 64 True hang_os demo_bus [OptInterval ''300''] [] [StartupTimer] (boot_sys [demo_row]) = Some (rc, c) \<and>
     ubus_down c \<and> \<not> db_conn (db (ctx_sys c)) \<and> mset (open_fds (rt (ctx_sys c))) = {#}"
proof -
  obtain rc c where m: "tumgrd_main 64 True hang_os demo_bus [OptInterval ''300''] [] [StartupTimer]
      (boot_sys [demo_row]) = Some (rc, c)"
    using main_total [OF hang_daemon boot_watchdog] by (metis boot_simps(4))
  from main_releases_everything [OF m _ hang_pipes] m show ?thesis
    by (auto simp: boot_sys_def demo_sys_def)
qed

theorem main_returns_witness:
  "\<exists>rc c. tumgrd_main 64 True hang_os demo_bus [OptLifetime ''3600''] [] [StartupTimer, PeriodicTimer]
     (boot_sys [demo_row]) = Some (rc, c)"
  by (rule main_returns [OF hang_daemon boot_watchdog]) simp

theorem main_ignores_ubus_status_witness:
  "\<exists>c1. main_start hang_os (demo_bus\<lparr>bus_add_object := \<lambda>w. (2, w)\<rparr>) (zero_ctx (boot_sys [demo_row])) = ((0, True), c1) \<and>
     ubus_down c1"
proof -
  let ?bus = "demo_bus\<lparr>bus_add_object := \<lambda>w. (2, w)\<rparr>"
  have bus: "\<forall>path w. fst (bus_connect ?bus path w)" "\<forall>w. 0 < fst (bus_add_object ?bus w)"
    by (simp_all add: demo_bus_def)
  obtain s3 s4 where "tumgrd_db_open hang_os (Some (cfg_db_path (ctx_cfg (zero_ctx (boot_sys [demo_row])))))
      (tumgrd_runner_install_watchdog hang_os (set_ipdetect_fwmark (cfg_fwmark (ctx_cfg (zero_ctx (boot_sys [demo_row]))))
        (ctx_sys (zero_ctx (boot_sys [demo_row]))))) = (0, s3)"
    "tumgrd_db_init_schema hang_os s3 = (0, s4)" by (rule boot_database)
  from main_ignores_ubus_status [OF this bus zero_ctx_simps(3)] show ?thesis by blast
qed

end
