(* ===== verification/Spec2Isabelle.thy ===== *)
theory Spec2Isabelle
  imports Tumgrd_Daemon
begin

text \<open>
  Verification of \<open>tumgrd\<close>, the daemon that keeps both ends of ICMP tunnels configured: it stores
  nodes in SQLite, tells the server of each node about it through \<open>tuctl_client\<close>, sets up the
  local client through \<open>ktuctl\<close>, and rotates the XOR key of a node when its lifetime is over.

  The program and its model.

  \<^item> \<^bold>\<open>Prelude\<close> (\<open>Tumgrd_Prelude\<close>). What the code uses of the C library: \<open>ctype.h\<close> in the C locale,
    \<open>strtol\<close> and \<open>strtoul\<close>, \<open>snprintf\<close> with \<open>%s\<close> and \<open>%d\<close>, \<open>strstr\<close>. A C string is a list without
    NUL, a buffer of \<open>n\<close> bytes holds a string shorter than \<open>n\<close>, a pointer that may be NULL is an
    option. The rules \<open>rsat\<close> and \<open>tsat\<close> reason about functions \<open>'s \<Rightarrow> ('a \<times> 's) option\<close>: if the
    call returns, and it returns and then. \<open>None\<close> is a call that never returns, as in a
    \<open>waitpid\<close> on a child that hangs.
  \<^item> \<^bold>\<open>State\<close> (\<open>Tumgrd_State\<close>; \<open>db.h\<close>, \<open>tumgrd.h\<close>). The records \<open>tumgrd_node\<close>, \<open>tumgrd_config\<close>
    and \<open>row\<close>; the state \<open>'w sys\<close> of the process: the database handle with the table, the runner
    with its file descriptors, child, alarm and signal mask, and the outside world \<open>'w\<close>. The record
    \<open>'w os\<close> holds what the outside world answers to each system or library call; the theorems hold
    for every such record. Ghost fields log every child started and every signal sent.
  \<^item> \<^bold>\<open>Helper\<close> (\<open>Tumgrd_Helper\<close>; \<open>helper.c\<close>). Parsers, trimming, directories, random keys.
  \<^item> \<^bold>\<open>Store\<close> (\<open>Tumgrd_Db\<close>; \<open>db.c\<close>). Every SQL statement as a function on the table, every
    operation of the store on top of it, the schema and its migrations. A SQLite call may fail at
    any point; a failed statement changes nothing.
  \<^item> \<^bold>\<open>Runner\<close> (\<open>Tumgrd_Runner\<close>; \<open>runner.c\<close>). \<open>exec_with_stdio\<close> with its pipes, the watchdog and
    the four operations on the external tools.
  \<^item> \<^bold>\<open>Public address\<close> (\<open>Tumgrd_Ipdetect\<close>; \<open>ipdetect.c\<close>). URL parsing, the HTTP and the IPv6 probe.
  \<^item> \<^bold>\<open>Protocol\<close> (\<open>Tumgrd_Protocol\<close>). The abstract specification of a key rotation: \<open>proto_step\<close> is
    the step relation of one node, in which a tool may only be given the key that the database
    holds, and the row may only be written in the states that the protocol allows.
  \<^item> \<^bold>\<open>Reconciler\<close> (\<open>Tumgrd_Reconcile\<close>; \<open>reconcile.c\<close>). A pass over one node and over all nodes.
  \<^item> \<^bold>\<open>Services\<close> (\<open>Tumgrd_Service\<close>). The contract of everything that the event loop calls, the
    locale \<open>service\<close>: it keeps the database consistent, leaks nothing and returns.
  \<^item> \<^bold>\<open>Ubus interface\<close> (\<open>Tumgrd_Ubus\<close>, \<open>Tumgrd_Requests\<close>; \<open>ubus_if.c\<close>). The handlers, the network
    event listener and the two timers, each interpreted as a \<open>service\<close>; what each request does.
    The record \<open>'w bus\<close> is what libubus and libubox answer.
  \<^item> \<^bold>\<open>Main program\<close> (\<open>Tumgrd_Main\<close>, \<open>Tumgrd_Daemon\<close>; \<open>main.c\<close>, \<open>log_impl.c\<close>). Options, start,
    event loop over a list of events, shutdown; the properties of whole runs.

  How they interact. The event loop calls a handler or a timer callback; these call the
  reconciler; the reconciler reads and writes the store, probes the address and calls the runner.
  There is one thread, so an event is handled completely before the next one; the only
  asynchronous input is SIGALRM, which the runner turns into the interruption of the system call
  at hand, and the child process, which may end at any time.

  What the lemmas show.

  \<^item> Reconciler: every pass is a sequence of steps of the protocol, so that a crash or an error at
    any moment leaves no end of the tunnel with a key that is not stored; a pass that fails keeps a
    rotation in progress and its key, one that returns 0 leaves the row active and at rest after a
    successful set-up of the client; a run over all nodes keeps the table consistent and returns
    even if every tool and server hangs.
  \<^item> Requests: a registration stores what was asked for, column by column, and nothing else, and
    then makes a pass over that row; deregistration removes one row whatever the tools return, and
    fails only with the database; a forced refresh that answers \<open>ok\<close> has settled its nodes; a
    refused request changes nothing.
  \<^item> Daemon: no sequence of events breaks the invariants, the periodic timer never dies out, and
    at the end everything is released.
  \<^item> Store: the invariant \<open>db_ok\<close>, round trips, exclusiveness of a rotation, migrations.
  \<^item> Runner: it signals only its own live child, closes every descriptor, and reports success only
    for a child that exited with 0.
  \<^item> Two behaviours that are not intended are theorems as well: a positive status of
    \<open>ubus_add_object\<close> is ignored by \<open>main\<close>, and a uid or host that does not fit its column is
    stored truncated and always reported as new.

  Hypotheses. \<open>pipe_fds_ok\<close>: \<open>pipe\<close> gives descriptors that are not negative.
  \<open>inet_text_ok\<close>: \<open>inet_pton\<close> accepts only short texts without white space. \<open>scan_complete\<close>: a
  SELECT delivers the rows of the table. \<open>urandom_bounded\<close>: \<open>read\<close> returns at most what was asked
  for. \<open>sqlite_works\<close>: SQLite accepts every call, used only to say when a delete succeeds.
  The theorems that something returns rest on \<open>kernel_live\<close>, \<open>sockets_live\<close> and
  \<open>urandom_eintr_finite\<close>, together \<open>daemon_live\<close>: a running alarm goes off, a killed child can be
  reaped, a socket with a timeout does not block for ever, a read is not interrupted for ever, and
  (\<open>spawn_returns\<close>) \<open>posix_spawn\<close> itself returns. The last one is a window that the program cannot
  close, as the comment above the watchdog in \<open>runner.c\<close> says: while the child execs, the parent
  waits in \<open>vfork\<close>, and SIGALRM does not interrupt that wait. In the model \<open>posix_spawnp\<close> need not
  return, and only the theorems about returning assume that it does. Each hypothesis is used with a
  witness: \<open>demo_os\<close> is a world in which all tools work, \<open>hang_os\<close> one in which none, once
  started, ever answers.

  Bounds. \<open>int\<close> and \<open>int64_t\<close> values are integers with the checks of the code around them; the
  subtraction \<open>now - last_applied_at\<close> is on values that the store has clamped. Ports, times and
  lifetimes from messages are taken from \<open>32 word\<close> with the sign of the cast, and the timer
  interval is computed in 32 bits. Loops that may not end are \<open>partial_function (option)\<close>; no fuel
  is used. The width of \<open>long\<close> is a parameter \<open>bits\<close>.

  Not modelled: the text of log messages other than \<open>log_argv\<close> and \<open>log_any\<close>, and with it
  \<open>log_trimmed\<close>; \<open>usage()\<close>; how \<open>getopt_long\<close> splits \<open>argv\<close>; the dispositions of SIGINT, SIGTERM
  and SIGPIPE, of which the first two end the list of events and the last makes a write to a
  closed pipe an error; the inside of libubus, libubox, libuci and SQLite; the control-flow macros
  of \<open>try.h\<close>, which are expanded where they are used; the shell client \<open>tumgr\<close> and the build files.
\<close>

end
